theory Spec2Isabelle
  imports Complex_Main "HOL-Library.Word" "HOL-Library.Log_Nat"
begin

unbundle bit_operations_syntax

section \<open>Surface state machine (wl_surface requests and shell roles)\<close>

text \<open>
  The data of \<^verbatim>\<open>meta-wayland-surface.h\<close>. Pointers to heap objects are optional values
  (\<open>None\<close> is \<^verbatim>\<open>NULL\<close>). A cairo region belongs to an external library: it is kept as the
  list of rectangles whose union it is, which is all the surface code observes of it
  (the number of rectangles, each rectangle, union with and intersection by a rectangle).
\<close>

record MetaRectangle =
  rect_x :: int
  rect_y :: int
  rect_width :: int
  rect_height :: int

type_synonym cairo_rectangle_int_t = MetaRectangle

type_synonym cairo_region_t = "cairo_rectangle_int_t list"

record MetaWaylandBuffer =
  buffer_id :: nat
  width :: int
  height :: int

record MetaWaylandDoubleBufferedState =
  newly_attached :: bool
  buffer :: "MetaWaylandBuffer option"
  dx :: int
  dy :: int
  damage :: cairo_region_t
  input_region :: "cairo_region_t option"
  opaque_region :: "cairo_region_t option"
  frame_callback_list :: "nat list"

datatype MetaWindowClientType = META_WINDOW_CLIENT_TYPE_WAYLAND | META_WINDOW_CLIENT_TYPE_X11

datatype MetaWindowType = META_WINDOW_NORMAL | META_WINDOW_DROPDOWN_MENU

record MetaWindow =
  client_type :: MetaWindowClientType
  rect :: MetaRectangle
  showing_for_first_time :: bool
  placed :: bool
  window_type :: MetaWindowType

text \<open>
  A \<^verbatim>\<open>MetaWaylandSurfaceExtension\<close> is its \<^verbatim>\<open>resource\<close> field: the id of the extension's
  protocol resource, or \<^verbatim>\<open>NULL\<close>.
\<close>

type_synonym MetaWaylandSurfaceExtension = "nat option"

record MetaWaylandSurface =
  surface_id :: nat
  window :: "MetaWindow option"
  xdg_surface :: MetaWaylandSurfaceExtension
  xdg_popup :: MetaWaylandSurfaceExtension
  gtk_surface :: MetaWaylandSurfaceExtension
  subsurface :: MetaWaylandSurfaceExtension
  buffer_ref :: "MetaWaylandBuffer option"
  pending :: MetaWaylandDoubleBufferedState

text \<open>
  What the surface code sends to its collaborators (the surface actor, the window manager,
  the seat), in the order of the calls.
\<close>

datatype collaborator_call =
    SurfaceActorCommit
  | SeatUpdateSprite
  | AttachWaylandBuffer "MetaWaylandBuffer option"
  | DamageArea int int int int
  | SetOpaqueRegion cairo_region_t
  | SetInputRegion cairo_region_t
  | SetSurfaceMapped bool
  | MoveResizeWayland int int int int
  | ActorShow
  | ActorHide
  | ActorMoveBy int int
  | WindowNewForWayland
  | SetTransientFor
  | WindowTypeChanged
  | StartPopupGrab
  | ActorAddChild nat

text \<open>
  A protocol error posted with \<^verbatim>\<open>wl_resource_post_error\<close>: the id of the surface whose
  resource it is posted on, the error code and the message.
\<close>

record posted_error =
  error_surface :: nat
  error_code :: nat
  error_message :: string

record MetaWaylandCompositor =
  sprite :: "nat option"
  frame_callbacks :: "nat list"
  calls :: "collaborator_call list"
  errors :: "posted_error list"


subsection \<open>Regions\<close>

definition cairo_region_union_rectangle :: "cairo_region_t \<Rightarrow> cairo_rectangle_int_t \<Rightarrow> cairo_region_t" where
  "cairo_region_union_rectangle region r = region @ [r]"

definition rectangle_is_empty :: "cairo_rectangle_int_t \<Rightarrow> bool" where
  "rectangle_is_empty r = (rect_width r \<le> 0 \<or> rect_height r \<le> 0)"

definition rectangle_intersect :: "cairo_rectangle_int_t \<Rightarrow> cairo_rectangle_int_t \<Rightarrow> cairo_rectangle_int_t" where
  "rectangle_intersect a b =
     (let x1 = max (rect_x a) (rect_x b);
          y1 = max (rect_y a) (rect_y b);
          x2 = min (rect_x a + rect_width a) (rect_x b + rect_width b);
          y2 = min (rect_y a + rect_height a) (rect_y b + rect_height b)
      in \<lparr>rect_x = x1, rect_y = y1, rect_width = x2 - x1, rect_height = y2 - y1\<rparr>)"

definition cairo_region_intersect_rectangle :: "cairo_region_t \<Rightarrow> cairo_rectangle_int_t \<Rightarrow> cairo_region_t" where
  "cairo_region_intersect_rectangle region r =
     filter (\<lambda>a. \<not> rectangle_is_empty a) (map (\<lambda>a. rectangle_intersect a r) region)"

definition empty_region :: "cairo_region_t \<Rightarrow> cairo_region_t" where
  "empty_region region =
     cairo_region_intersect_rectangle region
       \<lparr>rect_x = 0, rect_y = 0, rect_width = 0, rect_height = 0\<rparr>"

subsection \<open>wl_surface requests\<close>

text \<open>
  Every handler starts with the guard \<^verbatim>\<open>if (!surface) return;\<close> (the resource of an X11
  unmanaged window has no surface behind it): the surface argument is optional, and \<open>None\<close>
  is returned untouched.
\<close>

definition meta_wayland_surface_attach ::
  "MetaWaylandSurface option \<Rightarrow> MetaWaylandBuffer option \<Rightarrow> int \<Rightarrow> int \<Rightarrow> MetaWaylandSurface option" where
  "meta_wayland_surface_attach surface b x y =
     (case surface of
        None \<Rightarrow> None
      | Some s \<Rightarrow>
          Some (s\<lparr>pending := (pending s)\<lparr>dx := x, dy := y, buffer := b, newly_attached := True\<rparr>\<rparr>))"

definition meta_wayland_surface_damage ::
  "MetaWaylandSurface option \<Rightarrow> int \<Rightarrow> int \<Rightarrow> int \<Rightarrow> int \<Rightarrow> MetaWaylandSurface option" where
  "meta_wayland_surface_damage surface x y w h =
     (case surface of
        None \<Rightarrow> None
      | Some s \<Rightarrow>
          Some (s\<lparr>pending := (pending s)\<lparr>damage :=
            cairo_region_union_rectangle (damage (pending s))
              \<lparr>rect_x = x, rect_y = y, rect_width = w, rect_height = h\<rparr>\<rparr>\<rparr>))"

definition meta_wayland_surface_frame ::
  "MetaWaylandSurface option \<Rightarrow> nat \<Rightarrow> MetaWaylandSurface option" where
  "meta_wayland_surface_frame surface callback_id =
     (case surface of
        None \<Rightarrow> None
      | Some s \<Rightarrow>
          Some (s\<lparr>pending := (pending s)\<lparr>frame_callback_list :=
            frame_callback_list (pending s) @ [callback_id]\<rparr>\<rparr>))"

definition meta_wayland_surface_set_opaque_region ::
  "MetaWaylandSurface option \<Rightarrow> cairo_region_t option \<Rightarrow> MetaWaylandSurface option" where
  "meta_wayland_surface_set_opaque_region surface region_resource =
     (case surface of
        None \<Rightarrow> None
      | Some s \<Rightarrow> Some (s\<lparr>pending := (pending s)\<lparr>opaque_region := region_resource\<rparr>\<rparr>))"

definition meta_wayland_surface_set_input_region ::
  "MetaWaylandSurface option \<Rightarrow> cairo_region_t option \<Rightarrow> MetaWaylandSurface option" where
  "meta_wayland_surface_set_input_region surface region_resource =
     (case surface of
        None \<Rightarrow> None
      | Some s \<Rightarrow> Some (s\<lparr>pending := (pending s)\<lparr>input_region := region_resource\<rparr>\<rparr>))"

text \<open>
  The destroy listener of the pending buffer: a buffer destroyed while it is pending is
  forgotten.
\<close>

definition surface_handle_pending_buffer_destroy :: "MetaWaylandSurface \<Rightarrow> MetaWaylandSurface" where
  "surface_handle_pending_buffer_destroy s = s\<lparr>pending := (pending s)\<lparr>buffer := None\<rparr>\<rparr>"

subsection \<open>Commit\<close>

definition add_calls :: "collaborator_call list \<Rightarrow> MetaWaylandCompositor \<Rightarrow> MetaWaylandCompositor" where
  "add_calls cs c = c\<lparr>calls := calls c @ cs\<rparr>"

definition surface_process_damage :: "cairo_region_t \<Rightarrow> collaborator_call list" where
  "surface_process_damage region =
     map (\<lambda>r. DamageArea (rect_x r) (rect_y r) (rect_width r) (rect_height r)) region"

text \<open>
  The buffer swap compares the pending buffer with the bound one as pointers: by identity.
  Importing the texture (\<^verbatim>\<open>ensure_buffer_texture\<close>) is the renderer's work; a buffer carries
  the width and height the import gives it.
\<close>

definition same_buffer :: "MetaWaylandBuffer option \<Rightarrow> MetaWaylandBuffer option \<Rightarrow> bool" where
  "same_buffer a b = (map_option buffer_id a = map_option buffer_id b)"

definition cursor_surface_commit ::
  "MetaWaylandCompositor \<times> MetaWaylandSurface \<Rightarrow> MetaWaylandCompositor \<times> MetaWaylandSurface" where
  "cursor_surface_commit cs =
     (let c = fst cs; s = snd cs; b = buffer (pending s);
          s1 = (if newly_attached (pending s) \<and> \<not> same_buffer b (buffer_ref s)
                then s\<lparr>buffer_ref := b\<rparr> else s)
      in (add_calls [SeatUpdateSprite] c, s1))"

definition actor_surface_commit ::
  "MetaWaylandCompositor \<times> MetaWaylandSurface \<Rightarrow> bool \<times> MetaWaylandCompositor \<times> MetaWaylandSurface" where
  "actor_surface_commit cs =
     (let c = fst cs; s = snd cs; b = buffer (pending s);
          changed = (newly_attached (pending s) \<and> \<not> same_buffer b (buffer_ref s));
          s1 = (if changed then s\<lparr>buffer_ref := b\<rparr> else s);
          c1 = (if changed then add_calls [AttachWaylandBuffer b] c else c);
          c2 = add_calls (surface_process_damage (damage (pending s))) c1;
          c3 = (case opaque_region (pending s) of
                  None \<Rightarrow> c2 | Some r \<Rightarrow> add_calls [SetOpaqueRegion r] c2);
          c4 = (case input_region (pending s) of
                  None \<Rightarrow> c3 | Some r \<Rightarrow> add_calls [SetInputRegion r] c3)
      in (changed, c4, s1))"

definition toplevel_surface_commit ::
  "MetaWaylandCompositor \<times> MetaWaylandSurface \<Rightarrow> MetaWaylandCompositor \<times> MetaWaylandSurface" where
  "toplevel_surface_commit cs =
     (case actor_surface_commit cs of
        (False, c, s) \<Rightarrow> (c, s)
      | (True, c, s) \<Rightarrow>
          (let b = buffer (pending s);
               c1 = add_calls [SetSurfaceMapped (b \<noteq> None)] c
           in case (b, window s, buffer_ref s) of
                (Some _, Some w, Some bound) \<Rightarrow>
                  (if client_type w = META_WINDOW_CLIENT_TYPE_WAYLAND \<and>
                      (width bound \<noteq> rect_width (rect w) \<or>
                       height bound \<noteq> rect_height (rect w) \<or>
                       dx (pending s) \<noteq> 0 \<or> dy (pending s) \<noteq> 0)
                   then (add_calls [MoveResizeWayland (width bound) (height bound)
                                      (dx (pending s)) (dy (pending s))] c1, s)
                   else (c1, s))
              | _ \<Rightarrow> (c1, s)))"

definition subsurface_surface_commit ::
  "MetaWaylandCompositor \<times> MetaWaylandSurface \<Rightarrow> MetaWaylandCompositor \<times> MetaWaylandSurface" where
  "subsurface_surface_commit cs =
     (case actor_surface_commit cs of
        (False, c, s) \<Rightarrow> (c, s)
      | (True, c, s) \<Rightarrow>
          (add_calls [if buffer (pending s) \<noteq> None then ActorShow else ActorHide,
                      ActorMoveBy (dx (pending s)) (dy (pending s))] c, s))"

definition meta_wayland_surface_commit ::
  "MetaWaylandCompositor \<times> MetaWaylandSurface option \<Rightarrow> MetaWaylandCompositor \<times> MetaWaylandSurface option" where
  "meta_wayland_surface_commit cs =
     (case snd cs of
        None \<Rightarrow> cs
      | Some s0 \<Rightarrow>
          (let c0 = add_calls [SurfaceActorCommit] (fst cs);
               (c, s) = (if sprite c0 = Some (surface_id s0) then cursor_surface_commit (c0, s0)
                         else if window s0 \<noteq> None then toplevel_surface_commit (c0, s0)
                         else if subsurface s0 \<noteq> None then subsurface_surface_commit (c0, s0)
                         else (c0, s0));
               p = pending s;
               p1 = (if buffer p \<noteq> None then p\<lparr>buffer := None\<rparr> else p);
               p2 = p1\<lparr>dx := 0, dy := 0, newly_attached := False,
                       opaque_region := None, input_region := None,
                       damage := empty_region (damage p1)\<rparr>;
               c1 = c\<lparr>frame_callbacks := frame_callback_list p2 @ frame_callbacks c\<rparr>
           in (c1, Some (s\<lparr>pending := p2\<lparr>frame_callback_list := []\<rparr>\<rparr>))))"

text \<open>
  The requests a client can send on one surface, with the destruction of the pending
  buffer (which only happens while a buffer is pending), and a session of them.
\<close>

datatype surface_request =
    Attach "MetaWaylandBuffer option" int int
  | Damage int int int int
  | Frame nat
  | SetOpaque "cairo_region_t option"
  | SetInput "cairo_region_t option"
  | PendingBufferDestroy
  | Commit

fun handle_request ::
  "MetaWaylandCompositor \<times> MetaWaylandSurface option \<Rightarrow> surface_request \<Rightarrow>
   MetaWaylandCompositor \<times> MetaWaylandSurface option" where
  "handle_request (c, s) (Attach b x y) = (c, meta_wayland_surface_attach s b x y)"
| "handle_request (c, s) (Damage x y w h) = (c, meta_wayland_surface_damage s x y w h)"
| "handle_request (c, s) (Frame i) = (c, meta_wayland_surface_frame s i)"
| "handle_request (c, s) (SetOpaque r) = (c, meta_wayland_surface_set_opaque_region s r)"
| "handle_request (c, s) (SetInput r) = (c, meta_wayland_surface_set_input_region s r)"
| "handle_request (c, s) PendingBufferDestroy =
     (c, case s of
           None \<Rightarrow> None
         | Some s' \<Rightarrow>
             if buffer (pending s') \<noteq> None then Some (surface_handle_pending_buffer_destroy s')
             else Some s')"
| "handle_request (c, s) Commit = meta_wayland_surface_commit (c, s)"

definition handle_requests ::
  "MetaWaylandCompositor \<times> MetaWaylandSurface option \<Rightarrow> surface_request list \<Rightarrow>
   MetaWaylandCompositor \<times> MetaWaylandSurface option" where
  "handle_requests cs rs = foldl handle_request cs rs"

text \<open>\<^verbatim>\<open>meta_wayland_surface_create\<close>: a zeroed surface with an empty pending damage region.\<close>

definition meta_wayland_surface_create :: "nat \<Rightarrow> MetaWaylandSurface" where
  "meta_wayland_surface_create i =
     \<lparr>surface_id = i, window = None, xdg_surface = None, xdg_popup = None,
      gtk_surface = None, subsurface = None, buffer_ref = None,
      pending = \<lparr>newly_attached = False, buffer = None, dx = 0, dy = 0, damage = [],
                 input_region = None, opaque_region = None, frame_callback_list = []\<rparr>\<rparr>"

definition compositor_init :: MetaWaylandCompositor where
  "compositor_init = \<lparr>sprite = None, frame_callbacks = [], calls = [], errors = []\<rparr>"

subsection \<open>Shell roles\<close>

text \<open>
  A role request creates the protocol resource of one extension slot of the surface. The
  handlers read the surface out of the resource without a guard, so a resource with no
  surface behind it is a \<^verbatim>\<open>NULL\<close> dereference.
\<close>

datatype crash = NullDereference | AssertionFailure










text \<open>The values used in the examples below.\<close>

definition example_rect :: MetaRectangle where
  "example_rect = \<lparr>rect_x = 0, rect_y = 0, rect_width = 64, rect_height = 64\<rparr>"

definition example_buffer :: MetaWaylandBuffer where
  "example_buffer = \<lparr>buffer_id = 7, width = 64, height = 64\<rparr>"

definition pending_regions ::
  "MetaWaylandCompositor \<times> MetaWaylandSurface option \<Rightarrow>
   (cairo_region_t option \<times> cairo_region_t option) option" where
  "pending_regions cs =
     map_option (\<lambda>s. (opaque_region (pending s), input_region (pending s))) (snd cs)"


section \<open>Pointer focus and grabs\<close>

text \<open>
  The pointer of \<^verbatim>\<open>meta-wayland-pointer.c\<close>. A protocol resource is its id and the client
  that owns it. The pointer code sees of a surface its \<^verbatim>\<open>wl_surface\<close> resource (compared
  by identity, asked for its client); surfaces handed to the pointer are live, so their
  resource is set, which is what \<^verbatim>\<open>g_assert (surface->resource)\<close> states.
\<close>

type_synonym wl_client = nat

record wl_resource =
  resource_id :: nat
  resource_client :: wl_client

record surface_ref =
  surface_resource :: wl_resource

text \<open>
  The active grab is one pointer: to the default grab embedded in the pointer, to a modal
  grab, or to a popup grab, which carries its owning client and the list \<open>all_popups\<close>
  (first element first in iteration order).
\<close>

datatype MetaWaylandPointerGrab =
    DefaultGrab
  | ModalGrab
  | PopupGrab wl_client "surface_ref list"

text \<open>
  The messages the pointer code sends to clients. Surface-local coordinates are computed by
  the renderer in floating point and are left out of enter and motion.
\<close>

datatype wl_message =
    SendLeave wl_resource "32 word" wl_resource
  | SendEnter wl_resource "32 word" wl_resource
  | SendModifiers wl_resource "32 word" "32 word \<times> 32 word \<times> 32 word \<times> 32 word"
  | SendMotion wl_resource "32 word"
  | SendButton wl_resource "32 word" "32 word" "32 word" "32 word"
  | SendPopupDone wl_resource

text \<open>
  The pointer, with what it reaches through its seat: the keyboard's resources and
  modifier state, the display's serial counter, and the messages sent so far.
\<close>

record MetaWaylandPointer =
  resource_list :: "wl_resource list"
  focus :: "surface_ref option"
  focus_resource :: "wl_resource option"
  focus_serial :: "32 word"
  pointer_button_count :: "32 word"
  current :: "surface_ref option"
  grab :: MetaWaylandPointerGrab
  keyboard_resource_list :: "wl_resource list"
  modifier_state :: "32 word \<times> 32 word \<times> 32 word \<times> 32 word"
  display_serial :: "32 word"
  sent :: "wl_message list"

datatype ClutterEventType = CLUTTER_MOTION | CLUTTER_BUTTON_PRESS | CLUTTER_BUTTON_RELEASE

record ClutterEvent =
  event_type :: ClutterEventType
  event_button :: "32 word"
  event_time :: "32 word"

definition BTN_LEFT :: "32 word" where "BTN_LEFT = 0x110"
definition BTN_RIGHT :: "32 word" where "BTN_RIGHT = 0x111"
definition BTN_MIDDLE :: "32 word" where "BTN_MIDDLE = 0x112"

definition meta_wayland_pointer_init :: MetaWaylandPointer where
  "meta_wayland_pointer_init =
     \<lparr>resource_list = [], focus = None, focus_resource = None, focus_serial = 0,
      pointer_button_count = 0, current = None, grab = DefaultGrab,
      keyboard_resource_list = [], modifier_state = (0, 0, 0, 0), display_serial = 0,
      sent = []\<rparr>"

definition lose_pointer_focus :: "MetaWaylandPointer \<Rightarrow> MetaWaylandPointer" where
  "lose_pointer_focus p = p\<lparr>focus_resource := None, focus := None\<rparr>"

definition wl_resource_find_for_client :: "wl_resource list \<Rightarrow> wl_client \<Rightarrow> wl_resource option" where
  "wl_resource_find_for_client list client = find (\<lambda>r. resource_client r = client) list"

definition find_resource_for_surface :: "wl_resource list \<Rightarrow> surface_ref option \<Rightarrow> wl_resource option" where
  "find_resource_for_surface list surface =
     (case surface of
        None \<Rightarrow> None
      | Some s \<Rightarrow> wl_resource_find_for_client list (resource_client (surface_resource s)))"

definition meta_wayland_pointer_set_focus ::
  "MetaWaylandPointer \<Rightarrow> surface_ref option \<Rightarrow> crash + MetaWaylandPointer" where
  "meta_wayland_pointer_set_focus p surface =
     (case (case focus_resource p of
              None \<Rightarrow> Inr p
            | Some res \<Rightarrow>
                if focus p \<noteq> surface then
                  (case focus p of
                     None \<Rightarrow> Inl NullDereference
                   | Some f \<Rightarrow>
                       Inr (p\<lparr>display_serial := display_serial p + 1,
                              sent := sent p @
                                [SendLeave res (display_serial p + 1) (surface_resource f)]\<rparr>))
                else Inr p) of
        Inl e \<Rightarrow> Inl e
      | Inr p1 \<Rightarrow>
          (let res = find_resource_for_surface (resource_list p1) surface;
               p2 = (case (res, surface) of
                       (Some r, Some s) \<Rightarrow>
                         if focus p1 \<noteq> surface \<or> focus_resource p1 \<noteq> res then
                           (let serial = display_serial p1 + 1;
                                mods = (case find_resource_for_surface
                                               (keyboard_resource_list p1) surface of
                                          None \<Rightarrow> []
                                        | Some kr \<Rightarrow> [SendModifiers kr serial (modifier_state p1)])
                            in p1\<lparr>display_serial := serial,
                                  sent := sent p1 @ mods @ [SendEnter r serial (surface_resource s)],
                                  focus_serial := serial\<rparr>)
                         else p1
                     | _ \<Rightarrow> p1)
           in Inr (p2\<lparr>focus_resource := res, focus := surface\<rparr>)))"

subsection \<open>The default grab\<close>

definition default_grab_focus ::
  "MetaWaylandPointer \<Rightarrow> surface_ref option \<Rightarrow> crash + MetaWaylandPointer" where
  "default_grab_focus p surface =
     (if pointer_button_count p > 0 then Inr p else meta_wayland_pointer_set_focus p surface)"

definition default_grab_motion :: "MetaWaylandPointer \<Rightarrow> ClutterEvent \<Rightarrow> crash + MetaWaylandPointer" where
  "default_grab_motion p event =
     (case focus_resource p of
        None \<Rightarrow> Inr p
      | Some res \<Rightarrow>
          (case focus p of
             None \<Rightarrow> Inl NullDereference
           | Some f \<Rightarrow> Inr (p\<lparr>sent := sent p @ [SendMotion res (event_time event)]\<rparr>)))"

definition default_grab_button :: "MetaWaylandPointer \<Rightarrow> ClutterEvent \<Rightarrow> crash + MetaWaylandPointer" where
  "default_grab_button p event =
     (let p1 = (case focus_resource p of
                  None \<Rightarrow> p
                | Some res \<Rightarrow>
                    (let button = (if event_button event = 2 then BTN_MIDDLE
                                   else if event_button event = 3 then BTN_RIGHT
                                   else event_button event + BTN_LEFT - 1);
                         serial = display_serial p + 1
                     in p\<lparr>display_serial := serial,
                          sent := sent p @
                            [SendButton res serial (event_time event) button
                               (if event_type event = CLUTTER_BUTTON_PRESS then 1 else 0)]\<rparr>))
      in if pointer_button_count p1 = 0 \<and> event_type event = CLUTTER_BUTTON_RELEASE
         then meta_wayland_pointer_set_focus p1 (current p1)
         else Inr p1)"

subsection \<open>Starting and ending grabs\<close>

definition meta_wayland_pointer_end_grab :: "MetaWaylandPointer \<Rightarrow> crash + MetaWaylandPointer" where
  "meta_wayland_pointer_end_grab p =
     (let p1 = p\<lparr>grab := DefaultGrab\<rparr> in default_grab_focus p1 (current p1))"

definition meta_wayland_pointer_set_current ::
  "MetaWaylandPointer \<Rightarrow> surface_ref option \<Rightarrow> MetaWaylandPointer" where
  "meta_wayland_pointer_set_current p surface = p\<lparr>current := surface\<rparr>"

definition current_surface_destroy :: "MetaWaylandPointer \<Rightarrow> MetaWaylandPointer" where
  "current_surface_destroy p = p\<lparr>current := None\<rparr>"

subsection \<open>The popup grab\<close>

text \<open>
  The popup grab's callbacks get the grab as their argument; here its owner
  \<open>grab_client\<close> is passed.
\<close>

definition popup_grab_focus ::
  "MetaWaylandPointer \<Rightarrow> wl_client \<Rightarrow> surface_ref option \<Rightarrow> crash + MetaWaylandPointer" where
  "popup_grab_focus p grab_client surface =
     (case surface of
        None \<Rightarrow> Inl NullDereference
      | Some s \<Rightarrow>
          if resource_client (surface_resource s) = grab_client
          then default_grab_focus p surface
          else meta_wayland_pointer_set_focus p None)"

definition popup_grab_motion :: "MetaWaylandPointer \<Rightarrow> ClutterEvent \<Rightarrow> crash + MetaWaylandPointer" where
  "popup_grab_motion p event = default_grab_motion p event"

text \<open>
  \<^verbatim>\<open>popup_done\<close> goes to the shell-surface resource of each tracked popup, in list order;
  the message names the popup by its surface resource.
\<close>

definition meta_wayland_pointer_end_popup_grab :: "MetaWaylandPointer \<Rightarrow> crash + MetaWaylandPointer" where
  "meta_wayland_pointer_end_popup_grab p =
     (case grab p of
        PopupGrab grab_client all_popups \<Rightarrow>
          meta_wayland_pointer_end_grab
            (p\<lparr>sent := sent p @ map (\<lambda>popup. SendPopupDone (surface_resource popup)) all_popups,
               grab := PopupGrab grab_client []\<rparr>)
      | _ \<Rightarrow> Inl AssertionFailure)"

definition popup_grab_button ::
  "MetaWaylandPointer \<Rightarrow> wl_client \<Rightarrow> ClutterEvent \<Rightarrow> crash + MetaWaylandPointer" where
  "popup_grab_button p grab_client event =
     (case focus_resource p of
        Some res \<Rightarrow>
          if resource_client res = grab_client then default_grab_button p event
          else Inl AssertionFailure
      | None \<Rightarrow>
          if event_type event = CLUTTER_BUTTON_RELEASE \<and> pointer_button_count p = 0
          then meta_wayland_pointer_end_popup_grab p
          else Inr p)"

text \<open>
  The destroy listener of one tracked popup: it exists while the popup is in the list of
  the popup grab.
\<close>

definition on_popup_surface_destroy ::
  "MetaWaylandPointer \<Rightarrow> surface_ref \<Rightarrow> crash + MetaWaylandPointer" where
  "on_popup_surface_destroy p popup =
     (case grab p of
        PopupGrab grab_client all_popups \<Rightarrow>
          if popup \<in> set all_popups then
            (let p1 = p\<lparr>grab := PopupGrab grab_client (remove1 popup all_popups)\<rparr>
             in if remove1 popup all_popups = []
                then meta_wayland_pointer_end_popup_grab p1
                else Inr p1)
          else Inr p
      | _ \<Rightarrow> Inr p)"

subsection \<open>Dispatch through the active grab\<close>

definition grab_focus :: "MetaWaylandPointer \<Rightarrow> surface_ref option \<Rightarrow> crash + MetaWaylandPointer" where
  "grab_focus p surface =
     (case grab p of
        DefaultGrab \<Rightarrow> default_grab_focus p surface
      | ModalGrab \<Rightarrow> Inr p
      | PopupGrab grab_client all_popups \<Rightarrow> popup_grab_focus p grab_client surface)"

definition grab_motion :: "MetaWaylandPointer \<Rightarrow> ClutterEvent \<Rightarrow> crash + MetaWaylandPointer" where
  "grab_motion p event =
     (case grab p of
        DefaultGrab \<Rightarrow> default_grab_motion p event
      | ModalGrab \<Rightarrow> Inr p
      | PopupGrab grab_client all_popups \<Rightarrow> popup_grab_motion p event)"

definition grab_button :: "MetaWaylandPointer \<Rightarrow> ClutterEvent \<Rightarrow> crash + MetaWaylandPointer" where
  "grab_button p event =
     (case grab p of
        DefaultGrab \<Rightarrow> default_grab_button p event
      | ModalGrab \<Rightarrow> Inr p
      | PopupGrab grab_client all_popups \<Rightarrow> popup_grab_button p grab_client event)"

definition meta_wayland_pointer_start_grab ::
  "MetaWaylandPointer \<Rightarrow> MetaWaylandPointerGrab \<Rightarrow> crash + MetaWaylandPointer" where
  "meta_wayland_pointer_start_grab p g =
     (let p1 = p\<lparr>grab := g\<rparr>
      in case current p1 of
           None \<Rightarrow> Inr p1
         | Some cur \<Rightarrow> grab_focus p1 (Some cur))"

subsection \<open>Modal grab\<close>

definition meta_wayland_pointer_begin_modal ::
  "MetaWaylandPointer \<Rightarrow> crash + bool \<times> MetaWaylandPointer" where
  "meta_wayland_pointer_begin_modal p =
     (if grab p \<noteq> DefaultGrab then Inr (False, p)
      else case meta_wayland_pointer_set_focus p None of
             Inl e \<Rightarrow> Inl e
           | Inr p1 \<Rightarrow>
               (case meta_wayland_pointer_start_grab p1 ModalGrab of
                  Inl e \<Rightarrow> Inl e
                | Inr p2 \<Rightarrow> Inr (True, p2)))"

definition meta_wayland_pointer_end_modal :: "MetaWaylandPointer \<Rightarrow> crash + MetaWaylandPointer" where
  "meta_wayland_pointer_end_modal p =
     (if grab p = ModalGrab then meta_wayland_pointer_end_grab p else Inl AssertionFailure)"

definition meta_wayland_pointer_destroy_focus :: "MetaWaylandPointer \<Rightarrow> crash + MetaWaylandPointer" where
  "meta_wayland_pointer_destroy_focus p =
     (if grab p = DefaultGrab then
        (if pointer_button_count p > 0 then meta_wayland_pointer_set_focus p None
         else Inl AssertionFailure)
      else Inr p)"

subsection \<open>Starting a popup grab\<close>

text \<open>
  The new popup is put at the head of \<open>all_popups\<close> of the grab that the local variable
  \<open>grab\<close> points to, which is the active grab.
\<close>

definition insert_popup :: "MetaWaylandPointer \<Rightarrow> surface_ref \<Rightarrow> MetaWaylandPointer" where
  "insert_popup p surface =
     (case grab p of
        PopupGrab grab_client all_popups \<Rightarrow> p\<lparr>grab := PopupGrab grab_client (surface # all_popups)\<rparr>
      | _ \<Rightarrow> p)"

definition meta_wayland_pointer_start_popup_grab ::
  "MetaWaylandPointer \<Rightarrow> surface_ref \<Rightarrow> crash + bool \<times> MetaWaylandPointer" where
  "meta_wayland_pointer_start_popup_grab p surface =
     (if grab p \<noteq> DefaultGrab then
        (case grab p of
           PopupGrab grab_client all_popups \<Rightarrow>
             if resource_client (surface_resource surface) \<noteq> grab_client
             then Inr (False, p)
             else Inr (False, p)
         | _ \<Rightarrow> Inr (False, p))
      else
        (case (if grab p = DefaultGrab
               then meta_wayland_pointer_start_grab p
                      (PopupGrab (resource_client (surface_resource surface)) [])
               else Inr p) of
           Inl e \<Rightarrow> Inl e
         | Inr p1 \<Rightarrow> Inr (True, insert_popup p1 surface)))"

text \<open>
  What can happen to a pointer: the grab callbacks that the seat calls on input, the
  requests to start grabs, and the destruction of a tracked popup surface.
\<close>

datatype pointer_op =
    Focus "surface_ref option"
  | Motion ClutterEvent
  | Button ClutterEvent
  | SetCurrent "surface_ref option"
  | BeginModal
  | EndModal
  | StartPopupGrabOn surface_ref
  | PopupSurfaceDestroy surface_ref

fun pointer_step :: "MetaWaylandPointer \<Rightarrow> pointer_op \<Rightarrow> crash + MetaWaylandPointer" where
  "pointer_step p (Focus surface) = grab_focus p surface"
| "pointer_step p (Motion event) = grab_motion p event"
| "pointer_step p (Button event) = grab_button p event"
| "pointer_step p (SetCurrent surface) = Inr (meta_wayland_pointer_set_current p surface)"
| "pointer_step p BeginModal = map_sum id snd (meta_wayland_pointer_begin_modal p)"
| "pointer_step p EndModal = meta_wayland_pointer_end_modal p"
| "pointer_step p (StartPopupGrabOn surface) =
     map_sum id snd (meta_wayland_pointer_start_popup_grab p surface)"
| "pointer_step p (PopupSurfaceDestroy surface) = on_popup_surface_destroy p surface"

fun pointer_run :: "MetaWaylandPointer \<Rightarrow> pointer_op list \<Rightarrow> crash + MetaWaylandPointer" where
  "pointer_run p [] = Inr p"
| "pointer_run p (op # ops) =
     (case pointer_step p op of
        Inl e \<Rightarrow> Inl e
      | Inr p1 \<Rightarrow> pointer_run p1 ops)"

text \<open>
  When a popup grab is active, the two events that end it: a button release with no
  button held and no focus resource, and the destruction of the only tracked popup.
\<close>

definition popup_grab_ends :: "MetaWaylandPointer \<Rightarrow> pointer_op \<Rightarrow> bool" where
  "popup_grab_ends p op =
     (case op of
        Button event \<Rightarrow>
          event_type event = CLUTTER_BUTTON_RELEASE \<and> pointer_button_count p = 0 \<and>
          focus_resource p = None
      | PopupSurfaceDestroy popup \<Rightarrow>
          (case grab p of PopupGrab c ps \<Rightarrow> ps = [popup] | _ \<Rightarrow> False)
      | _ \<Rightarrow> False)"

text \<open>
  The state every change of focus leaves: a focus resource is only there together with a
  focus surface.
\<close>

definition focus_resource_has_surface :: "MetaWaylandPointer \<Rightarrow> bool" where
  "focus_resource_has_surface p = (focus_resource p \<noteq> None \<longrightarrow> focus p \<noteq> None)"

definition popup_done_all :: "surface_ref list \<Rightarrow> wl_message list" where
  "popup_done_all ps = map (\<lambda>popup. SendPopupDone (surface_resource popup)) ps"

text \<open>The values used in the examples below: two popups of client 1 and its pointer resource.\<close>

definition example_popup_a :: surface_ref where
  "example_popup_a = \<lparr>surface_resource = \<lparr>resource_id = 21, resource_client = 1\<rparr>\<rparr>"

definition example_popup_b :: surface_ref where
  "example_popup_b = \<lparr>surface_resource = \<lparr>resource_id = 22, resource_client = 1\<rparr>\<rparr>"

definition example_release :: ClutterEvent where
  "example_release = \<lparr>event_type = CLUTTER_BUTTON_RELEASE, event_button = 1, event_time = 1000\<rparr>"

definition example_pointer_resource :: wl_resource where
  "example_pointer_resource = \<lparr>resource_id = 30, resource_client = 1\<rparr>"

section \<open>Native input translation\<close>

text \<open>
  The seat of \<^verbatim>\<open>meta-seat-native.c\<close>. The array \<open>button_count\<close> is indexed by the evdev
  code of a key or button and holds C ints. \<open>touch_states\<close> is the array of
  \<open>n_alloc_touch_states\<close> pointers: a list, whose length is the allocated size. The
  scroll accumulators are floats fed with doubles: a float or a double is the real number
  it stands for, and every operation that rounds is followed by its rounding. Time stamps, coordinates and the scroll source are carried through
  to the events unchanged and are left out.
\<close>

record MetaTouchState =
  seat_slot :: nat
  device_slot :: int

datatype ClutterInputDeviceType =
  CLUTTER_POINTER_DEVICE | CLUTTER_KEYBOARD_DEVICE | CLUTTER_TOUCHSCREEN_DEVICE | CLUTTER_TABLET_DEVICE

text \<open>
  An input device: its stage (or \<^verbatim>\<open>NULL\<close>), its type, and for a tablet tool in use the
  tool's button map (button number to event code; an unmapped button gives 0).
\<close>

record ClutterInputDevice =
  device_stage :: "nat option"
  device_type :: ClutterInputDeviceType
  last_tool :: "(int \<times> 32 word) list option"

datatype ClutterScrollDirection =
  CLUTTER_SCROLL_UP | CLUTTER_SCROLL_DOWN | CLUTTER_SCROLL_LEFT | CLUTTER_SCROLL_RIGHT |
  CLUTTER_SCROLL_SMOOTH

text \<open>
  The events pushed on Clutter's queue: a button event (press or release, button number,
  event code, modifier state), a smooth scroll event (deltas, finish flags, emulated) and
  a discrete scroll event (direction, emulated).
\<close>

datatype queued_event =
    ButtonEvent ClutterEventType int "32 word" "32 word"
  | SmoothScrollEvent real real "32 word" bool
  | DiscreteScrollEvent ClutterScrollDirection bool

record MetaSeatNative =
  button_count :: "32 word \<Rightarrow> int"
  button_state :: "32 word"
  touch_states :: "MetaTouchState option list"
  accum_scroll_dx :: real
  accum_scroll_dy :: real
  event_queue :: "queued_event list"

definition n_alloc_touch_states :: "MetaSeatNative \<Rightarrow> nat" where
  "n_alloc_touch_states seat = length (touch_states seat)"

text \<open>\<^verbatim>\<open>meta_seat_native_new\<close> allocates the seat zeroed.\<close>

definition meta_seat_native_new :: MetaSeatNative where
  "meta_seat_native_new =
     \<lparr>button_count = (\<lambda>b. 0), button_state = 0, touch_states = [],
      accum_scroll_dx = 0, accum_scroll_dy = 0, event_queue = []\<rparr>"

definition queue_event :: "MetaSeatNative \<Rightarrow> queued_event \<Rightarrow> MetaSeatNative" where
  "queue_event seat event = seat\<lparr>event_queue := event_queue seat @ [event]\<rparr>"

subsection \<open>Touch slots\<close>

definition ensure_seat_slot_allocated :: "MetaSeatNative \<Rightarrow> nat \<Rightarrow> MetaSeatNative" where
  "ensure_seat_slot_allocated seat slot =
     (if slot \<ge> n_alloc_touch_states seat
      then seat\<lparr>touch_states := touch_states seat @ replicate 5 None\<rparr>
      else seat)"

text \<open>
  The scan \<^verbatim>\<open>for (seat_slot = 0; seat_slot < n_alloc; seat_slot++) if (!touch_states[seat_slot]) break;\<close>
  ends at the first \<^verbatim>\<open>NULL\<close> entry, or at \<open>n_alloc\<close> when there is none.
\<close>

fun first_free_slot :: "MetaTouchState option list \<Rightarrow> nat" where
  "first_free_slot [] = 0"
| "first_free_slot (t # ts) = (if t = None then 0 else Suc (first_free_slot ts))"

definition meta_seat_native_acquire_touch_state ::
  "MetaSeatNative \<Rightarrow> int \<Rightarrow> MetaTouchState \<times> MetaSeatNative" where
  "meta_seat_native_acquire_touch_state seat dslot =
     (let slot = first_free_slot (touch_states seat);
          seat1 = ensure_seat_slot_allocated seat slot;
          touch_state = \<lparr>seat_slot = slot, device_slot = dslot\<rparr>
      in (touch_state, seat1\<lparr>touch_states := (touch_states seat1)[slot := Some touch_state]\<rparr>))"

definition meta_seat_native_release_touch_state ::
  "MetaSeatNative \<Rightarrow> MetaTouchState \<Rightarrow> MetaSeatNative" where
  "meta_seat_native_release_touch_state seat touch_state =
     seat\<lparr>touch_states := (touch_states seat)[seat_slot touch_state := None]\<rparr>"

text \<open>
  Touches beginning (with the device's slot) and ending (the live touch of a seat slot is
  released; there is nothing to release for a slot with no live touch).
\<close>

datatype touch_op = TouchBegin int | TouchEnd nat

fun touch_step :: "MetaSeatNative \<Rightarrow> touch_op \<Rightarrow> MetaSeatNative" where
  "touch_step seat (TouchBegin dslot) = snd (meta_seat_native_acquire_touch_state seat dslot)"
| "touch_step seat (TouchEnd slot) =
     (if slot < n_alloc_touch_states seat then
        (case touch_states seat ! slot of
           None \<Rightarrow> seat
         | Some touch_state \<Rightarrow> meta_seat_native_release_touch_state seat touch_state)
      else seat)"

definition live_touches :: "MetaSeatNative \<Rightarrow> MetaTouchState list" where
  "live_touches seat = List.map_filter id (touch_states seat)"

text \<open>The entry at index \<open>i\<close> of the table, when there is one, is the touch of seat slot \<open>i\<close>.\<close>

definition slots_consistent :: "MetaSeatNative \<Rightarrow> bool" where
  "slots_consistent seat =
     (\<forall>i<length (touch_states seat). \<forall>t. touch_states seat ! i = Some t \<longrightarrow> seat_slot t = i)"

subsection \<open>Button counting\<close>

text \<open>
  The counters are C ints. \<^verbatim>\<open>++\<close> and \<^verbatim>\<open>--\<close> on an int wrap around in two's complement,
  from \<^verbatim>\<open>INT_MAX\<close> to \<^verbatim>\<open>INT_MIN\<close> and back.
\<close>

definition INT_MAX :: int where "INT_MAX = 2147483647"

definition wrap_int :: "int \<Rightarrow> int" where
  "wrap_int x = (x + 2147483648) mod 4294967296 - 2147483648"

definition update_button_count ::
  "MetaSeatNative \<Rightarrow> 32 word \<Rightarrow> 32 word \<Rightarrow> int \<times> MetaSeatNative" where
  "update_button_count seat button state =
     (if state \<noteq> 0 then
        (wrap_int (button_count seat button + 1),
         seat\<lparr>button_count := (button_count seat)(button := wrap_int (button_count seat button + 1))\<rparr>)
      else if button_count seat button = 0 then (0, seat)
      else
        (wrap_int (button_count seat button - 1),
         seat\<lparr>button_count := (button_count seat)(button := wrap_int (button_count seat button - 1))\<rparr>))"

definition BTN_TOOL_PEN :: "32 word" where "BTN_TOOL_PEN = 0x140"
definition BTN_STYLUS3 :: "32 word" where "BTN_STYLUS3 = 0x149"
definition BTN_TOUCH :: "32 word" where "BTN_TOUCH = 0x14a"
definition BTN_STYLUS :: "32 word" where "BTN_STYLUS = 0x14b"
definition BTN_STYLUS2 :: "32 word" where "BTN_STYLUS2 = 0x14c"

definition CLUTTER_BUTTON_PRIMARY :: int where "CLUTTER_BUTTON_PRIMARY = 1"
definition CLUTTER_BUTTON_MIDDLE :: int where "CLUTTER_BUTTON_MIDDLE = 2"
definition CLUTTER_BUTTON_SECONDARY :: int where "CLUTTER_BUTTON_SECONDARY = 3"

text \<open>
  \<open>maskmap\<close>: the modifier masks \<^verbatim>\<open>CLUTTER_BUTTON1_MASK\<close> (bit 8), \<^verbatim>\<open>BUTTON3\<close> (bit 10),
  \<^verbatim>\<open>BUTTON2\<close> (bit 9), \<^verbatim>\<open>BUTTON4\<close> (bit 11), \<^verbatim>\<open>BUTTON5\<close> (bit 12), then zeros.
\<close>

definition maskmap :: "32 word list" where
  "maskmap = [push_bit 8 1, push_bit 10 1, push_bit 9 1, push_bit 11 1, push_bit 12 1, 0, 0, 0]"

text \<open>
  The button number of an evdev code. The subtraction in the default case is done on
  unsigned 32-bit values and the result is stored in an int.
\<close>

definition button_number :: "ClutterInputDevice \<Rightarrow> 32 word \<Rightarrow> int" where
  "button_number input_device button =
     (if button = BTN_LEFT \<or> button = BTN_TOUCH then CLUTTER_BUTTON_PRIMARY
      else if button = BTN_RIGHT \<or> button = BTN_STYLUS then CLUTTER_BUTTON_SECONDARY
      else if button = BTN_MIDDLE \<or> button = BTN_STYLUS2 then CLUTTER_BUTTON_MIDDLE
      else if button = 0x149 then 8
      else if device_type input_device = CLUTTER_TABLET_DEVICE
           then sint (button - BTN_TOOL_PEN + 4)
           else sint (button - (BTN_LEFT - 1) + 4))"

definition meta_seat_native_notify_button ::
  "MetaSeatNative \<Rightarrow> ClutterInputDevice \<Rightarrow> 32 word \<Rightarrow> 32 word \<Rightarrow> MetaSeatNative" where
  "meta_seat_native_notify_button seat0 input_device button state =
     (let (count, seat) = update_button_count seat0 button state
      in if state \<noteq> 0 \<and> count > 1 then seat
         else if state = 0 \<and> count \<noteq> 0 then seat
         else if device_stage input_device = None then seat
         else
           (let button_nr = button_number input_device button
            in if button_nr < 1 \<or> button_nr > 12 then seat
               else
                 (let seat1 = (if button_nr < 8 then
                                 (if state \<noteq> 0
                                  then seat\<lparr>button_state :=
                                         button_state seat OR maskmap ! nat (button_nr - 1)\<rparr>
                                  else seat\<lparr>button_state :=
                                         button_state seat AND NOT (maskmap ! nat (button_nr - 1))\<rparr>)
                               else seat);
                      code = (case last_tool input_device of
                                None \<Rightarrow> button
                              | Some tool \<Rightarrow>
                                  (case map_of tool button_nr of
                                     None \<Rightarrow> button
                                   | Some mapped \<Rightarrow> if mapped \<noteq> 0 then mapped else button))
                  in queue_event seat1
                       (ButtonEvent (if state \<noteq> 0 then CLUTTER_BUTTON_PRESS
                                     else CLUTTER_BUTTON_RELEASE)
                          button_nr code (button_state seat1)))))"

text \<open>
  What lies between the counting gate and the queue: the device has a stage and the
  button number of the code is one of 1 to 12.
\<close>

definition button_forwarded :: "ClutterInputDevice \<Rightarrow> 32 word \<Rightarrow> bool" where
  "button_forwarded input_device button =
     (device_stage input_device \<noteq> None \<and>
      1 \<le> button_number input_device button \<and> button_number input_device button \<le> 12)"

text \<open>
  Reports of one button code in one state, one from each device of a list, in order.
\<close>

definition notify_button_from ::
  "ClutterInputDevice list \<Rightarrow> 32 word \<Rightarrow> 32 word \<Rightarrow> MetaSeatNative \<Rightarrow> MetaSeatNative" where
  "notify_button_from devices button state seat =
     fold (\<lambda>input_device s. meta_seat_native_notify_button s input_device button state)
       devices seat"

text \<open>Any run of button reports: each names its device, the button code and the state.\<close>

fun button_reports ::
  "MetaSeatNative \<Rightarrow> (ClutterInputDevice \<times> 32 word \<times> 32 word) list \<Rightarrow> MetaSeatNative" where
  "button_reports seat [] = seat"
| "button_reports seat ((input_device, button, state) # reports) =
     button_reports (meta_seat_native_notify_button seat input_device button state) reports"

subsection \<open>Floats and doubles\<close>

text \<open>
  Rounding to the nearest integer, a tie going to the even one.
\<close>

definition round_to_even :: "real \<Rightarrow> int" where
  "round_to_even y =
     (let f = \<lfloor>y\<rfloor>; r = y - of_int f
      in if r < 1 / 2 then f
         else if 1 / 2 < r then f + 1
         else if even f then f else f + 1)"

text \<open>
  The exponent of a positive number: \<open>ilog2 x\<close> is the integer \<open>e\<close> with
  \<open>2 powi e \<le> x < 2 powi (e + 1)\<close>.
\<close>

definition ilog2 :: "real \<Rightarrow> int" where
  "ilog2 x = (if 1 \<le> x then bitlen \<lfloor>x\<rfloor> - 1 else - bitlen (\<lceil>1 / x\<rceil> - 1))"

text \<open>
  The binary floating-point number with a significand of \<open>p\<close> bits and exponents from
  \<open>emin\<close> that is nearest to \<open>x\<close>, a tie going to the even significand (the IEEE 754
  default). Below \<open>2 powi emin\<close> the spacing is that of the subnormal numbers. The largest
  exponent is not looked at: a result beyond the largest finite number stands for the
  infinity that C computes there.
\<close>

definition ieee_round :: "nat \<Rightarrow> int \<Rightarrow> real \<Rightarrow> real" where
  "ieee_round p emin x =
     (if x = 0 then 0
      else let e = max (ilog2 \<bar>x\<bar>) emin;
               u = 2 powi (e - (int p - 1))
           in of_int (round_to_even (x / u)) * u)"

definition to_double :: "real \<Rightarrow> real" where
  "to_double x = ieee_round 53 (- 1022) x"

definition to_float :: "real \<Rightarrow> real" where
  "to_float x = ieee_round 24 (- 126) x"

subsection \<open>Scroll\<close>

definition DISCRETE_SCROLL_STEP :: real where
  "DISCRETE_SCROLL_STEP = 10"

definition CLUTTER_SCROLL_FINISHED_NONE :: "32 word" where "CLUTTER_SCROLL_FINISHED_NONE = 0"
definition CLUTTER_SCROLL_FINISHED_HORIZONTAL :: "32 word" where "CLUTTER_SCROLL_FINISHED_HORIZONTAL = 1"
definition CLUTTER_SCROLL_FINISHED_VERTICAL :: "32 word" where "CLUTTER_SCROLL_FINISHED_VERTICAL = 2"

text \<open>
  \<^verbatim>\<open>fmodf (x, y)\<close> is \<open>x - n * y\<close> for the quotient \<open>x / y\<close> truncated towards zero to
  \<open>n\<close>: the result has the sign of \<open>x\<close>. It is a float whenever \<open>x\<close> and \<open>y\<close> are: \<^verbatim>\<open>fmodf\<close>
  does not round.
\<close>

definition fmodf :: "real \<Rightarrow> real \<Rightarrow> real" where
  "fmodf x y = x - y * of_int (if x / y \<ge> 0 then \<lfloor>x / y\<rfloor> else \<lceil>x / y\<rceil>)"

text \<open>
  \<^verbatim>\<open>accum += d\<close> on a float accumulator and a double \<open>d\<close>: the sum is computed in double
  and stored as a float.
\<close>

definition accumulate :: "real \<Rightarrow> real \<Rightarrow> real" where
  "accumulate accum d = to_float (to_double (accum + d))"

text \<open>
  \<^verbatim>\<open>floor (fabs (accum) / DISCRETE_SCROLL_STEP)\<close>: the division is a double division. The
  value is stored in an int, and the conversion of a double that is out of the range of
  int is undefined.
\<close>

definition n_scrolls :: "real \<Rightarrow> int" where
  "n_scrolls accum = \<lfloor>to_double (\<bar>accum\<bar> / DISCRETE_SCROLL_STEP)\<rfloor>"

definition notify_scroll ::
  "MetaSeatNative \<Rightarrow> ClutterInputDevice \<Rightarrow> real \<Rightarrow> real \<Rightarrow> 32 word \<Rightarrow> bool \<Rightarrow> MetaSeatNative" where
  "notify_scroll seat input_device sdx sdy flags emulated =
     (if device_stage input_device = None then seat
      else let scroll_factor = to_double (1 / DISCRETE_SCROLL_STEP)
           in queue_event seat
                (SmoothScrollEvent (to_double (scroll_factor * sdx)) (to_double (scroll_factor * sdy))
                   flags emulated))"

definition notify_discrete_scroll ::
  "ClutterInputDevice \<Rightarrow> ClutterScrollDirection \<Rightarrow> bool \<Rightarrow> MetaSeatNative \<Rightarrow> MetaSeatNative" where
  "notify_discrete_scroll input_device direction emulated seat =
     (if direction = CLUTTER_SCROLL_SMOOTH then seat
      else if device_stage input_device = None then seat
      else queue_event seat (DiscreteScrollEvent direction emulated))"

text \<open>
  \<open>None\<close> is the undefined conversion of a step count to int.
\<close>

definition check_notify_discrete_scroll ::
  "MetaSeatNative \<Rightarrow> ClutterInputDevice \<Rightarrow> MetaSeatNative option" where
  "check_notify_discrete_scroll seat device =
     (let n_xscrolls = n_scrolls (accum_scroll_dx seat);
          n_yscrolls = n_scrolls (accum_scroll_dy seat)
      in if INT_MAX < n_xscrolls \<or> INT_MAX < n_yscrolls then None
         else
           (let seat1 = (notify_discrete_scroll device
                           (if accum_scroll_dx seat > 0 then CLUTTER_SCROLL_RIGHT
                            else CLUTTER_SCROLL_LEFT)
                           True ^^ nat n_xscrolls) seat;
                seat2 = (notify_discrete_scroll device
                           (if accum_scroll_dy seat > 0 then CLUTTER_SCROLL_DOWN
                            else CLUTTER_SCROLL_UP)
                           True ^^ nat n_yscrolls) seat1
            in Some (seat2\<lparr>accum_scroll_dx := fmodf (accum_scroll_dx seat2) DISCRETE_SCROLL_STEP,
                           accum_scroll_dy := fmodf (accum_scroll_dy seat2) DISCRETE_SCROLL_STEP\<rparr>)))"

text \<open>The deltas \<open>sdx\<close> and \<open>sdy\<close> are doubles.\<close>

definition meta_seat_native_notify_scroll_continuous ::
  "MetaSeatNative \<Rightarrow> ClutterInputDevice \<Rightarrow> real \<Rightarrow> real \<Rightarrow> 32 word \<Rightarrow> MetaSeatNative option" where
  "meta_seat_native_notify_scroll_continuous seat input_device sdx sdy finish_flags =
     (let seat1 = (if finish_flags AND CLUTTER_SCROLL_FINISHED_HORIZONTAL \<noteq> 0
                   then seat\<lparr>accum_scroll_dx := 0\<rparr>
                   else seat\<lparr>accum_scroll_dx := accumulate (accum_scroll_dx seat) sdx\<rparr>);
          seat2 = (if finish_flags AND CLUTTER_SCROLL_FINISHED_VERTICAL \<noteq> 0
                   then seat1\<lparr>accum_scroll_dy := 0\<rparr>
                   else seat1\<lparr>accum_scroll_dy := accumulate (accum_scroll_dy seat1) sdy\<rparr>);
          seat3 = notify_scroll seat2 input_device sdx sdy finish_flags False
      in check_notify_discrete_scroll seat3 input_device)"

text \<open>
  A run of continuous scroll reports, none with a finish flag, each with its two deltas,
  and the discrete events of given directions in the queue.
\<close>

fun scroll_continuous ::
  "MetaSeatNative \<Rightarrow> ClutterInputDevice \<Rightarrow> (real \<times> real) list \<Rightarrow> MetaSeatNative option" where
  "scroll_continuous seat input_device [] = Some seat"
| "scroll_continuous seat input_device ((sdx, sdy) # deltas) =
     (case meta_seat_native_notify_scroll_continuous seat input_device sdx sdy
             CLUTTER_SCROLL_FINISHED_NONE of
        None \<Rightarrow> None
      | Some seat1 \<Rightarrow> scroll_continuous seat1 input_device deltas)"

definition discrete_events :: "ClutterScrollDirection list \<Rightarrow> MetaSeatNative \<Rightarrow> queued_event list" where
  "discrete_events directions seat =
     filter (\<lambda>e. case e of
                   DiscreteScrollEvent direction emulated \<Rightarrow> direction \<in> set directions
                 | _ \<Rightarrow> False)
       (event_queue seat)"

definition horizontal :: "ClutterScrollDirection list" where
  "horizontal = [CLUTTER_SCROLL_LEFT, CLUTTER_SCROLL_RIGHT]"

definition vertical :: "ClutterScrollDirection list" where
  "vertical = [CLUTTER_SCROLL_UP, CLUTTER_SCROLL_DOWN]"

text \<open>
  Deltas and accumulators on which the float arithmetic is exact: multiples of 1/1024,
  the deltas of magnitude 8192 at most, the accumulator of magnitude below 10 as
  \<^verbatim>\<open>fmodf\<close> leaves it. And the deltas of one axis pointing in one direction, that of the
  accumulator.
\<close>

definition on_grid :: "real \<Rightarrow> bool" where
  "on_grid x = (of_int \<lfloor>x * 1024\<rfloor> = x * 1024)"

definition exact_delta :: "real \<Rightarrow> bool" where
  "exact_delta d = (on_grid d \<and> \<bar>d\<bar> \<le> 8192)"

definition exact_residue :: "real \<Rightarrow> bool" where
  "exact_residue a = (on_grid a \<and> \<bar>a\<bar> < 10)"

definition same_direction :: "real \<Rightarrow> real list \<Rightarrow> bool" where
  "same_direction a ds =
     ((0 \<le> a \<and> list_all (\<lambda>d. 0 \<le> d) ds) \<or> (a \<le> 0 \<and> list_all (\<lambda>d. d \<le> 0) ds))"

text \<open>The devices used in the examples below.\<close>

definition example_mouse :: ClutterInputDevice where
  "example_mouse = \<lparr>device_stage = Some 1, device_type = CLUTTER_POINTER_DEVICE, last_tool = None\<rparr>"

definition example_unstaged_mouse :: ClutterInputDevice where
  "example_unstaged_mouse =
     \<lparr>device_stage = None, device_type = CLUTTER_POINTER_DEVICE, last_tool = None\<rparr>"

definition example_virtual_mouse :: ClutterInputDevice where
  "example_virtual_mouse =
     \<lparr>device_stage = Some 1, device_type = CLUTTER_POINTER_DEVICE, last_tool = None\<rparr>"

section \<open>Properties of the surface state machine\<close>

lemma empty_region_Nil: "empty_region region = []"
proof -
  have "rectangle_is_empty
          (rectangle_intersect a \<lparr>rect_x = 0, rect_y = 0, rect_width = 0, rect_height = 0\<rparr>)" for a
    by (simp add: rectangle_intersect_def rectangle_is_empty_def Let_def min_def max_def)
  then show ?thesis
    by (simp add: empty_region_def cairo_region_intersect_rectangle_def)
qed

text \<open>The role hooks that run first in a commit read the pending state and leave it alone.\<close>

lemma cursor_commit_pending: "pending (snd (cursor_surface_commit (c, s))) = pending s"
  by (simp add: cursor_surface_commit_def Let_def)

lemma actor_commit_pending: "pending (snd (snd (actor_surface_commit (c, s)))) = pending s"
  by (simp add: actor_surface_commit_def Let_def)

lemma toplevel_commit_pending: "pending (snd (toplevel_surface_commit (c, s))) = pending s"
  using actor_commit_pending [of c s]
  by (auto simp: toplevel_surface_commit_def Let_def split: prod.splits bool.splits option.splits)

lemma subsurface_commit_pending: "pending (snd (subsurface_surface_commit (c, s))) = pending s"
  using actor_commit_pending [of c s]
  by (auto simp: subsurface_surface_commit_def Let_def split: prod.splits bool.splits)

lemma commit_pending:
  "\<exists>s'. snd (meta_wayland_surface_commit (c, Some s)) = Some s' \<and>
        pending s' = \<lparr>newly_attached = False, buffer = None, dx = 0, dy = 0, damage = [],
                      input_region = None, opaque_region = None, frame_callback_list = []\<rparr>"
  using cursor_commit_pending [of "add_calls [SurfaceActorCommit] c" s]
        toplevel_commit_pending [of "add_calls [SurfaceActorCommit] c" s]
        subsurface_commit_pending [of "add_calls [SurfaceActorCommit] c" s]
  by (auto simp: meta_wayland_surface_commit_def Let_def empty_region_Nil split: prod.splits)

lemma handle_request_Some:
  "\<exists>c' s'. handle_request (c, Some s) r = (c', Some s')"
proof (cases r)
  case Commit
  obtain c' so where e: "meta_wayland_surface_commit (c, Some s) = (c', so)"
    by (cases "meta_wayland_surface_commit (c, Some s)")
  with commit_pending [of c s] Commit show ?thesis by auto
qed (simp_all add: meta_wayland_surface_attach_def meta_wayland_surface_damage_def
        meta_wayland_surface_frame_def meta_wayland_surface_set_opaque_region_def
        meta_wayland_surface_set_input_region_def surface_handle_pending_buffer_destroy_def)

lemma handle_requests_Some:
  "\<exists>c' s'. handle_requests (c, Some s) rs = (c', Some s')"
proof (induction rs arbitrary: c s)
  case Nil
  then show ?case by (simp add: handle_requests_def)
next
  case (Cons r rs)
  obtain c1 s1 where "handle_request (c, Some s) r = (c1, Some s1)"
    using handle_request_Some by blast
  with Cons [of c1 s1] show ?case by (simp add: handle_requests_def)
qed

text \<open>
  Claim C1. Whatever requests a client has sent on a surface (attach, damage, frame, region
  requests, earlier commits, with pending buffers destroyed in between), right after a commit the surface is still there, its pending
  damage region is empty, its pending \<open>newly_attached\<close> flag is false, its pending buffer
  reference is \<^verbatim>\<open>NULL\<close>, and the pending attach offset is (0, 0).
\<close>

theorem commit_resets_pending:
  "\<exists>s'. snd (handle_requests (c, Some s) (rs @ [Commit])) = Some s' \<and>
        damage (pending s') = [] \<and> \<not> newly_attached (pending s') \<and>
        buffer (pending s') = None \<and> dx (pending s') = 0 \<and> dy (pending s') = 0"
proof -
  obtain c1 s1 where h: "handle_requests (c, Some s) rs = (c1, Some s1)"
    using handle_requests_Some by blast
  have "handle_requests (c, Some s) (rs @ [Commit]) = meta_wayland_surface_commit (c1, Some s1)"
    using h by (simp add: handle_requests_def)
  with commit_pending [of c1 s1] show ?thesis by auto
qed

text \<open>
  C1 at a concrete session: a fresh surface, a 64x64 buffer attached at offset (3, 4), the
  full rectangle damaged, then commit.
\<close>

theorem commit_resets_pending_witness:
  "\<exists>s'. snd (handle_requests (compositor_init, Some (meta_wayland_surface_create 1))
             ([Attach (Some example_buffer) 3 4, Damage 0 0 64 64] @ [Commit])) = Some s' \<and>
        damage (pending s') = [] \<and> \<not> newly_attached (pending s') \<and>
        buffer (pending s') = None \<and> dx (pending s') = 0 \<and> dy (pending s') = 0"
  using commit_resets_pending
    [of compositor_init "meta_wayland_surface_create 1"
        "[Attach (Some example_buffer) 3 4, Damage 0 0 64 64]"]
  by simp

text \<open>
  Claim C2 says that a commit leaves the pending opaque and input regions as they were.
  The commit clears both: on a fresh surface with both regions set to one 64x64 rectangle,
  the regions are pending before the commit and \<^verbatim>\<open>NULL\<close> after it.
\<close>

theorem commit_keeps_regions_counterexample:
  "pending_regions
     (handle_requests (compositor_init, Some (meta_wayland_surface_create 1))
        [SetOpaque (Some [example_rect]), SetInput (Some [example_rect])])
   = Some (Some [example_rect], Some [example_rect]) \<and>
   pending_regions
     (handle_requests (compositor_init, Some (meta_wayland_surface_create 1))
        [SetOpaque (Some [example_rect]), SetInput (Some [example_rect]), Commit])
   = Some (None, None)"
  by (simp add: pending_regions_def handle_requests_def meta_wayland_surface_create_def
      compositor_init_def meta_wayland_surface_set_opaque_region_def
      meta_wayland_surface_set_input_region_def meta_wayland_surface_commit_def add_calls_def
      Let_def empty_region_Nil)

text \<open>
  Claim C2, amended. A commit resets the pending opaque region and the pending input region
  to \<^verbatim>\<open>NULL\<close>, as it resets the damage and the buffer-attach state. Between commits,
  \<open>set_opaque_region\<close> and \<open>set_input_region\<close> replace their own region and leave the
  other one, and attach, damage and frame requests (and the destruction of the pending
  buffer) leave both regions as they are.
\<close>

theorem commit_clears_regions:
  "(\<exists>s'. snd (meta_wayland_surface_commit (c, Some s)) = Some s' \<and>
         opaque_region (pending s') = None \<and> input_region (pending s') = None) \<and>
   (\<exists>s'. meta_wayland_surface_set_opaque_region (Some s) r = Some s' \<and>
         opaque_region (pending s') = r \<and> input_region (pending s') = input_region (pending s)) \<and>
   (\<exists>s'. meta_wayland_surface_set_input_region (Some s) r = Some s' \<and>
         input_region (pending s') = r \<and> opaque_region (pending s') = opaque_region (pending s)) \<and>
   (q = Attach b x y \<or> q = Damage x y w h \<or> q = Frame i \<or> q = PendingBufferDestroy \<longrightarrow>
      (\<exists>s'. snd (handle_request (c, Some s) q) = Some s' \<and>
            opaque_region (pending s') = opaque_region (pending s) \<and>
            input_region (pending s') = input_region (pending s)))"
proof -
  have 1: "\<exists>s'. snd (meta_wayland_surface_commit (c, Some s)) = Some s' \<and>
         opaque_region (pending s') = None \<and> input_region (pending s') = None"
    using commit_pending [of c s] by auto
  have 2: "q = Attach b x y \<or> q = Damage x y w h \<or> q = Frame i \<or> q = PendingBufferDestroy \<longrightarrow>
      (\<exists>s'. snd (handle_request (c, Some s) q) = Some s' \<and>
            opaque_region (pending s') = opaque_region (pending s) \<and>
            input_region (pending s') = input_region (pending s))"
    by (auto simp: meta_wayland_surface_attach_def meta_wayland_surface_damage_def
        meta_wayland_surface_frame_def surface_handle_pending_buffer_destroy_def)
  show ?thesis
    using 1 2
    by (simp add: meta_wayland_surface_set_opaque_region_def
        meta_wayland_surface_set_input_region_def)
qed

text \<open>
  The amended C2 on a surface whose opaque region was set to one rectangle: a damage
  request keeps the region, the commit clears it.
\<close>

theorem commit_clears_regions_witness:
  "(\<exists>s'. snd (meta_wayland_surface_commit
              (compositor_init,
               meta_wayland_surface_set_opaque_region (Some (meta_wayland_surface_create 1))
                 (Some [example_rect]))) = Some s' \<and>
         opaque_region (pending s') = None \<and> input_region (pending s') = None) \<and>
   (\<exists>s'. snd (handle_request
              (compositor_init,
               meta_wayland_surface_set_opaque_region (Some (meta_wayland_surface_create 1))
                 (Some [example_rect])) (Damage 0 0 64 64)) = Some s' \<and>
         opaque_region (pending s') = Some [example_rect] \<and> input_region (pending s') = None)"
proof -
  define s where "s = (meta_wayland_surface_create 1)\<lparr>pending :=
     (pending (meta_wayland_surface_create 1))\<lparr>opaque_region := Some [example_rect]\<rparr>\<rparr>"
  have e: "meta_wayland_surface_set_opaque_region (Some (meta_wayland_surface_create 1))
             (Some [example_rect]) = Some s"
    by (simp add: s_def meta_wayland_surface_set_opaque_region_def)
  have o: "opaque_region (pending s) = Some [example_rect]" "input_region (pending s) = None"
    by (simp_all add: s_def meta_wayland_surface_create_def)
  show ?thesis
    unfolding e
    using commit_clears_regions
      [where c = compositor_init and s = s and q = "Damage 0 0 64 64" and x = 0 and y = 0
         and w = 64 and h = 64]
    by (simp add: o)
qed




section \<open>Properties of the pointer\<close>

text \<open>What setting the focus leaves alone, and what it sets.\<close>

lemma set_focus_keeps:
  assumes "meta_wayland_pointer_set_focus p surface = Inr p'"
  shows "grab p' = grab p" and "current p' = current p"
    and "pointer_button_count p' = pointer_button_count p"
    and "resource_list p' = resource_list p"
    and "\<exists>rest. sent p' = sent p @ rest"
    and "focus p' = surface"
    and "focus_resource p' = find_resource_for_surface (resource_list p) surface"
  using assms
  by (auto simp: meta_wayland_pointer_set_focus_def Let_def
      split: option.splits if_splits sum.splits prod.splits)

lemma set_focus_None_total:
  "\<exists>p'. meta_wayland_pointer_set_focus p None = Inr p'"
  by (auto simp: meta_wayland_pointer_set_focus_def Let_def find_resource_for_surface_def
      split: option.splits)

lemma set_focus_no_resource_total:
  "focus_resource p = None \<Longrightarrow> \<exists>p'. meta_wayland_pointer_set_focus p surface = Inr p'"
  by (auto simp: meta_wayland_pointer_set_focus_def Let_def split: option.splits)

lemma default_grab_focus_keeps:
  assumes "default_grab_focus p surface = Inr p'"
  shows "grab p' = grab p" and "\<exists>rest. sent p' = sent p @ rest"
  using assms set_focus_keeps(1,5) [of p surface p']
  by (auto simp: default_grab_focus_def split: if_splits)

lemma default_grab_motion_keeps:
  assumes "default_grab_motion p event = Inr p'"
  shows "grab p' = grab p"
  using assms by (auto simp: default_grab_motion_def split: option.splits)

lemma default_grab_button_keeps:
  assumes "default_grab_button p event = Inr p'"
  shows "grab p' = grab p"
proof (cases "focus_resource p")
  case None
  then show ?thesis
    using assms set_focus_keeps(1) [of p "current p" p']
    by (auto simp: default_grab_button_def Let_def split: if_splits)
next
  case (Some res)
  define p1 where "p1 = p\<lparr>display_serial := display_serial p + 1,
       sent := sent p @ [SendButton res (display_serial p + 1) (event_time event)
          (if event_button event = 2 then BTN_MIDDLE
           else if event_button event = 3 then BTN_RIGHT
           else event_button event + BTN_LEFT - 1)
          (if event_type event = CLUTTER_BUTTON_PRESS then 1 else 0)]\<rparr>"
  have g: "grab p1 = grab p" by (simp add: p1_def)
  have "default_grab_button p event =
          (if pointer_button_count p1 = 0 \<and> event_type event = CLUTTER_BUTTON_RELEASE
           then meta_wayland_pointer_set_focus p1 (current p1) else Inr p1)"
    using Some by (simp add: default_grab_button_def Let_def p1_def)
  then show ?thesis
    using assms g set_focus_keeps(1) [of p1 "current p1" p']
    by (auto split: if_splits)
qed

lemma end_grab_default:
  assumes "meta_wayland_pointer_end_grab p = Inr p'"
  shows "grab p' = DefaultGrab" and "\<exists>rest. sent p' = sent p @ rest"
  using assms default_grab_focus_keeps [of "p\<lparr>grab := DefaultGrab\<rparr>" "current p" p']
  by (auto simp: meta_wayland_pointer_end_grab_def Let_def)

lemma end_popup_grab_default:
  assumes "grab p = PopupGrab c ps" and "meta_wayland_pointer_end_popup_grab p = Inr p'"
  shows "grab p' = DefaultGrab"
    and "\<exists>rest. sent p' = sent p @ map (\<lambda>popup. SendPopupDone (surface_resource popup)) ps @ rest"
  using assms
    end_grab_default [of "p\<lparr>sent := sent p @ map (\<lambda>popup. SendPopupDone (surface_resource popup)) ps,
               grab := PopupGrab c []\<rparr>" p']
  by (auto simp: meta_wayland_pointer_end_popup_grab_def)

lemma end_popup_grab_total:
  assumes "grab p = PopupGrab c ps" and "focus_resource p = None"
  shows "\<exists>p'. meta_wayland_pointer_end_popup_grab p = Inr p'"
  using assms
    set_focus_no_resource_total [of "p\<lparr>sent := sent p @ map (\<lambda>popup. SendPopupDone (surface_resource popup)) ps,
               grab := DefaultGrab\<rparr>" "current p"]
  by (auto simp: meta_wayland_pointer_end_popup_grab_def meta_wayland_pointer_end_grab_def
      default_grab_focus_def Let_def)

lemma set_focus_total:
  "focus_resource_has_surface p \<Longrightarrow> \<exists>p'. meta_wayland_pointer_set_focus p surface = Inr p'"
  by (auto simp: focus_resource_has_surface_def meta_wayland_pointer_set_focus_def Let_def
      split: option.splits)

lemma set_focus_invariant:
  assumes "meta_wayland_pointer_set_focus p surface = Inr p'"
  shows "focus_resource_has_surface p'"
  using set_focus_keeps(6,7) [OF assms]
  by (cases surface) (simp_all add: focus_resource_has_surface_def find_resource_for_surface_def)

lemma default_grab_focus_invariant:
  assumes "default_grab_focus p surface = Inr p'" and "focus_resource_has_surface p"
  shows "focus_resource_has_surface p'"
  using assms set_focus_invariant [of p surface p']
  by (auto simp: default_grab_focus_def split: if_splits)

lemma default_grab_motion_invariant:
  assumes "default_grab_motion p event = Inr p'" and "focus_resource_has_surface p"
  shows "focus_resource_has_surface p'"
  using assms
  by (auto simp: default_grab_motion_def focus_resource_has_surface_def split: option.splits)

lemma default_grab_button_invariant:
  assumes "default_grab_button p event = Inr p'" and "focus_resource_has_surface p"
  shows "focus_resource_has_surface p'"
proof (cases "focus_resource p")
  case None
  then show ?thesis
    using assms set_focus_invariant [of p "current p" p']
    by (auto simp: default_grab_button_def Let_def split: if_splits)
next
  case (Some res)
  define p1 where "p1 = p\<lparr>display_serial := display_serial p + 1,
       sent := sent p @ [SendButton res (display_serial p + 1) (event_time event)
          (if event_button event = 2 then BTN_MIDDLE
           else if event_button event = 3 then BTN_RIGHT
           else event_button event + BTN_LEFT - 1)
          (if event_type event = CLUTTER_BUTTON_PRESS then 1 else 0)]\<rparr>"
  have g: "focus_resource_has_surface p1"
    using assms(2) by (simp add: p1_def focus_resource_has_surface_def)
  have "default_grab_button p event =
          (if pointer_button_count p1 = 0 \<and> event_type event = CLUTTER_BUTTON_RELEASE
           then meta_wayland_pointer_set_focus p1 (current p1) else Inr p1)"
    using Some by (simp add: default_grab_button_def Let_def p1_def)
  then show ?thesis
    using assms(1) g set_focus_invariant [of p1 "current p1" p']
    by (auto split: if_splits)
qed

lemma end_grab_total:
  assumes "focus_resource_has_surface p"
  shows "\<exists>p'. meta_wayland_pointer_end_grab p = Inr p'"
proof -
  have "focus_resource_has_surface (p\<lparr>grab := DefaultGrab\<rparr>)"
    using assms by (simp add: focus_resource_has_surface_def)
  then show ?thesis
    using set_focus_total [of "p\<lparr>grab := DefaultGrab\<rparr>" "current p"]
    by (auto simp: meta_wayland_pointer_end_grab_def default_grab_focus_def Let_def)
qed

lemma end_grab_invariant:
  assumes "meta_wayland_pointer_end_grab p = Inr p'" and "focus_resource_has_surface p"
  shows "focus_resource_has_surface p'"
proof -
  have "focus_resource_has_surface (p\<lparr>grab := DefaultGrab\<rparr>)"
    using assms(2) by (simp add: focus_resource_has_surface_def)
  then show ?thesis
    using assms(1) default_grab_focus_invariant [of "p\<lparr>grab := DefaultGrab\<rparr>" "current p" p']
    by (simp add: meta_wayland_pointer_end_grab_def Let_def)
qed

lemma end_popup_grab_total_invariant:
  assumes "grab p = PopupGrab c ps" and "focus_resource_has_surface p"
  shows "\<exists>p'. meta_wayland_pointer_end_popup_grab p = Inr p'"
    and "meta_wayland_pointer_end_popup_grab p = Inr p' \<Longrightarrow> focus_resource_has_surface p'"
proof -
  define p1 where "p1 = p\<lparr>sent := sent p @ map (\<lambda>popup. SendPopupDone (surface_resource popup)) ps,
               grab := PopupGrab c []\<rparr>"
  have i: "focus_resource_has_surface p1"
    using assms(2) by (simp add: p1_def focus_resource_has_surface_def)
  have e: "meta_wayland_pointer_end_popup_grab p = meta_wayland_pointer_end_grab p1"
    using assms(1) by (simp add: meta_wayland_pointer_end_popup_grab_def p1_def)
  show "\<exists>p'. meta_wayland_pointer_end_popup_grab p = Inr p'"
    unfolding e using i by (rule end_grab_total)
  show "meta_wayland_pointer_end_popup_grab p = Inr p' \<Longrightarrow> focus_resource_has_surface p'"
    unfolding e using i by (rule end_grab_invariant [rotated])
qed

lemma remove1_Nil_iff: "x \<in> set xs \<Longrightarrow> (remove1 x xs = []) = (xs = [x])"
  by (cases xs) (auto split: if_splits)

lemmas pointer_defs =
  meta_wayland_pointer_init_def meta_wayland_pointer_set_focus_def find_resource_for_surface_def
  wl_resource_find_for_client_def default_grab_focus_def default_grab_motion_def
  default_grab_button_def meta_wayland_pointer_end_grab_def meta_wayland_pointer_set_current_def
  popup_grab_focus_def popup_grab_motion_def meta_wayland_pointer_end_popup_grab_def
  popup_grab_button_def on_popup_surface_destroy_def grab_focus_def grab_motion_def
  grab_button_def meta_wayland_pointer_start_grab_def meta_wayland_pointer_begin_modal_def
  meta_wayland_pointer_end_modal_def insert_popup_def meta_wayland_pointer_start_popup_grab_def
  example_popup_a_def example_popup_b_def example_release_def example_pointer_resource_def
  Let_def

text \<open>
  Claim C4 says that, while a popup grab is active, starting a popup grab for a surface of
  the grab's own client succeeds and adds the surface to the tracked popups. The code
  returns \<^verbatim>\<open>FALSE\<close> for every surface once the active grab is not the default grab:
  from a fresh pointer the first popup of client 1 starts the grab, and a second popup of
  the same client is refused, the grab and its popup list left as they were.
\<close>

theorem start_popup_grab_same_client:
  "meta_wayland_pointer_start_popup_grab meta_wayland_pointer_init example_popup_a =
     Inr (True, meta_wayland_pointer_init\<lparr>grab := PopupGrab 1 [example_popup_a]\<rparr>) \<and>
   meta_wayland_pointer_start_popup_grab
     (meta_wayland_pointer_init\<lparr>grab := PopupGrab 1 [example_popup_a]\<rparr>) example_popup_b =
     Inr (False, meta_wayland_pointer_init\<lparr>grab := PopupGrab 1 [example_popup_a]\<rparr>)"
  by (simp add: pointer_defs)

text \<open>
  Claim C7 says that a button release ends a popup grab when no button is held and the
  pointer focus is null. The test in the code is on the focus resource: when the grab's
  client has bound no pointer resource, the focus is on its popup and the focus resource
  is \<^verbatim>\<open>NULL\<close>, and a release over the popup dismisses it.
\<close>

theorem popup_grab_ends_inside_popup_counterexample:
  "pointer_run meta_wayland_pointer_init
     [SetCurrent (Some example_popup_a), StartPopupGrabOn example_popup_a]
   = Inr (meta_wayland_pointer_init
            \<lparr>focus := Some example_popup_a, current := Some example_popup_a,
             grab := PopupGrab 1 [example_popup_a]\<rparr>) \<and>
   pointer_step
     (meta_wayland_pointer_init
        \<lparr>focus := Some example_popup_a, current := Some example_popup_a,
         grab := PopupGrab 1 [example_popup_a]\<rparr>)
     (Button example_release)
   = Inr (meta_wayland_pointer_init
            \<lparr>focus := Some example_popup_a, current := Some example_popup_a,
             grab := DefaultGrab,
             sent := [SendPopupDone (surface_resource example_popup_a)]\<rparr>)"
  by (simp add: pointer_defs)

text \<open>
  One step under a popup grab: the grab ends exactly on the two events of
  \<open>popup_grab_ends\<close>, and the ending release returns normally.
\<close>

lemma popup_grab_step_cases:
  assumes "grab p = PopupGrab c ps"
  shows "(pointer_step p op = Inr p' \<longrightarrow>
            (if popup_grab_ends p op
             then grab p' = DefaultGrab \<and>
                  (\<exists>rest. sent p' = sent p @
                     popup_done_all (case op of PopupSurfaceDestroy popup \<Rightarrow> [] | _ \<Rightarrow> ps) @ rest)
             else \<exists>ps'. grab p' = PopupGrab c ps')) \<and>
         ((\<exists>event. op = Button event) \<and> popup_grab_ends p op \<longrightarrow>
            (\<exists>p'. pointer_step p op = Inr p'))"
proof (cases op)
  case (Focus surface)
  show ?thesis
    using assms Focus default_grab_focus_keeps(1) [of p surface p']
      set_focus_keeps(1) [of p None p']
    by (auto simp: popup_grab_ends_def grab_focus_def popup_grab_focus_def
        split: option.splits if_splits)
next
  case (Motion event)
  show ?thesis
    using assms Motion default_grab_motion_keeps [of p event p']
    by (auto simp: popup_grab_ends_def grab_motion_def popup_grab_motion_def)
next
  case (Button event)
  show ?thesis
  proof (cases "focus_resource p")
    case None
    show ?thesis
      using assms Button None end_popup_grab_default [of p c ps p']
        end_popup_grab_total [of p c ps]
      by (auto simp: popup_grab_ends_def grab_button_def popup_grab_button_def popup_done_all_def)
  next
    case (Some res)
    show ?thesis
      using assms Button Some default_grab_button_keeps [of p event p']
      by (auto simp: popup_grab_ends_def grab_button_def popup_grab_button_def split: if_splits)
  qed
next
  case (SetCurrent surface)
  show ?thesis
    using assms SetCurrent
    by (auto simp: popup_grab_ends_def meta_wayland_pointer_set_current_def)
next
  case BeginModal
  show ?thesis
    using assms BeginModal
    by (auto simp: popup_grab_ends_def meta_wayland_pointer_begin_modal_def)
next
  case EndModal
  show ?thesis
    using assms EndModal
    by (auto simp: popup_grab_ends_def meta_wayland_pointer_end_modal_def)
next
  case (StartPopupGrabOn surface)
  show ?thesis
    using assms StartPopupGrabOn
    by (auto simp: popup_grab_ends_def meta_wayland_pointer_start_popup_grab_def)
next
  case (PopupSurfaceDestroy popup)
  show ?thesis
  proof (cases "popup \<in> set ps")
    case False
    then show ?thesis
      using assms PopupSurfaceDestroy
      by (auto simp: popup_grab_ends_def on_popup_surface_destroy_def)
  next
    case True
    show ?thesis
    proof (cases "ps = [popup]")
      case single: True
      have "on_popup_surface_destroy p popup =
              meta_wayland_pointer_end_popup_grab (p\<lparr>grab := PopupGrab c []\<rparr>)"
        using assms single by (simp add: on_popup_surface_destroy_def)
      then show ?thesis
        using assms PopupSurfaceDestroy single
          end_popup_grab_default [of "p\<lparr>grab := PopupGrab c []\<rparr>" c "[]" p']
        by (auto simp: popup_grab_ends_def popup_done_all_def)
    next
      case more: False
      then have "remove1 popup ps \<noteq> []"
        using True remove1_Nil_iff by metis
      then show ?thesis
        using assms PopupSurfaceDestroy True more
        by (auto simp: popup_grab_ends_def on_popup_surface_destroy_def Let_def)
    qed
  qed
qed

text \<open>
  Both ending events return normally, and every step keeps the focus resource together
  with a focus surface.
\<close>

lemma popup_grab_end_total:
  assumes "grab p = PopupGrab c ps" and "popup_grab_ends p op" and "focus_resource_has_surface p"
  shows "\<exists>p'. pointer_step p op = Inr p'"
proof (cases op)
  case (Button event)
  then have "pointer_step p op = meta_wayland_pointer_end_popup_grab p"
    using assms(1,2) by (simp add: popup_grab_ends_def grab_button_def popup_grab_button_def)
  then show ?thesis
    using end_popup_grab_total_invariant(1) [OF assms(1,3)] by simp
next
  case (PopupSurfaceDestroy popup)
  then have single: "ps = [popup]"
    using assms(1,2) by (simp add: popup_grab_ends_def)
  have e: "pointer_step p op = meta_wayland_pointer_end_popup_grab (p\<lparr>grab := PopupGrab c []\<rparr>)"
    using assms(1) single PopupSurfaceDestroy by (simp add: on_popup_surface_destroy_def)
  have g: "grab (p\<lparr>grab := PopupGrab c []\<rparr>) = PopupGrab c []"
    by simp
  have i: "focus_resource_has_surface (p\<lparr>grab := PopupGrab c []\<rparr>)"
    using assms(3) by (simp add: focus_resource_has_surface_def)
  show ?thesis
    unfolding e using g i by (rule end_popup_grab_total_invariant(1))
qed (use assms(2) in \<open>simp_all add: popup_grab_ends_def\<close>)

lemma popup_grab_step_invariant:
  assumes "grab p = PopupGrab c ps" and "pointer_step p op = Inr p'"
    and "focus_resource_has_surface p"
  shows "focus_resource_has_surface p'"
proof (cases op)
  case (Focus surface)
  show ?thesis
    using assms Focus default_grab_focus_invariant [of p surface p']
      set_focus_invariant [of p None p']
    by (auto simp: grab_focus_def popup_grab_focus_def split: option.splits if_splits)
next
  case (Motion event)
  show ?thesis
    using assms Motion default_grab_motion_invariant [of p event p']
    by (auto simp: grab_motion_def popup_grab_motion_def)
next
  case (Button event)
  show ?thesis
    using assms Button default_grab_button_invariant [of p event p']
      end_popup_grab_total_invariant(2) [of p c ps p']
    by (auto simp: grab_button_def popup_grab_button_def split: option.splits if_splits)
next
  case (SetCurrent surface)
  show ?thesis
    using assms SetCurrent
    by (auto simp: meta_wayland_pointer_set_current_def focus_resource_has_surface_def)
next
  case BeginModal
  show ?thesis
    using assms BeginModal
    by (auto simp: meta_wayland_pointer_begin_modal_def)
next
  case EndModal
  show ?thesis
    using assms EndModal
    by (auto simp: meta_wayland_pointer_end_modal_def)
next
  case (StartPopupGrabOn surface)
  show ?thesis
    using assms StartPopupGrabOn
    by (auto simp: meta_wayland_pointer_start_popup_grab_def)
next
  case (PopupSurfaceDestroy popup)
  have i: "focus_resource_has_surface (p\<lparr>grab := PopupGrab c (remove1 popup ps)\<rparr>)"
    using assms(3) by (simp add: focus_resource_has_surface_def)
  show ?thesis
    using assms PopupSurfaceDestroy i
      end_popup_grab_total_invariant(2)
        [of "p\<lparr>grab := PopupGrab c (remove1 popup ps)\<rparr>" c "remove1 popup ps" p']
    by (auto simp: on_popup_surface_destroy_def Let_def split: if_splits)
qed

lemma grab_focus_invariant:
  assumes "grab_focus p surface = Inr p'" and "focus_resource_has_surface p"
  shows "focus_resource_has_surface p'"
  using assms default_grab_focus_invariant [of p surface p'] set_focus_invariant [of p None p']
  by (auto simp: grab_focus_def popup_grab_focus_def split: MetaWaylandPointerGrab.splits option.splits if_splits)

lemma start_grab_invariant:
  assumes "meta_wayland_pointer_start_grab p g = Inr p'" and "focus_resource_has_surface p"
  shows "focus_resource_has_surface p'"
proof -
  have i: "focus_resource_has_surface (p\<lparr>grab := g\<rparr>)"
    using assms(2) by (simp add: focus_resource_has_surface_def)
  show ?thesis
    using assms(1) i grab_focus_invariant [of "p\<lparr>grab := g\<rparr>" "current p" p']
    by (auto simp: meta_wayland_pointer_start_grab_def Let_def split: option.splits)
qed

lemma insert_popup_invariant:
  "focus_resource_has_surface (insert_popup p surface) = focus_resource_has_surface p"
  by (simp add: insert_popup_def focus_resource_has_surface_def split: MetaWaylandPointerGrab.splits)

lemma pointer_step_invariant:
  assumes "pointer_step p op = Inr p'" and "focus_resource_has_surface p"
  shows "focus_resource_has_surface p'"
proof (cases "grab p")
  case (PopupGrab c ps)
  then show ?thesis
    using assms by (rule popup_grab_step_invariant)
next
  case DefaultGrab
  show ?thesis
  proof (cases op)
    case (Focus surface)
    then show ?thesis
      using assms grab_focus_invariant by simp
  next
    case (Motion event)
    then show ?thesis
      using assms DefaultGrab default_grab_motion_invariant [of p event p']
      by (simp add: grab_motion_def)
  next
    case (Button event)
    then show ?thesis
      using assms DefaultGrab default_grab_button_invariant [of p event p']
      by (simp add: grab_button_def)
  next
    case (SetCurrent surface)
    then show ?thesis
      using assms
      by (auto simp: meta_wayland_pointer_set_current_def focus_resource_has_surface_def)
  next
    case BeginModal
    then show ?thesis
      using assms DefaultGrab set_focus_invariant [of p None] start_grab_invariant [of _ ModalGrab p']
      by (auto simp: meta_wayland_pointer_begin_modal_def split: sum.splits)
  next
    case EndModal
    then show ?thesis
      using assms DefaultGrab
      by (auto simp: meta_wayland_pointer_end_modal_def)
  next
    case (StartPopupGrabOn surface)
    then show ?thesis
      using assms DefaultGrab
        start_grab_invariant [of p "PopupGrab (resource_client (surface_resource surface)) []"]
      by (auto simp: meta_wayland_pointer_start_popup_grab_def insert_popup_invariant
          split: sum.splits)
  next
    case (PopupSurfaceDestroy popup)
    then show ?thesis
      using assms DefaultGrab
      by (auto simp: on_popup_surface_destroy_def)
  qed
next
  case ModalGrab
  show ?thesis
  proof (cases op)
    case (Focus surface)
    then show ?thesis
      using assms grab_focus_invariant by simp
  next
    case (Motion event)
    then show ?thesis
      using assms ModalGrab
      by (auto simp: grab_motion_def)
  next
    case (Button event)
    then show ?thesis
      using assms ModalGrab
      by (auto simp: grab_button_def)
  next
    case (SetCurrent surface)
    then show ?thesis
      using assms
      by (auto simp: meta_wayland_pointer_set_current_def focus_resource_has_surface_def)
  next
    case BeginModal
    then show ?thesis
      using assms ModalGrab
      by (auto simp: meta_wayland_pointer_begin_modal_def split: sum.splits)
  next
    case EndModal
    then show ?thesis
      using assms ModalGrab end_grab_invariant [of p p']
      by (auto simp: meta_wayland_pointer_end_modal_def)
  next
    case (StartPopupGrabOn surface)
    then show ?thesis
      using assms ModalGrab
      by (auto simp: meta_wayland_pointer_start_popup_grab_def)
  next
    case (PopupSurfaceDestroy popup)
    then show ?thesis
      using assms ModalGrab
      by (auto simp: on_popup_surface_destroy_def)
  qed
qed

lemma pointer_run_invariant:
  "pointer_run p ops = Inr p' \<Longrightarrow> focus_resource_has_surface p \<Longrightarrow> focus_resource_has_surface p'"
proof (induction ops arbitrary: p)
  case Nil
  then show ?case by simp
next
  case (Cons op ops)
  then show ?case
    using pointer_step_invariant [of p op]
    by (auto split: sum.splits)
qed

text \<open>
  Claim C7, amended. While a popup grab is active, one step of the pointer (a focus,
  motion or button callback, a change of the current surface, a request to begin a modal
  or a popup grab, the destruction of a tracked popup) ends the grab in exactly two
  situations: a button release with no button held while the focus resource is
  \<^verbatim>\<open>NULL\<close>, and the destruction of the only tracked popup. When it ends, every popup
  still tracked has been sent \<open>popup_done\<close>, the tracked list is gone and the active grab
  is the default grab; in every other case the popup grab of the same client goes on.
  Both ending steps return normally: the release always, the destruction of the only
  tracked popup whenever the focus resource has a focus surface with it, which the
  initial pointer satisfies and every step that returns keeps.
\<close>

theorem popup_grab_end_cases:
  assumes "grab p = PopupGrab c ps"
  shows "(pointer_step p op = Inr p' \<longrightarrow>
            (if popup_grab_ends p op
             then grab p' = DefaultGrab \<and>
                  (\<exists>rest. sent p' = sent p @
                     popup_done_all (case op of PopupSurfaceDestroy popup \<Rightarrow> [] | _ \<Rightarrow> ps) @ rest)
             else \<exists>ps'. grab p' = PopupGrab c ps')) \<and>
         ((\<exists>event. op = Button event) \<and> popup_grab_ends p op \<longrightarrow>
            (\<exists>p'. pointer_step p op = Inr p')) \<and>
         (popup_grab_ends p op \<and> focus_resource_has_surface p \<longrightarrow>
            (\<exists>p'. pointer_step p op = Inr p')) \<and>
         (pointer_step p op = Inr p' \<and> focus_resource_has_surface p \<longrightarrow>
            focus_resource_has_surface p') \<and>
         focus_resource_has_surface meta_wayland_pointer_init"
proof (intro conjI)
  show "pointer_step p op = Inr p' \<longrightarrow>
            (if popup_grab_ends p op
             then grab p' = DefaultGrab \<and>
                  (\<exists>rest. sent p' = sent p @
                     popup_done_all (case op of PopupSurfaceDestroy popup \<Rightarrow> [] | _ \<Rightarrow> ps) @ rest)
             else \<exists>ps'. grab p' = PopupGrab c ps')"
    using popup_grab_step_cases [OF assms, of op p'] by (rule conjunct1)
  show "(\<exists>event. op = Button event) \<and> popup_grab_ends p op \<longrightarrow>
            (\<exists>p'. pointer_step p op = Inr p')"
    using popup_grab_step_cases [OF assms, of op p'] by (rule conjunct2)
  show "popup_grab_ends p op \<and> focus_resource_has_surface p \<longrightarrow>
            (\<exists>p'. pointer_step p op = Inr p')"
    using popup_grab_end_total [OF assms] by blast
  show "pointer_step p op = Inr p' \<and> focus_resource_has_surface p \<longrightarrow>
            focus_resource_has_surface p'"
    using pointer_step_invariant by blast
  show "focus_resource_has_surface meta_wayland_pointer_init"
    by (simp add: focus_resource_has_surface_def meta_wayland_pointer_init_def)
qed

text \<open>
  The amended C7 on a popup grab of client 1 with one popup, no focus and no button held.
  The release ends the grab, the popup gets \<open>popup_done\<close>, the default grab is back.
  The destruction of the popup ends the grab as well and returns the initial pointer: the
  popup that is gone gets no \<open>popup_done\<close>.
\<close>

theorem popup_grab_end_cases_witness:
  "pointer_step (meta_wayland_pointer_init\<lparr>grab := PopupGrab 1 [example_popup_a]\<rparr>)
     (Button example_release)
   = Inr (meta_wayland_pointer_init\<lparr>sent := [SendPopupDone (surface_resource example_popup_a)]\<rparr>) \<and>
   popup_grab_ends (meta_wayland_pointer_init\<lparr>grab := PopupGrab 1 [example_popup_a]\<rparr>)
     (Button example_release) \<and>
   grab (meta_wayland_pointer_init\<lparr>sent := [SendPopupDone (surface_resource example_popup_a)]\<rparr>)
     = DefaultGrab \<and>
   (\<exists>rest. sent (meta_wayland_pointer_init\<lparr>sent := [SendPopupDone (surface_resource example_popup_a)]\<rparr>)
      = sent (meta_wayland_pointer_init\<lparr>grab := PopupGrab 1 [example_popup_a]\<rparr>) @
        popup_done_all [example_popup_a] @ rest) \<and>
   popup_grab_ends (meta_wayland_pointer_init\<lparr>grab := PopupGrab 1 [example_popup_a]\<rparr>)
     (PopupSurfaceDestroy example_popup_a) \<and>
   focus_resource_has_surface (meta_wayland_pointer_init\<lparr>grab := PopupGrab 1 [example_popup_a]\<rparr>) \<and>
   pointer_step (meta_wayland_pointer_init\<lparr>grab := PopupGrab 1 [example_popup_a]\<rparr>)
     (PopupSurfaceDestroy example_popup_a)
   = Inr meta_wayland_pointer_init \<and>
   grab meta_wayland_pointer_init = DefaultGrab \<and>
   focus_resource_has_surface meta_wayland_pointer_init"
proof -
  define p where "p = meta_wayland_pointer_init\<lparr>grab := PopupGrab 1 [example_popup_a]\<rparr>"
  define p' where
    "p' = meta_wayland_pointer_init\<lparr>sent := [SendPopupDone (surface_resource example_popup_a)]\<rparr>"
  have g: "grab p = PopupGrab 1 [example_popup_a]"
    by (simp add: p_def)
  have s: "pointer_step p (Button example_release) = Inr p'"
    by (simp add: p_def p'_def pointer_defs)
  have e: "popup_grab_ends p (Button example_release)"
    by (simp add: p_def popup_grab_ends_def pointer_defs)
  have d: "pointer_step p (PopupSurfaceDestroy example_popup_a) = Inr meta_wayland_pointer_init"
    by (simp add: p_def pointer_defs)
  have de: "popup_grab_ends p (PopupSurfaceDestroy example_popup_a)"
    by (simp add: p_def popup_grab_ends_def)
  have i: "focus_resource_has_surface p"
    by (simp add: p_def focus_resource_has_surface_def meta_wayland_pointer_init_def)
  have "pointer_step p (Button example_release) = Inr p' \<and>
        popup_grab_ends p (Button example_release) \<and> grab p' = DefaultGrab \<and>
        (\<exists>rest. sent p' = sent p @ popup_done_all [example_popup_a] @ rest) \<and>
        popup_grab_ends p (PopupSurfaceDestroy example_popup_a) \<and>
        focus_resource_has_surface p \<and>
        pointer_step p (PopupSurfaceDestroy example_popup_a) = Inr meta_wayland_pointer_init \<and>
        grab meta_wayland_pointer_init = DefaultGrab \<and>
        focus_resource_has_surface meta_wayland_pointer_init"
    using popup_grab_end_cases [OF g, of "Button example_release" p'] s e
      popup_grab_end_cases [OF g, of "PopupSurfaceDestroy example_popup_a" meta_wayland_pointer_init]
      d de i
    by simp
  then show ?thesis
    unfolding p_def p'_def .
qed

text \<open>
  Claim C8. The active grab of a pointer is exactly one of the default grab, a modal grab
  and a popup grab. \<open>begin_modal\<close> under any other grab than the default one returns
  false and leaves the whole pointer, so its grab, focus and focus resource, unchanged;
  under the default grab it returns true with the modal grab installed (and the focus
  dropped).
\<close>

theorem begin_modal_exclusive:
  "of_bool (grab p = DefaultGrab) + of_bool (grab p = ModalGrab) +
     of_bool (\<exists>c ps. grab p = PopupGrab c ps) = (1::nat) \<and>
   (grab p \<noteq> DefaultGrab \<longrightarrow> meta_wayland_pointer_begin_modal p = Inr (False, p)) \<and>
   (grab p = DefaultGrab \<longrightarrow>
      (\<exists>p'. meta_wayland_pointer_begin_modal p = Inr (True, p') \<and> grab p' = ModalGrab \<and>
            focus p' = None \<and> focus_resource p' = None))"
proof -
  have 1: "of_bool (grab p = DefaultGrab) + of_bool (grab p = ModalGrab) +
     of_bool (\<exists>c ps. grab p = PopupGrab c ps) = (1::nat)"
    by (cases "grab p") simp_all
  have 2: "grab p \<noteq> DefaultGrab \<longrightarrow> meta_wayland_pointer_begin_modal p = Inr (False, p)"
    by (simp add: meta_wayland_pointer_begin_modal_def)
  have 3: "\<exists>p'. meta_wayland_pointer_begin_modal p = Inr (True, p') \<and> grab p' = ModalGrab \<and>
            focus p' = None \<and> focus_resource p' = None"
    if d: "grab p = DefaultGrab"
  proof -
    obtain p1 where p1: "meta_wayland_pointer_set_focus p None = Inr p1"
      using set_focus_None_total by blast
    have f: "focus p1 = None" "focus_resource p1 = None"
      using set_focus_keeps(6,7) [OF p1] by (simp_all add: find_resource_for_surface_def)
    have m: "meta_wayland_pointer_start_grab p1 ModalGrab = Inr (p1\<lparr>grab := ModalGrab\<rparr>)"
      by (simp add: meta_wayland_pointer_start_grab_def Let_def grab_focus_def split: option.splits)
    show ?thesis
      using d p1 m f by (simp add: meta_wayland_pointer_begin_modal_def)
  qed
  show ?thesis using 1 2 3 by blast
qed

text \<open>
  C8 at concrete pointers: refused under a popup grab, accepted on a fresh pointer.
\<close>

theorem begin_modal_exclusive_witness:
  "meta_wayland_pointer_begin_modal
     (meta_wayland_pointer_init\<lparr>grab := PopupGrab 1 [example_popup_a]\<rparr>)
   = Inr (False, meta_wayland_pointer_init\<lparr>grab := PopupGrab 1 [example_popup_a]\<rparr>) \<and>
   (\<exists>p'. meta_wayland_pointer_begin_modal meta_wayland_pointer_init = Inr (True, p') \<and>
         grab p' = ModalGrab \<and> focus p' = None \<and> focus_resource p' = None)"
  using begin_modal_exclusive [of "meta_wayland_pointer_init\<lparr>grab := PopupGrab 1 [example_popup_a]\<rparr>"]
    begin_modal_exclusive [of meta_wayland_pointer_init]
  by (simp add: meta_wayland_pointer_init_def)

text \<open>
  Claim C10. Setting the focus to the surface that has it already, with the focus resource
  being the pointer resource of that surface's client, changes nothing: no leave, enter
  or modifiers message is sent, no serial is drawn, and the focus surface, the focus
  resource and the focus serial stay as they are.
\<close>

theorem set_focus_idempotent:
  "focus p = surface \<Longrightarrow>
   focus_resource p = find_resource_for_surface (resource_list p) surface \<Longrightarrow>
   meta_wayland_pointer_set_focus p surface = Inr p"
  by (auto simp: meta_wayland_pointer_set_focus_def Let_def split: option.splits)

text \<open>
  C10 on a pointer focused on a surface of client 1 through that client's pointer resource.
\<close>

theorem set_focus_idempotent_witness:
  "meta_wayland_pointer_set_focus
     (meta_wayland_pointer_init
        \<lparr>resource_list := [example_pointer_resource], focus := Some example_popup_a,
         focus_resource := Some example_pointer_resource, focus_serial := 5, display_serial := 9\<rparr>)
     (Some example_popup_a)
   = Inr (meta_wayland_pointer_init
        \<lparr>resource_list := [example_pointer_resource], focus := Some example_popup_a,
         focus_resource := Some example_pointer_resource, focus_serial := 5, display_serial := 9\<rparr>)"
proof -
  define p where "p = meta_wayland_pointer_init
        \<lparr>resource_list := [example_pointer_resource], focus := Some example_popup_a,
         focus_resource := Some example_pointer_resource, focus_serial := 5, display_serial := 9\<rparr>"
  have 1: "focus p = Some example_popup_a" by (simp add: p_def)
  have 2: "focus_resource p = find_resource_for_surface (resource_list p) (Some example_popup_a)"
    by (simp add: p_def pointer_defs)
  show ?thesis
    using set_focus_idempotent [OF 1 2] by (simp add: p_def)
qed

section \<open>Properties of the native input translation\<close>

subsection \<open>Touch slots\<close>

lemma first_free_slot_le: "first_free_slot ts \<le> length ts"
  by (induction ts) auto

lemma first_free_slot_occupied: "j < first_free_slot ts \<Longrightarrow> ts ! j \<noteq> None"
proof (induction ts arbitrary: j)
  case Nil
  then show ?case by simp
next
  case (Cons t ts)
  then show ?case by (cases j) (auto split: if_splits)
qed

lemma first_free_slot_free: "first_free_slot ts < length ts \<Longrightarrow> ts ! first_free_slot ts = None"
  by (induction ts) auto

lemma first_free_slot_least:
  "i < length ts \<Longrightarrow> ts ! i = None \<Longrightarrow> \<forall>j<i. ts ! j \<noteq> None \<Longrightarrow> first_free_slot ts = i"
proof -
  assume a: "i < length ts" "ts ! i = None" "\<forall>j<i. ts ! j \<noteq> None"
  have "\<not> i < first_free_slot ts"
    using first_free_slot_occupied [of i ts] a(2) by auto
  moreover have "\<not> first_free_slot ts < i"
  proof
    assume l: "first_free_slot ts < i"
    then have "first_free_slot ts < length ts" using a(1) by simp
    then have "ts ! first_free_slot ts = None" by (rule first_free_slot_free)
    with a(3) l show False by blast
  qed
  ultimately show ?thesis by simp
qed

lemma acquire_touch_states:
  "touch_states (snd (meta_seat_native_acquire_touch_state seat d)) =
     (if first_free_slot (touch_states seat) = length (touch_states seat)
      then touch_states seat @ replicate 5 None else touch_states seat)
       [first_free_slot (touch_states seat) :=
          Some \<lparr>seat_slot = first_free_slot (touch_states seat), device_slot = d\<rparr>]"
  using first_free_slot_le [of "touch_states seat"]
  by (auto simp: meta_seat_native_acquire_touch_state_def ensure_seat_slot_allocated_def
      n_alloc_touch_states_def Let_def)

lemma grown_nth:
  "i < length (if k = length ts then ts @ replicate 5 None else ts) \<Longrightarrow>
   (if k = length ts then ts @ replicate 5 None else ts) ! i = Some (t::MetaTouchState) \<Longrightarrow>
   i < length ts \<and> ts ! i = Some t"
  by (cases "k = length ts"; cases "i < length ts") (simp_all add: nth_append)

lemma acquire_consistent:
  assumes "slots_consistent seat"
  shows "slots_consistent (snd (meta_seat_native_acquire_touch_state seat d))"
proof -
  define ts where "ts = touch_states seat"
  define k where "k = first_free_slot ts"
  define ts' where "ts' = (if k = length ts then ts @ replicate 5 None else ts)"
  have r: "touch_states (snd (meta_seat_native_acquire_touch_state seat d)) =
             ts'[k := Some \<lparr>seat_slot = k, device_slot = d\<rparr>]"
    unfolding ts'_def k_def ts_def by (rule acquire_touch_states)
  have "seat_slot t = i"
    if i: "i < length ts'" and e: "ts'[k := Some \<lparr>seat_slot = k, device_slot = d\<rparr>] ! i = Some t"
    for i t
  proof (cases "i = k")
    case True
    then show ?thesis using i e by auto
  next
    case False
    then have "ts' ! i = Some t" using e by simp
    then have "i < length ts \<and> ts ! i = Some t"
      using i grown_nth [of i k ts t] unfolding ts'_def by blast
    then show ?thesis
      using assms unfolding slots_consistent_def ts_def by blast
  qed
  then show ?thesis
    unfolding slots_consistent_def r by simp
qed

lemma release_consistent:
  assumes "slots_consistent seat"
  shows "slots_consistent (meta_seat_native_release_touch_state seat t)"
  unfolding slots_consistent_def
proof (intro allI impI)
  fix i u
  assume i: "i < length (touch_states (meta_seat_native_release_touch_state seat t))"
    and e: "touch_states (meta_seat_native_release_touch_state seat t) ! i = Some u"
  have l: "i < length (touch_states seat)"
    using i by (simp add: meta_seat_native_release_touch_state_def)
  have e': "(touch_states seat)[seat_slot t := None] ! i = Some u"
    using e by (simp add: meta_seat_native_release_touch_state_def)
  have "i \<noteq> seat_slot t"
  proof
    assume "i = seat_slot t"
    then have "(touch_states seat)[seat_slot t := None] ! i = None"
      using l by simp
    with e' show False by simp
  qed
  then have "touch_states seat ! i = Some u"
    using e' by simp
  then show "seat_slot u = i"
    using assms l unfolding slots_consistent_def by blast
qed

lemma touch_step_consistent:
  "slots_consistent seat \<Longrightarrow> slots_consistent (touch_step seat op)"
proof (cases op)
  case (TouchBegin d)
  assume "slots_consistent seat"
  then show ?thesis using TouchBegin by (simp add: acquire_consistent)
next
  case (TouchEnd slot)
  assume "slots_consistent seat"
  then show ?thesis using TouchEnd by (simp add: release_consistent split: option.splits)
qed

lemma touch_run_consistent:
  "slots_consistent seat \<Longrightarrow> slots_consistent (foldl touch_step seat ops)"
  by (induction ops arbitrary: seat) (simp_all add: touch_step_consistent)

lemma new_consistent: "slots_consistent meta_seat_native_new"
  by (simp add: slots_consistent_def meta_seat_native_new_def)

lemma distinct_live_aux:
  "(\<forall>i<length ts. \<forall>t. ts ! i = Some t \<longrightarrow> seat_slot t = i + n) \<Longrightarrow>
   distinct (map seat_slot (List.map_filter id ts)) \<and>
   (\<forall>t \<in> set (List.map_filter id ts). n \<le> seat_slot t)"
proof (induction ts arbitrary: n)
  case Nil
  then show ?case by simp
next
  case (Cons a ts)
  have tl: "\<forall>i<length ts. \<forall>t. ts ! i = Some t \<longrightarrow> seat_slot t = i + Suc n"
  proof (intro allI impI)
    fix i t assume "i < length ts" "ts ! i = Some t"
    then have "Suc i < length (a # ts)" "(a # ts) ! Suc i = Some t" by simp_all
    with Cons.prems have "seat_slot t = Suc i + n" by blast
    then show "seat_slot t = i + Suc n" by simp
  qed
  note ih = Cons.IH [OF tl]
  show ?case
  proof (cases a)
    case None
    then show ?thesis using ih by auto
  next
    case (Some t)
    have "0 < length (a # ts)" "(a # ts) ! 0 = Some t" using Some by simp_all
    with Cons.prems have "seat_slot t = 0 + n" by blast
    then show ?thesis using ih Some by fastforce
  qed
qed

lemma consistent_distinct:
  "slots_consistent seat \<Longrightarrow> distinct (map seat_slot (live_touches seat))"
  using distinct_live_aux [of "touch_states seat" 0]
  by (simp add: slots_consistent_def live_touches_def)

lemma acquire_fst:
  "fst (meta_seat_native_acquire_touch_state seat d) =
     \<lparr>seat_slot = first_free_slot (touch_states seat), device_slot = d\<rparr>"
  by (simp add: meta_seat_native_acquire_touch_state_def Let_def)

text \<open>
  Claim C9. After any interleaving of touches beginning and ending on a new seat, the live
  touches hold pairwise different seat slots. Acquisition returns the lowest free index of
  the table (every lower index is taken), or the table's size when none is free, in which
  case the table grows by 5 entries, all free but the one handed out; every other entry
  stays as it was. After releasing slot \<open>i\<close>, the next acquisition returns \<open>i\<close>
  whenever every index below \<open>i\<close> is taken.
\<close>

theorem touch_slot_allocation:
  "distinct (map seat_slot (live_touches (foldl touch_step meta_seat_native_new ops))) \<and>
   (let slot = seat_slot (fst (meta_seat_native_acquire_touch_state seat d));
        ts = touch_states seat;
        ts' = touch_states (snd (meta_seat_native_acquire_touch_state seat d))
    in slot = first_free_slot ts \<and> slot \<le> length ts \<and>
       (\<forall>j. j < slot \<longrightarrow> ts ! j \<noteq> None) \<and>
       (slot < length ts \<longrightarrow> ts ! slot = None) \<and>
       length ts' = (if slot = length ts then length ts + 5 else length ts) \<and>
       ts' ! slot = Some (fst (meta_seat_native_acquire_touch_state seat d)) \<and>
       (\<forall>j<length ts. j \<noteq> slot \<longrightarrow> ts' ! j = ts ! j) \<and>
       (\<forall>j. length ts \<le> j \<and> j < length ts' \<and> j \<noteq> slot \<longrightarrow> ts' ! j = None)) \<and>
   (i < length (touch_states seat) \<and> (\<forall>j<i. touch_states seat ! j \<noteq> None) \<longrightarrow>
      seat_slot (fst (meta_seat_native_acquire_touch_state
                        (meta_seat_native_release_touch_state seat
                           \<lparr>seat_slot = i, device_slot = d0\<rparr>) d)) = i)"
proof -
  have 1: "distinct (map seat_slot (live_touches (foldl touch_step meta_seat_native_new ops)))"
    by (rule consistent_distinct) (rule touch_run_consistent, rule new_consistent)
  define ts where "ts = touch_states seat"
  define k where "k = first_free_slot ts"
  define g where "g = (if k = length ts then ts @ replicate 5 None else ts)"
  define t where "t = \<lparr>seat_slot = k, device_slot = d\<rparr>"
  have f: "fst (meta_seat_native_acquire_touch_state seat d) = t"
    unfolding t_def k_def ts_def by (rule acquire_fst)
  have s: "touch_states (snd (meta_seat_native_acquire_touch_state seat d)) = g[k := Some t]"
    unfolding g_def t_def k_def ts_def by (rule acquire_touch_states)
  have kl: "k \<le> length ts" unfolding k_def by (rule first_free_slot_le)
  have kg: "k < length g" using kl by (simp add: g_def)
  have a: "\<forall>j<k. ts ! j \<noteq> None"
    unfolding k_def using first_free_slot_occupied by blast
  have b: "k < length ts \<longrightarrow> ts ! k = None"
    unfolding k_def using first_free_slot_free by blast
  have c: "length (g[k := Some t]) = (if k = length ts then length ts + 5 else length ts)"
    by (simp add: g_def)
  have d: "g[k := Some t] ! k = Some t" using kg by simp
  have e: "\<forall>j<length ts. j \<noteq> k \<longrightarrow> g[k := Some t] ! j = ts ! j"
    by (simp add: g_def nth_append)
  have h: "\<forall>j. length ts \<le> j \<and> j < length (g[k := Some t]) \<and> j \<noteq> k \<longrightarrow> g[k := Some t] ! j = None"
    by (auto simp: g_def nth_append split: if_splits)
  have 2: "let slot = seat_slot (fst (meta_seat_native_acquire_touch_state seat d));
        ts = touch_states seat;
        ts' = touch_states (snd (meta_seat_native_acquire_touch_state seat d))
    in slot = first_free_slot ts \<and> slot \<le> length ts \<and>
       (\<forall>j. j < slot \<longrightarrow> ts ! j \<noteq> None) \<and>
       (slot < length ts \<longrightarrow> ts ! slot = None) \<and>
       length ts' = (if slot = length ts then length ts + 5 else length ts) \<and>
       ts' ! slot = Some (fst (meta_seat_native_acquire_touch_state seat d)) \<and>
       (\<forall>j<length ts. j \<noteq> slot \<longrightarrow> ts' ! j = ts ! j) \<and>
       (\<forall>j. length ts \<le> j \<and> j < length ts' \<and> j \<noteq> slot \<longrightarrow> ts' ! j = None)"
    unfolding Let_def f s ts_def [symmetric]
    using kl a b c d e h by (simp add: t_def k_def)
  have 3: "seat_slot (fst (meta_seat_native_acquire_touch_state
                        (meta_seat_native_release_touch_state seat
                           \<lparr>seat_slot = i, device_slot = d0\<rparr>) d)) = i"
    if il: "i < length (touch_states seat)" and occ: "\<forall>j<i. touch_states seat ! j \<noteq> None"
  proof -
    have "first_free_slot ((touch_states seat)[i := None]) = i"
    proof (rule first_free_slot_least)
      show "i < length ((touch_states seat)[i := None])" using il by simp
      show "(touch_states seat)[i := None] ! i = None" using il by simp
      show "\<forall>j<i. (touch_states seat)[i := None] ! j \<noteq> None" using occ by simp
    qed
    then show ?thesis
      by (simp add: acquire_fst meta_seat_native_release_touch_state_def)
  qed
  show ?thesis using 1 2 3 by blast
qed

lemma example_touch_table:
  "touch_states (foldl touch_step meta_seat_native_new [TouchBegin 3, TouchBegin 4]) =
     [Some \<lparr>seat_slot = 0, device_slot = 3\<rparr>, Some \<lparr>seat_slot = 1, device_slot = 4\<rparr>,
      None, None, None]"
  by (simp add: meta_seat_native_new_def meta_seat_native_acquire_touch_state_def
      ensure_seat_slot_allocated_def n_alloc_touch_states_def Let_def eval_nat_numeral)

text \<open>
  C9 on a seat with two touches begun: the next slot is 2, in a table of 5; after the
  touch of slot 0 ends, the next slot is 0.
\<close>

theorem touch_slot_allocation_witness:
  "distinct (map seat_slot (live_touches
     (foldl touch_step meta_seat_native_new [TouchBegin 3, TouchBegin 4, TouchEnd 0, TouchBegin 9]))) \<and>
   seat_slot (fst (meta_seat_native_acquire_touch_state
     (foldl touch_step meta_seat_native_new [TouchBegin 3, TouchBegin 4]) 9)) = 2 \<and>
   length (touch_states (snd (meta_seat_native_acquire_touch_state
     (foldl touch_step meta_seat_native_new [TouchBegin 3, TouchBegin 4]) 9))) = 5 \<and>
   seat_slot (fst (meta_seat_native_acquire_touch_state
     (meta_seat_native_release_touch_state
        (foldl touch_step meta_seat_native_new [TouchBegin 3, TouchBegin 4])
        \<lparr>seat_slot = 0, device_slot = 3\<rparr>) 9)) = 0"
proof -
  define seat where "seat = foldl touch_step meta_seat_native_new [TouchBegin 3, TouchBegin 4]"
  have ts: "touch_states seat =
     [Some \<lparr>seat_slot = 0, device_slot = 3\<rparr>, Some \<lparr>seat_slot = 1, device_slot = 4\<rparr>,
      None, None, None]"
    unfolding seat_def by (rule example_touch_table)
  have h: "0 < length (touch_states seat) \<and> (\<forall>j<0. touch_states seat ! j \<noteq> None)"
    by (simp add: ts)
  have k: "first_free_slot (touch_states seat) = 2"
    by (simp add: ts)
  note t = touch_slot_allocation
    [where ops = "[TouchBegin 3, TouchBegin 4, TouchEnd 0, TouchBegin 9]" and seat = seat
       and d = 9 and i = 0 and ?d0.0 = 3]
  have "distinct (map seat_slot (live_touches
     (foldl touch_step meta_seat_native_new [TouchBegin 3, TouchBegin 4, TouchEnd 0, TouchBegin 9]))) \<and>
   seat_slot (fst (meta_seat_native_acquire_touch_state seat 9)) = 2 \<and>
   length (touch_states (snd (meta_seat_native_acquire_touch_state seat 9))) = 5 \<and>
   seat_slot (fst (meta_seat_native_acquire_touch_state
     (meta_seat_native_release_touch_state seat \<lparr>seat_slot = 0, device_slot = 3\<rparr>) 9)) = 0"
    using t h k by (simp add: Let_def ts)
  then show ?thesis unfolding seat_def .
qed

subsection \<open>Button counting\<close>

lemma wrap_int_id: "- 2147483648 \<le> x \<Longrightarrow> x \<le> 2147483647 \<Longrightarrow> wrap_int x = x"
  by (simp add: wrap_int_def)

lemma notify_button_dropped_press:
  assumes "state \<noteq> 0" and "1 \<le> button_count seat button" and "button_count seat button < INT_MAX"
  shows "meta_seat_native_notify_button seat input_device button state =
           seat\<lparr>button_count := (button_count seat)(button := button_count seat button + 1)\<rparr>"
  using assms
  by (simp add: meta_seat_native_notify_button_def update_button_count_def wrap_int_id INT_MAX_def)

lemma notify_button_dropped_release:
  assumes "2 \<le> button_count seat button" and "button_count seat button \<le> INT_MAX"
  shows "meta_seat_native_notify_button seat input_device button 0 =
           seat\<lparr>button_count := (button_count seat)(button := button_count seat button - 1)\<rparr>"
  using assms
  by (simp add: meta_seat_native_notify_button_def update_button_count_def wrap_int_id INT_MAX_def)

lemma notify_button_first_press:
  assumes "state \<noteq> 0" and "button_count seat button = 0"
  shows "\<exists>code mods.
           event_queue (meta_seat_native_notify_button seat input_device button state) =
             event_queue seat @
               (if button_forwarded input_device button
                then [ButtonEvent CLUTTER_BUTTON_PRESS (button_number input_device button) code mods]
                else []) \<and>
           button_count (meta_seat_native_notify_button seat input_device button state) =
             (button_count seat)(button := 1)"
  using assms
  by (simp add: meta_seat_native_notify_button_def update_button_count_def Let_def queue_event_def
      button_forwarded_def wrap_int_def)

lemma notify_button_last_release:
  assumes "button_count seat button = 1"
  shows "\<exists>code mods.
           event_queue (meta_seat_native_notify_button seat input_device button 0) =
             event_queue seat @
               (if button_forwarded input_device button
                then [ButtonEvent CLUTTER_BUTTON_RELEASE (button_number input_device button) code mods]
                else []) \<and>
           button_count (meta_seat_native_notify_button seat input_device button 0) =
             (button_count seat)(button := 0)"
  using assms
  by (simp add: meta_seat_native_notify_button_def update_button_count_def Let_def queue_event_def
      button_forwarded_def wrap_int_def)

lemma notify_button_release_at_zero:
  assumes "button_count seat button = 0"
  shows "button_count (meta_seat_native_notify_button seat input_device button 0) = button_count seat"
  using assms
  by (simp add: meta_seat_native_notify_button_def update_button_count_def Let_def queue_event_def)

lemma notify_button_count:
  "button_count (meta_seat_native_notify_button seat input_device button state) =
     button_count (snd (update_button_count seat button state))"
  by (simp add: meta_seat_native_notify_button_def Let_def queue_event_def split: prod.splits)

lemma update_button_count_bounds:
  assumes "\<forall>b. 0 \<le> button_count seat b \<and> button_count seat b \<le> n" and "n < INT_MAX"
  shows "\<forall>b. 0 \<le> button_count (snd (update_button_count seat button state)) b \<and>
             button_count (snd (update_button_count seat button state)) b \<le> n + 1"
proof
  fix b
  have "0 \<le> button_count seat button" "button_count seat button \<le> n"
    "0 \<le> button_count seat b" "button_count seat b \<le> n"
    using assms(1) by blast+
  then show "0 \<le> button_count (snd (update_button_count seat button state)) b \<and>
             button_count (snd (update_button_count seat button state)) b \<le> n + 1"
    using assms(2) by (simp add: update_button_count_def wrap_int_id INT_MAX_def)
qed

lemma notify_button_from_Cons:
  "notify_button_from (input_device # devices) button state seat =
     notify_button_from devices button state
       (meta_seat_native_notify_button seat input_device button state)"
  by (simp add: notify_button_from_def)

lemma notify_button_from_snoc:
  "notify_button_from (devices @ [input_device]) button state seat =
     meta_seat_native_notify_button (notify_button_from devices button state seat)
       input_device button state"
  by (simp add: notify_button_from_def)

lemma presses_only_count:
  assumes "state \<noteq> 0" and "1 \<le> button_count seat button"
    and "button_count seat button + int (length devices) \<le> INT_MAX"
  shows "notify_button_from devices button state seat =
           seat\<lparr>button_count :=
             (button_count seat)(button := button_count seat button + int (length devices))\<rparr>"
  using assms(2,3)
proof (induction devices arbitrary: seat)
  case Nil
  have "(button_count seat)(button := button_count seat button) = button_count seat" by auto
  then show ?case by (simp add: notify_button_from_def)
next
  case (Cons d devices)
  define seat1 where
    "seat1 = seat\<lparr>button_count := (button_count seat)(button := button_count seat button + 1)\<rparr>"
  have lt: "button_count seat button < INT_MAX"
    using Cons.prems(2) by simp
  have s1: "meta_seat_native_notify_button seat d button state = seat1"
    unfolding seat1_def using assms(1) Cons.prems(1) lt by (rule notify_button_dropped_press)
  have c1: "1 \<le> button_count seat1 button"
    using Cons.prems(1) by (simp add: seat1_def)
  have b1: "button_count seat1 button + int (length devices) \<le> INT_MAX"
    using Cons.prems(2) by (simp add: seat1_def)
  have "notify_button_from (d # devices) button state seat =
          notify_button_from devices button state seat1"
    by (simp only: notify_button_from_Cons s1)
  also have "\<dots> = seat1\<lparr>button_count :=
             (button_count seat1)(button := button_count seat1 button + int (length devices))\<rparr>"
    by (rule Cons.IH [OF c1 b1])
  also have "\<dots> = seat\<lparr>button_count :=
             (button_count seat)(button := button_count seat button + int (length (d # devices)))\<rparr>"
    by (simp add: seat1_def add.assoc)
  finally show ?case .
qed

lemma presses_collapse:
  assumes "state \<noteq> 0" and "button_count seat button = 0"
    and "int (length devices) < INT_MAX"
  shows "\<exists>code mods.
           event_queue (notify_button_from (input_device # devices) button state seat) =
             event_queue seat @
               (if button_forwarded input_device button
                then [ButtonEvent CLUTTER_BUTTON_PRESS (button_number input_device button) code mods]
                else []) \<and>
           button_count (notify_button_from (input_device # devices) button state seat) =
             (button_count seat)(button := int (length (input_device # devices)))"
proof -
  define seat1 where "seat1 = meta_seat_native_notify_button seat input_device button state"
  obtain code mods where
    q: "event_queue seat1 = event_queue seat @
               (if button_forwarded input_device button
                then [ButtonEvent CLUTTER_BUTTON_PRESS (button_number input_device button) code mods]
                else [])"
    and c: "button_count seat1 = (button_count seat)(button := 1)"
    unfolding seat1_def using notify_button_first_press [OF assms(1,2)] by blast
  have c1: "1 \<le> button_count seat1 button" by (simp add: c)
  have b1: "button_count seat1 button + int (length devices) \<le> INT_MAX"
    using assms(3) by (simp add: c)
  have "notify_button_from (input_device # devices) button state seat =
          seat1\<lparr>button_count :=
             (button_count seat1)(button := button_count seat1 button + int (length devices))\<rparr>"
    unfolding notify_button_from_Cons seat1_def [symmetric]
    using assms(1) c1 b1 by (rule presses_only_count)
  then show ?thesis
    using q c by simp
qed

lemma releases_only_count:
  assumes "button_count seat button = int (length devices) + c" and "1 \<le> c"
    and "button_count seat button \<le> INT_MAX"
  shows "notify_button_from devices button 0 seat =
           seat\<lparr>button_count := (button_count seat)(button := c)\<rparr>"
  using assms(1,3)
proof (induction devices arbitrary: seat)
  case Nil
  then have "(button_count seat)(button := c) = button_count seat" by auto
  then show ?case by (simp add: notify_button_from_def)
next
  case (Cons d devices)
  define seat1 where
    "seat1 = seat\<lparr>button_count := (button_count seat)(button := int (length devices) + c)\<rparr>"
  have s1: "meta_seat_native_notify_button seat d button 0 = seat1"
    unfolding seat1_def
    using notify_button_dropped_release [of seat button d] Cons.prems assms(2)
    by simp
  have c1: "button_count seat1 button = int (length devices) + c"
    by (simp add: seat1_def)
  have b1: "button_count seat1 button \<le> INT_MAX"
    using Cons.prems by (simp add: seat1_def)
  have "notify_button_from (d # devices) button 0 seat =
          notify_button_from devices button 0 seat1"
    by (simp only: notify_button_from_Cons s1)
  also have "\<dots> = seat1\<lparr>button_count := (button_count seat1)(button := c)\<rparr>"
    by (rule Cons.IH [OF c1 b1])
  also have "\<dots> = seat\<lparr>button_count := (button_count seat)(button := c)\<rparr>"
    by (simp add: seat1_def)
  finally show ?case .
qed

lemma releases_collapse:
  assumes "button_count seat button = int (length devices) + 1"
    and "button_count seat button \<le> INT_MAX"
  shows "\<exists>code mods.
           event_queue (notify_button_from (devices @ [input_device]) button 0 seat) =
             event_queue seat @
               (if button_forwarded input_device button
                then [ButtonEvent CLUTTER_BUTTON_RELEASE (button_number input_device button) code mods]
                else []) \<and>
           button_count (notify_button_from (devices @ [input_device]) button 0 seat) =
             (button_count seat)(button := 0)"
proof -
  define seat1 where "seat1 = seat\<lparr>button_count := (button_count seat)(button := 1)\<rparr>"
  have "notify_button_from devices button 0 seat = seat1"
    unfolding seat1_def
    by (rule releases_only_count) (use assms in simp_all)
  then have e: "notify_button_from (devices @ [input_device]) button 0 seat =
          meta_seat_native_notify_button seat1 input_device button 0"
    by (simp add: notify_button_from_snoc)
  have c1: "button_count seat1 button = 1" by (simp add: seat1_def)
  show ?thesis
    unfolding e
    using notify_button_last_release [OF c1, of input_device]
    by (simp add: seat1_def)
qed

lemma button_reports_bounds:
  assumes "\<forall>b. 0 \<le> button_count seat b \<and> button_count seat b \<le> n"
    and "n + int (length reports) \<le> INT_MAX"
  shows "\<forall>b. 0 \<le> button_count (button_reports seat reports) b \<and>
             button_count (button_reports seat reports) b \<le> n + int (length reports)"
  using assms
proof (induction reports arbitrary: seat n)
  case Nil
  then show ?case by simp
next
  case (Cons r reports)
  obtain input_device button state where r: "r = (input_device, button, state)"
    by (cases r)
  have lt: "n < INT_MAX"
    using Cons.prems(2) by simp
  have 1: "\<forall>b. 0 \<le> button_count (meta_seat_native_notify_button seat input_device button state) b \<and>
               button_count (meta_seat_native_notify_button seat input_device button state) b \<le> n + 1"
    unfolding notify_button_count using Cons.prems(1) lt by (rule update_button_count_bounds)
  have 2: "n + 1 + int (length reports) \<le> INT_MAX"
    using Cons.prems(2) by simp
  have "\<forall>b. 0 \<le> button_count (button_reports (meta_seat_native_notify_button seat input_device button state) reports) b \<and>
             button_count (button_reports (meta_seat_native_notify_button seat input_device button state) reports) b
               \<le> n + 1 + int (length reports)"
    using 1 2 by (rule Cons.IH)
  moreover have "n + 1 + int (length reports) = n + int (length (r # reports))"
    by simp
  ultimately show ?case
    unfolding r button_reports.simps by simp
qed

text \<open>
  Claim C5 says that N press reports of one button code forward exactly one press event
  and that the counter is never negative. The counter decides only which report passes
  the gate; behind the gate the report is dropped when its device has no stage or the code
  has no button number from 1 to 12. So two presses of the left button, the first from a
  device without a stage, forward nothing, and neither do two presses of code 0x118
  (button number 13) on two mice. And the counter is a C int: after 2147483647 presses of
  the left button it is \<^verbatim>\<open>INT_MAX\<close>, the next press takes it to \<^verbatim>\<open>INT_MIN\<close> and, the
  count not being above 1, is forwarded as a second press event.
\<close>

theorem button_press_lost_counterexample:
  "event_queue (notify_button_from [example_unstaged_mouse, example_mouse] BTN_LEFT 1
                  meta_seat_native_new) = [] \<and>
   button_count (notify_button_from [example_unstaged_mouse, example_mouse] BTN_LEFT 1
                   meta_seat_native_new) BTN_LEFT = 2 \<and>
   event_queue (notify_button_from [example_mouse, example_virtual_mouse] 0x118 1
                  meta_seat_native_new) = [] \<and>
   button_count (notify_button_from [example_mouse, example_virtual_mouse] 0x118 1
                   meta_seat_native_new) 0x118 = 2 \<and>
   button_count (notify_button_from (replicate 2147483647 example_mouse) BTN_LEFT 1
                   meta_seat_native_new) BTN_LEFT = 2147483647 \<and>
   button_count (meta_seat_native_notify_button
                   (notify_button_from (replicate 2147483647 example_mouse) BTN_LEFT 1
                      meta_seat_native_new)
                   example_mouse BTN_LEFT 1) BTN_LEFT = - 2147483648 \<and>
   event_queue (meta_seat_native_notify_button
                  (notify_button_from (replicate 2147483647 example_mouse) BTN_LEFT 1
                     meta_seat_native_new)
                  example_mouse BTN_LEFT 1) =
     [ButtonEvent CLUTTER_BUTTON_PRESS 1 BTN_LEFT 256, ButtonEvent CLUTTER_BUTTON_PRESS 1 BTN_LEFT 256]"
proof -
  have a: "notify_button_from [example_unstaged_mouse, example_mouse] BTN_LEFT 1 meta_seat_native_new =
             meta_seat_native_new\<lparr>button_count := (\<lambda>b. 0)(BTN_LEFT := 2)\<rparr>"
    by (simp add: notify_button_from_def meta_seat_native_notify_button_def update_button_count_def
        meta_seat_native_new_def example_unstaged_mouse_def example_mouse_def wrap_int_def)
  have b: "notify_button_from [example_mouse, example_virtual_mouse] 0x118 1 meta_seat_native_new =
             meta_seat_native_new\<lparr>button_count := (\<lambda>b. 0)(0x118 := 2)\<rparr>"
    by (simp add: notify_button_from_def meta_seat_native_notify_button_def update_button_count_def
        meta_seat_native_new_def example_virtual_mouse_def example_mouse_def wrap_int_def
        button_number_def BTN_LEFT_def BTN_RIGHT_def BTN_MIDDLE_def BTN_TOUCH_def BTN_STYLUS_def
        BTN_STYLUS2_def Let_def)
  define seat1 where
    "seat1 = meta_seat_native_new
       \<lparr>button_count := (\<lambda>b. 0)(BTN_LEFT := 1), button_state := 256,
        event_queue := [ButtonEvent CLUTTER_BUTTON_PRESS 1 BTN_LEFT 256]\<rparr>"
  have first_press: "meta_seat_native_notify_button meta_seat_native_new example_mouse BTN_LEFT 1 = seat1"
    by (simp add: meta_seat_native_notify_button_def update_button_count_def
        meta_seat_native_new_def example_mouse_def wrap_int_def seat1_def queue_event_def
        button_number_def CLUTTER_BUTTON_PRIMARY_def maskmap_def Let_def)
  have r: "replicate 2147483647 example_mouse = example_mouse # replicate 2147483646 example_mouse"
  proof -
    have "(2147483647::nat) = Suc 2147483646" by simp
    then show ?thesis by (simp only: replicate_Suc)
  qed
  have c1: "1 \<le> button_count seat1 BTN_LEFT"
    by (simp add: seat1_def)
  have b1: "button_count seat1 BTN_LEFT + int (length (replicate 2147483646 example_mouse)) \<le> INT_MAX"
    by (simp add: seat1_def INT_MAX_def)
  have "notify_button_from (replicate 2147483647 example_mouse) BTN_LEFT 1 meta_seat_native_new =
          notify_button_from (replicate 2147483646 example_mouse) BTN_LEFT 1 seat1"
    by (simp only: r notify_button_from_Cons first_press)
  also have "\<dots> = seat1\<lparr>button_count := (button_count seat1)
               (BTN_LEFT := button_count seat1 BTN_LEFT +
                   int (length (replicate 2147483646 example_mouse)))\<rparr>"
    using _ c1 b1 by (rule presses_only_count) simp
  also have "\<dots> = seat1\<lparr>button_count := (\<lambda>b. 0)(BTN_LEFT := 2147483647)\<rparr>"
    by (simp add: seat1_def)
  finally have c: "notify_button_from (replicate 2147483647 example_mouse) BTN_LEFT 1
                     meta_seat_native_new =
                   seat1\<lparr>button_count := (\<lambda>b. 0)(BTN_LEFT := 2147483647)\<rparr>" .
  have d: "meta_seat_native_notify_button
             (seat1\<lparr>button_count := (\<lambda>b. 0)(BTN_LEFT := 2147483647)\<rparr>) example_mouse BTN_LEFT 1 =
           seat1\<lparr>button_count := (\<lambda>b. 0)(BTN_LEFT := - 2147483648),
                 event_queue := [ButtonEvent CLUTTER_BUTTON_PRESS 1 BTN_LEFT 256,
                                 ButtonEvent CLUTTER_BUTTON_PRESS 1 BTN_LEFT 256]\<rparr>"
    by (simp add: meta_seat_native_notify_button_def update_button_count_def
        example_mouse_def wrap_int_def seat1_def queue_event_def
        button_number_def CLUTTER_BUTTON_PRIMARY_def maskmap_def Let_def)
  show ?thesis
    unfolding a b c d by (simp add: meta_seat_native_new_def seat1_def)
qed

text \<open>
  Claim C5, amended. Take a button whose counter is 0 and N press reports of its code,
  \<open>1 \<le> N \<le> INT_MAX\<close>, from any devices, with no release between them: only the first
  report (the one that finds the counter at 0) passes the counting gate, and the counter
  is N. It queues one press event when its device has a stage and the code has a button
  number from 1 to 12, and nothing otherwise. Of the N matching release reports only the
  last one (the one that brings the counter to 0) passes the gate, and queues one release
  event under the same condition on its device. A press that finds a counter from 1 to
  \<open>INT_MAX - 1\<close> and a release that finds 2 or more queue nothing. A release for a
  counter that is 0 leaves it 0, and after a run of at most \<^verbatim>\<open>INT_MAX\<close> reports on a new
  seat no counter is negative.
\<close>

theorem button_reports_collapse:
  "(state \<noteq> 0 \<and> button_count seat button = 0 \<and> length releasing = length pressing \<and>
    int (length pressing) < INT_MAX \<longrightarrow>
      (\<exists>code mods code' mods'.
         event_queue (notify_button_from (first_dev # pressing) button state seat) =
           event_queue seat @
             (if button_forwarded first_dev button
              then [ButtonEvent CLUTTER_BUTTON_PRESS (button_number first_dev button) code mods]
              else []) \<and>
         button_count (notify_button_from (first_dev # pressing) button state seat) button =
           int (length (first_dev # pressing)) \<and>
         event_queue (notify_button_from (releasing @ [last_dev]) button 0
                        (notify_button_from (first_dev # pressing) button state seat)) =
           event_queue seat @
             (if button_forwarded first_dev button
              then [ButtonEvent CLUTTER_BUTTON_PRESS (button_number first_dev button) code mods]
              else []) @
             (if button_forwarded last_dev button
              then [ButtonEvent CLUTTER_BUTTON_RELEASE (button_number last_dev button) code' mods']
              else []) \<and>
         button_count (notify_button_from (releasing @ [last_dev]) button 0
                         (notify_button_from (first_dev # pressing) button state seat)) button = 0)) \<and>
   (state \<noteq> 0 \<and> 1 \<le> button_count seat button \<and> button_count seat button < INT_MAX \<longrightarrow>
      event_queue (meta_seat_native_notify_button seat input_device button state) = event_queue seat) \<and>
   (2 \<le> button_count seat button \<and> button_count seat button \<le> INT_MAX \<longrightarrow>
      event_queue (meta_seat_native_notify_button seat input_device button 0) = event_queue seat) \<and>
   (button_count seat button = 0 \<longrightarrow>
      fst (update_button_count seat button 0) = 0 \<and>
      button_count (meta_seat_native_notify_button seat input_device button 0) button = 0) \<and>
   (int (length reports) \<le> INT_MAX \<longrightarrow>
      (\<forall>b. 0 \<le> button_count (button_reports meta_seat_native_new reports) b))"
proof -
  have 1: "\<exists>code mods code' mods'.
         event_queue (notify_button_from (first_dev # pressing) button state seat) =
           event_queue seat @
             (if button_forwarded first_dev button
              then [ButtonEvent CLUTTER_BUTTON_PRESS (button_number first_dev button) code mods]
              else []) \<and>
         button_count (notify_button_from (first_dev # pressing) button state seat) button =
           int (length (first_dev # pressing)) \<and>
         event_queue (notify_button_from (releasing @ [last_dev]) button 0
                        (notify_button_from (first_dev # pressing) button state seat)) =
           event_queue seat @
             (if button_forwarded first_dev button
              then [ButtonEvent CLUTTER_BUTTON_PRESS (button_number first_dev button) code mods]
              else []) @
             (if button_forwarded last_dev button
              then [ButtonEvent CLUTTER_BUTTON_RELEASE (button_number last_dev button) code' mods']
              else []) \<and>
         button_count (notify_button_from (releasing @ [last_dev]) button 0
                         (notify_button_from (first_dev # pressing) button state seat)) button = 0"
    if a: "state \<noteq> 0" "button_count seat button = 0" "int (length pressing) < INT_MAX"
      and l: "length releasing = length pressing"
  proof -
    define pressed where "pressed = notify_button_from (first_dev # pressing) button state seat"
    obtain code mods where
      q: "event_queue pressed = event_queue seat @
             (if button_forwarded first_dev button
              then [ButtonEvent CLUTTER_BUTTON_PRESS (button_number first_dev button) code mods]
              else [])"
      and c: "button_count pressed = (button_count seat)(button := int (length (first_dev # pressing)))"
      unfolding pressed_def using presses_collapse [OF a] by blast
    have cb: "button_count pressed button = int (length releasing) + 1"
      by (simp add: c l)
    have bb: "button_count pressed button \<le> INT_MAX"
      using a(3) by (simp add: c)
    obtain code' mods' where
      q': "event_queue (notify_button_from (releasing @ [last_dev]) button 0 pressed) =
             event_queue pressed @
               (if button_forwarded last_dev button
                then [ButtonEvent CLUTTER_BUTTON_RELEASE (button_number last_dev button) code' mods']
                else [])"
      and c': "button_count (notify_button_from (releasing @ [last_dev]) button 0 pressed) =
             (button_count pressed)(button := 0)"
      using releases_collapse [OF cb bb] by blast
    have cp: "button_count pressed button = int (length (first_dev # pressing))"
      by (simp add: c)
    have cz: "button_count (notify_button_from (releasing @ [last_dev]) button 0 pressed) button = 0"
      by (simp add: c')
    show ?thesis
      unfolding pressed_def [symmetric]
      using q q' cp cz by (intro exI [of _ code] exI [of _ mods] exI [of _ code'] exI [of _ mods']) simp
  qed
  have 2: "state \<noteq> 0 \<and> 1 \<le> button_count seat button \<and> button_count seat button < INT_MAX \<longrightarrow>
      event_queue (meta_seat_native_notify_button seat input_device button state) = event_queue seat"
    by (simp add: notify_button_dropped_press)
  have 3: "2 \<le> button_count seat button \<and> button_count seat button \<le> INT_MAX \<longrightarrow>
      event_queue (meta_seat_native_notify_button seat input_device button 0) = event_queue seat"
    by (simp add: notify_button_dropped_release)
  have 4: "button_count seat button = 0 \<longrightarrow>
      fst (update_button_count seat button 0) = 0 \<and>
      button_count (meta_seat_native_notify_button seat input_device button 0) button = 0"
    by (simp add: notify_button_release_at_zero update_button_count_def)
  have 5: "\<forall>b. 0 \<le> button_count (button_reports meta_seat_native_new reports) b"
    if "int (length reports) \<le> INT_MAX"
    using button_reports_bounds [of meta_seat_native_new 0 reports] that
    by (simp add: meta_seat_native_new_def)
  show ?thesis using 1 2 3 4 5 by blast
qed

lemma example_mouse_left:
  "button_forwarded example_mouse BTN_LEFT" "button_number example_mouse BTN_LEFT = 1"
  "button_forwarded example_virtual_mouse BTN_LEFT" "button_number example_virtual_mouse BTN_LEFT = 1"
  "\<not> button_forwarded example_unstaged_mouse BTN_LEFT"
  by (simp_all add: example_mouse_def example_virtual_mouse_def example_unstaged_mouse_def
      button_number_def button_forwarded_def CLUTTER_BUTTON_PRIMARY_def)

text \<open>
  The amended C5 for the left button (code 0x110, button number 1): pressed on two
  devices with a stage, then released on both, it queues one press and one release;
  pressed first on a device without a stage and released last on one with a stage, it
  queues the release alone.
\<close>

theorem button_reports_collapse_witness:
  "(\<exists>code mods code' mods'.
     event_queue (notify_button_from [example_mouse, example_virtual_mouse] BTN_LEFT 1
                    meta_seat_native_new) =
       [ButtonEvent CLUTTER_BUTTON_PRESS 1 code mods] \<and>
     button_count (notify_button_from [example_mouse, example_virtual_mouse] BTN_LEFT 1
                     meta_seat_native_new) BTN_LEFT = 2 \<and>
     event_queue (notify_button_from [example_mouse, example_virtual_mouse] BTN_LEFT 0
                    (notify_button_from [example_mouse, example_virtual_mouse] BTN_LEFT 1
                       meta_seat_native_new)) =
       [ButtonEvent CLUTTER_BUTTON_PRESS 1 code mods, ButtonEvent CLUTTER_BUTTON_RELEASE 1 code' mods'] \<and>
     button_count (notify_button_from [example_mouse, example_virtual_mouse] BTN_LEFT 0
                     (notify_button_from [example_mouse, example_virtual_mouse] BTN_LEFT 1
                        meta_seat_native_new)) BTN_LEFT = 0) \<and>
   (\<exists>code' mods'.
     event_queue (notify_button_from [example_unstaged_mouse, example_mouse] BTN_LEFT 1
                    meta_seat_native_new) = [] \<and>
     event_queue (notify_button_from [example_unstaged_mouse, example_mouse] BTN_LEFT 0
                    (notify_button_from [example_unstaged_mouse, example_mouse] BTN_LEFT 1
                       meta_seat_native_new)) =
       [ButtonEvent CLUTTER_BUTTON_RELEASE 1 code' mods'])"
proof -
  have z: "button_count meta_seat_native_new BTN_LEFT = 0" "event_queue meta_seat_native_new = []"
    "int (length [example_virtual_mouse]) < INT_MAX" "int (length [example_mouse]) < INT_MAX"
    by (simp_all add: meta_seat_native_new_def INT_MAX_def)
  have 1: "\<exists>code mods code' mods'.
     event_queue (notify_button_from [example_mouse, example_virtual_mouse] BTN_LEFT 1
                    meta_seat_native_new) =
       [ButtonEvent CLUTTER_BUTTON_PRESS 1 code mods] \<and>
     button_count (notify_button_from [example_mouse, example_virtual_mouse] BTN_LEFT 1
                     meta_seat_native_new) BTN_LEFT = 2 \<and>
     event_queue (notify_button_from [example_mouse, example_virtual_mouse] BTN_LEFT 0
                    (notify_button_from [example_mouse, example_virtual_mouse] BTN_LEFT 1
                       meta_seat_native_new)) =
       [ButtonEvent CLUTTER_BUTTON_PRESS 1 code mods, ButtonEvent CLUTTER_BUTTON_RELEASE 1 code' mods'] \<and>
     button_count (notify_button_from [example_mouse, example_virtual_mouse] BTN_LEFT 0
                     (notify_button_from [example_mouse, example_virtual_mouse] BTN_LEFT 1
                        meta_seat_native_new)) BTN_LEFT = 0"
    using button_reports_collapse
      [where state = 1 and seat = meta_seat_native_new and button = BTN_LEFT
         and first_dev = example_mouse and pressing = "[example_virtual_mouse]"
         and releasing = "[example_mouse]" and last_dev = example_virtual_mouse]
      z example_mouse_left
    by simp
  have 2: "\<exists>code' mods'.
     event_queue (notify_button_from [example_unstaged_mouse, example_mouse] BTN_LEFT 1
                    meta_seat_native_new) = [] \<and>
     event_queue (notify_button_from [example_unstaged_mouse, example_mouse] BTN_LEFT 0
                    (notify_button_from [example_unstaged_mouse, example_mouse] BTN_LEFT 1
                       meta_seat_native_new)) =
       [ButtonEvent CLUTTER_BUTTON_RELEASE 1 code' mods']"
    using button_reports_collapse
      [where state = 1 and seat = meta_seat_native_new and button = BTN_LEFT
         and first_dev = example_unstaged_mouse and pressing = "[example_mouse]"
         and releasing = "[example_unstaged_mouse]" and last_dev = example_mouse]
      z example_mouse_left
    by simp
  show ?thesis using 1 2 by (rule conjI)
qed

subsection \<open>Scroll\<close>

text \<open>
  The exponent found by \<open>ilog2\<close> is the right one, rounding is off by half a unit in the
  last place at most, and a number that fits the significand is not rounded.
\<close>

lemma ilog2_lower:
  assumes "0 < x"
  shows "2 powi (ilog2 x) \<le> x"
proof (cases "1 \<le> x")
  case True
  then have p: "0 < \<lfloor>x\<rfloor>" by simp
  have "bitlen \<lfloor>x\<rfloor> \<ge> 1"
    using p by (simp add: bitlen_alt_def)
  then have e: "ilog2 x = int (nat (bitlen \<lfloor>x\<rfloor> - 1))"
    using True by (simp add: ilog2_def)
  have "(2::int) ^ nat (bitlen \<lfloor>x\<rfloor> - 1) \<le> \<lfloor>x\<rfloor>"
    using bitlen_bounds [OF p] by simp
  then have "real_of_int (2 ^ nat (bitlen \<lfloor>x\<rfloor> - 1)) \<le> real_of_int \<lfloor>x\<rfloor>"
    by (simp only: of_int_le_iff)
  also have "\<dots> \<le> x" by simp
  finally have "(2::real) ^ nat (bitlen \<lfloor>x\<rfloor> - 1) \<le> x" by simp
  then show ?thesis
    unfolding e power_int_of_nat .
next
  case False
  then have x1: "x < 1" by simp
  define m where "m = \<lceil>1 / x\<rceil> - 1"
  have "1 < 1 / x" using assms x1 by simp
  then have "1 < \<lceil>1 / x\<rceil>" by (simp add: less_ceiling_iff)
  then have mp: "0 < m" by (simp add: m_def)
  have b: "bitlen m \<ge> 1" using mp by (simp add: bitlen_alt_def)
  have e: "ilog2 x = - bitlen m"
    using False by (simp add: ilog2_def m_def)
  have "m < 2 ^ nat (bitlen m)"
    using bitlen_bounds [OF mp] by simp
  then have "m + 1 \<le> 2 ^ nat (bitlen m)" by simp
  then have "real_of_int (m + 1) \<le> real_of_int (2 ^ nat (bitlen m))"
    by (simp only: of_int_le_iff)
  moreover have "1 / x \<le> real_of_int (m + 1)"
    by (simp add: m_def)
  ultimately have "1 / x \<le> real_of_int (2 ^ nat (bitlen m))" by linarith
  then have "1 / x \<le> 2 ^ nat (bitlen m)" by simp
  then have "1 \<le> 2 ^ nat (bitlen m) * x"
    using assms by (simp add: field_simps)
  then have "1 / 2 ^ nat (bitlen m) \<le> x"
    by (simp add: field_simps)
  moreover have "2 powi (- bitlen m) = 1 / (2::real) ^ nat (bitlen m)"
    using b by (simp add: power_int_def field_simps)
  ultimately show ?thesis
    unfolding e by simp
qed

lemma ilog2_upper:
  assumes "0 < x"
  shows "x < 2 powi (ilog2 x + 1)"
proof (cases "1 \<le> x")
  case True
  then have p: "0 < \<lfloor>x\<rfloor>" by simp
  have b: "bitlen \<lfloor>x\<rfloor> \<ge> 1"
    using p by (simp add: bitlen_alt_def)
  then have e: "ilog2 x + 1 = int (nat (bitlen \<lfloor>x\<rfloor>))"
    using True by (simp add: ilog2_def)
  have "\<lfloor>x\<rfloor> < 2 ^ nat (bitlen \<lfloor>x\<rfloor>)"
    using bitlen_bounds [OF p] by simp
  then have "\<lfloor>x\<rfloor> + 1 \<le> 2 ^ nat (bitlen \<lfloor>x\<rfloor>)" by simp
  then have "real_of_int (\<lfloor>x\<rfloor> + 1) \<le> real_of_int (2 ^ nat (bitlen \<lfloor>x\<rfloor>))"
    by (simp only: of_int_le_iff)
  moreover have "x < real_of_int (\<lfloor>x\<rfloor> + 1)" by linarith
  ultimately have "x < real_of_int (2 ^ nat (bitlen \<lfloor>x\<rfloor>))" by linarith
  then have "x < (2::real) ^ nat (bitlen \<lfloor>x\<rfloor>)" by simp
  then show ?thesis
    unfolding e power_int_of_nat .
next
  case False
  then have x1: "x < 1" by simp
  define m where "m = \<lceil>1 / x\<rceil> - 1"
  have "1 < 1 / x" using assms x1 by simp
  then have "1 < \<lceil>1 / x\<rceil>" by (simp add: less_ceiling_iff)
  then have mp: "0 < m" by (simp add: m_def)
  have b: "bitlen m \<ge> 1" using mp by (simp add: bitlen_alt_def)
  have e: "ilog2 x + 1 = - int (nat (bitlen m - 1))"
    using False b by (simp add: ilog2_def m_def)
  have "(2::int) ^ nat (bitlen m - 1) \<le> m"
    using bitlen_bounds [OF mp] by simp
  then have "real_of_int (2 ^ nat (bitlen m - 1)) \<le> real_of_int m"
    by (simp only: of_int_le_iff)
  moreover have "real_of_int m < 1 / x"
    unfolding m_def by linarith
  ultimately have "real_of_int (2 ^ nat (bitlen m - 1)) < 1 / x" by linarith
  then have "2 ^ nat (bitlen m - 1) < 1 / x" by simp
  then have "2 ^ nat (bitlen m - 1) * x < 1"
    using assms by (simp add: field_simps)
  then have "x < 1 / 2 ^ nat (bitlen m - 1)"
    by (simp add: field_simps)
  moreover have "2 powi (- int (nat (bitlen m - 1))) = 1 / (2::real) ^ nat (bitlen m - 1)"
    by (simp add: power_int_def field_simps)
  ultimately show ?thesis
    unfolding e by simp
qed

lemma ilog2_less:
  assumes "0 < x" and "x < 2 powi b"
  shows "ilog2 x < b"
proof (rule ccontr)
  assume "\<not> ilog2 x < b"
  then have "b \<le> ilog2 x" by simp
  then have "(2::real) powi b \<le> 2 powi (ilog2 x)"
    by (rule power_int_increasing) simp
  also have "\<dots> \<le> x" using assms(1) by (rule ilog2_lower)
  finally show False using assms(2) by simp
qed

lemma ilog2_eqI:
  assumes "2 powi k \<le> x" and "x < 2 powi (k + 1)"
  shows "ilog2 x = k"
proof -
  have "(0::real) < 2 powi k" by (simp add: zero_less_power_int)
  then have p: "0 < x" using assms(1) by linarith
  have 1: "ilog2 x < k + 1" using p assms(2) by (rule ilog2_less)
  have 2: "k \<le> ilog2 x"
  proof (rule ccontr)
    assume "\<not> k \<le> ilog2 x"
    then have "ilog2 x + 1 \<le> k" by simp
    then have "(2::real) powi (ilog2 x + 1) \<le> 2 powi k"
      by (rule power_int_increasing) simp
    moreover have "x < 2 powi (ilog2 x + 1)" using p by (rule ilog2_upper)
    ultimately show False using assms(1) by linarith
  qed
  show ?thesis using 1 2 by simp
qed

lemma round_to_even_of_int: "round_to_even (of_int m) = m"
  by (simp add: round_to_even_def)

lemma round_to_even_error: "\<bar>of_int (round_to_even y) - y\<bar> \<le> 1 / 2"
proof -
  have "of_int \<lfloor>y\<rfloor> \<le> y" "y < of_int \<lfloor>y\<rfloor> + 1" by linarith+
  then show ?thesis
    by (auto simp: round_to_even_def Let_def)
qed

lemma ieee_round_error:
  assumes "x \<noteq> 0"
  shows "\<bar>ieee_round p emin x - x\<bar> \<le> 2 powi (max (ilog2 \<bar>x\<bar>) emin - (int p - 1)) / 2"
proof -
  define u :: real where "u = 2 powi (max (ilog2 \<bar>x\<bar>) emin - (int p - 1))"
  have u: "0 < u" by (simp add: u_def zero_less_power_int)
  have "ieee_round p emin x = of_int (round_to_even (x / u)) * u"
    using assms by (simp add: ieee_round_def Let_def u_def)
  then have "ieee_round p emin x - x = (of_int (round_to_even (x / u)) - x / u) * u"
    using u by (simp add: field_simps)
  then have "\<bar>ieee_round p emin x - x\<bar> = \<bar>of_int (round_to_even (x / u)) - x / u\<bar> * u"
    using u by (simp add: abs_mult)
  also have "\<dots> \<le> (1 / 2) * u"
    using round_to_even_error [of "x / u"] u by (intro mult_right_mono) simp_all
  finally show ?thesis by (simp add: u_def)
qed

lemma ieee_round_exact:
  assumes "x * 2 ^ g = of_int m" and "\<bar>x\<bar> < 2 ^ b" and "b + g \<le> p"
    and "emin + int g \<le> int p - 1"
  shows "ieee_round p emin x = x"
proof (cases "x = 0")
  case True
  then show ?thesis by (simp add: ieee_round_def)
next
  case False
  define e where "e = max (ilog2 \<bar>x\<bar>) emin"
  define u :: real where "u = 2 powi (e - (int p - 1))"
  have "\<bar>x\<bar> < 2 powi (int b)"
    using assms(2) by (simp only: power_int_of_nat)
  then have "ilog2 \<bar>x\<bar> < int b"
    using False by (intro ilog2_less) simp_all
  then have e: "e \<le> int p - 1 - int g"
    using assms(3,4) by (simp add: e_def)
  define j where "j = nat (int p - 1 - e - int g)"
  have ej: "e - (int p - 1) = - int (j + g)"
    using e by (simp add: j_def)
  have "u = 1 / 2 ^ (j + g)"
    unfolding u_def ej by (simp only: power_int_minus_divide power_int_of_nat)
  then have "u = 1 / (2 ^ j * 2 ^ g)"
    by (simp only: power_add)
  then have "x / u = (x * 2 ^ g) * 2 ^ j"
    by simp
  then have xu: "x / u = of_int (m * 2 ^ j)"
    unfolding assms(1) by simp
  have "0 < u" by (simp add: u_def zero_less_power_int)
  then have ux: "of_int (m * 2 ^ j) * u = x"
    unfolding xu [symmetric] by simp
  have "ieee_round p emin x = of_int (round_to_even (x / u)) * u"
    using False by (simp add: ieee_round_def Let_def e_def u_def)
  also have "\<dots> = x"
    unfolding xu round_to_even_of_int by (rule ux)
  finally show ?thesis .
qed

text \<open>Multiples of 1/1024 below 16384 are floats, and their step counts are exact.\<close>

lemma on_grid_iff: "on_grid x \<longleftrightarrow> (\<exists>m. x * 1024 = of_int m)"
  by (auto simp: on_grid_def)

lemma on_grid_add: "on_grid a \<Longrightarrow> on_grid b \<Longrightarrow> on_grid (a + b)"
proof -
  assume "on_grid a" "on_grid b"
  then obtain m n where "a * 1024 = of_int m" "b * 1024 = of_int n"
    unfolding on_grid_iff by blast
  then have "(a + b) * 1024 = of_int (m + n)"
    by (simp add: algebra_simps)
  then show ?thesis unfolding on_grid_iff ..
qed

lemma on_grid_minus: "on_grid a \<Longrightarrow> on_grid (- a)"
proof -
  assume "on_grid a"
  then obtain m where "a * 1024 = of_int m"
    unfolding on_grid_iff by blast
  then have "(- a) * 1024 = of_int (- m)"
    by simp
  then show ?thesis unfolding on_grid_iff ..
qed

lemma on_grid_abs: "on_grid a \<Longrightarrow> on_grid \<bar>a\<bar>"
  using on_grid_minus [of a] by (cases "0 \<le> a") simp_all

lemma on_grid_tens: "on_grid (10 * of_int k)"
proof -
  have "(10 * of_int k) * 1024 = (of_int (10240 * k) :: real)"
    by simp
  then show ?thesis unfolding on_grid_iff ..
qed

lemma on_grid_diff: "on_grid a \<Longrightarrow> on_grid b \<Longrightarrow> on_grid (a - b)"
  using on_grid_add [of a "- b"] on_grid_minus [of b] by simp

lemma to_float_exact:
  assumes "on_grid x" and "\<bar>x\<bar> < 16384"
  shows "to_float x = x"
proof -
  obtain m where "x * 1024 = of_int m"
    using assms(1) unfolding on_grid_iff ..
  then have 1: "x * 2 ^ 10 = of_int m" by simp
  have 2: "\<bar>x\<bar> < 2 ^ 14" using assms(2) by simp
  show ?thesis
    unfolding to_float_def using 1 2 by (rule ieee_round_exact) simp_all
qed

lemma to_double_exact:
  assumes "on_grid x" and "\<bar>x\<bar> < 16384"
  shows "to_double x = x"
proof -
  obtain m where "x * 1024 = of_int m"
    using assms(1) unfolding on_grid_iff ..
  then have 1: "x * 2 ^ 10 = of_int m" by simp
  have 2: "\<bar>x\<bar> < 2 ^ 14" using assms(2) by simp
  show ?thesis
    unfolding to_double_def using 1 2 by (rule ieee_round_exact) simp_all
qed

lemma accumulate_exact:
  assumes "exact_residue a" and "exact_delta d"
  shows "accumulate a d = a + d"
proof -
  have g: "on_grid (a + d)"
    using assms by (simp add: exact_residue_def exact_delta_def on_grid_add)
  have b: "\<bar>a + d\<bar> < 16384"
    using assms unfolding exact_residue_def exact_delta_def by linarith
  show ?thesis
    by (simp add: accumulate_def to_double_exact [OF g b] to_float_exact [OF g b])
qed

lemma to_double_of_int:
  assumes "\<bar>k\<bar> < 2048"
  shows "to_double (of_int k) = of_int k"
proof -
  have 1: "real_of_int k * 2 ^ 0 = of_int k" by simp
  have 2: "\<bar>real_of_int k\<bar> < 2 ^ 11"
  proof -
    have "real_of_int \<bar>k\<bar> < real_of_int 2048" using assms by (simp only: of_int_less_iff)
    then show ?thesis by simp
  qed
  show ?thesis
    unfolding to_double_def using 1 2 by (rule ieee_round_exact) simp_all
qed

lemma to_double_error:
  assumes "0 < q" and "q < 2048"
  shows "\<bar>to_double q - q\<bar> < 1 / 20480"
proof -
  have "q < 2 powi 11" using assms(2) by simp
  then have "ilog2 q < 11" using assms(1) by (intro ilog2_less)
  then have "max (ilog2 \<bar>q\<bar>) (- 1022) - (int 53 - 1) \<le> - 42"
    using assms(1) by simp
  then have "(2::real) powi (max (ilog2 \<bar>q\<bar>) (- 1022) - (int 53 - 1)) \<le> 2 powi (- 42)"
    by (rule power_int_increasing) simp
  moreover have "\<bar>to_double q - q\<bar> \<le> 2 powi (max (ilog2 \<bar>q\<bar>) (- 1022) - (int 53 - 1)) / 2"
    unfolding to_double_def using assms(1) by (intro ieee_round_error) simp
  moreover have "(2::real) powi (- 42) / 2 < 1 / 20480"
    by (simp add: power_int_minus_divide)
  ultimately show ?thesis by linarith
qed

lemma n_scrolls_exact:
  assumes "on_grid s" and "\<bar>s\<bar> < 16384"
  shows "n_scrolls s = \<lfloor>\<bar>s\<bar> / 10\<rfloor>"
proof -
  define q where "q = \<bar>s\<bar> / 10"
  define k where "k = \<lfloor>q\<rfloor>"
  obtain m where m: "\<bar>s\<bar> * 1024 = of_int m"
    using on_grid_abs [OF assms(1)] unfolding on_grid_iff ..
  have q0: "0 \<le> q" and q1: "q < 2048"
    using assms(2) by (simp_all add: q_def)
  have k0: "0 \<le> k" using q0 by (simp add: k_def)
  have kq: "of_int k \<le> q" "q < of_int k + 1"
    unfolding k_def by linarith+
  have mq: "of_int m = 10240 * q"
    using m by (simp add: q_def)
  have "\<lfloor>to_double q\<rfloor> = k"
  proof (cases "q = of_int k")
    case True
    have "\<bar>k\<bar> < 2048"
      using k0 kq(1) q1 by linarith
    then show ?thesis
      unfolding True by (simp add: to_double_of_int)
  next
    case False
    then have lt: "of_int k < q" using kq(1) by simp
    then have "real_of_int (10240 * k) < real_of_int m"
      unfolding mq by simp
    then have "10240 * k < m" by (simp only: of_int_less_iff)
    then have "10240 * k + 1 \<le> m" by simp
    then have "real_of_int (10240 * k + 1) \<le> real_of_int m" by (simp only: of_int_le_iff)
    then have lo: "of_int k + 1 / 10240 \<le> q"
      unfolding mq by simp
    have "real_of_int m < real_of_int (10240 * (k + 1))"
      unfolding mq using kq(2) by simp
    then have "m < 10240 * (k + 1)" by (simp only: of_int_less_iff)
    then have "m \<le> 10240 * (k + 1) - 1" by simp
    then have "real_of_int m \<le> real_of_int (10240 * (k + 1) - 1)" by (simp only: of_int_le_iff)
    then have hi: "q \<le> of_int k + 1 - 1 / 10240"
      unfolding mq by simp
    have qp: "0 < q" using lt k0 by linarith
    have "\<bar>to_double q - q\<bar> < 1 / 20480"
      using qp q1 by (rule to_double_error)
    then have "of_int k \<le> to_double q" "to_double q < of_int k + 1"
      using lo hi by linarith+
    then show ?thesis by linarith
  qed
  then show ?thesis
    by (simp add: n_scrolls_def DISCRETE_SCROLL_STEP_def q_def k_def)
qed

lemma discrete_repeat:
  assumes "device_stage device \<noteq> None" and "direction \<noteq> CLUTTER_SCROLL_SMOOTH"
  shows "(notify_discrete_scroll device direction emulated ^^ n) seat =
           seat\<lparr>event_queue := event_queue seat @
                    replicate n (DiscreteScrollEvent direction emulated)\<rparr>"
proof (induction n)
  case 0
  then show ?case by simp
next
  case (Suc n)
  obtain stg where s: "device_stage device = Some stg"
    using assms(1) by blast
  have "(notify_discrete_scroll device direction emulated ^^ Suc n) seat =
          notify_discrete_scroll device direction emulated
            (seat\<lparr>event_queue := event_queue seat @
                    replicate n (DiscreteScrollEvent direction emulated)\<rparr>)"
    by (simp add: Suc)
  also have "\<dots> = seat\<lparr>event_queue := (event_queue seat @
                    replicate n (DiscreteScrollEvent direction emulated)) @
                    [DiscreteScrollEvent direction emulated]\<rparr>"
    using assms(2) by (simp add: notify_discrete_scroll_def queue_event_def s)
  also have "\<dots> = seat\<lparr>event_queue := event_queue seat @
                    replicate (Suc n) (DiscreteScrollEvent direction emulated)\<rparr>"
    by (simp add: replicate_append_same)
  finally show ?case .
qed

text \<open>One report without finish flag on a device with a stage.\<close>

lemma scroll_step:
  assumes st: "device_stage device \<noteq> None"
    and nx: "n_scrolls (accumulate (accum_scroll_dx seat) sdx) \<le> INT_MAX"
    and ny: "n_scrolls (accumulate (accum_scroll_dy seat) sdy) \<le> INT_MAX"
  shows "meta_seat_native_notify_scroll_continuous seat device sdx sdy CLUTTER_SCROLL_FINISHED_NONE =
     Some (seat\<lparr>accum_scroll_dx := fmodf (accumulate (accum_scroll_dx seat) sdx) 10,
                accum_scroll_dy := fmodf (accumulate (accum_scroll_dy seat) sdy) 10,
                event_queue := event_queue seat @
                  [SmoothScrollEvent (to_double (to_double (1 / 10) * sdx))
                     (to_double (to_double (1 / 10) * sdy)) 0 False] @
                  replicate (nat (n_scrolls (accumulate (accum_scroll_dx seat) sdx)))
                    (DiscreteScrollEvent
                       (if accumulate (accum_scroll_dx seat) sdx > 0 then CLUTTER_SCROLL_RIGHT
                        else CLUTTER_SCROLL_LEFT) True) @
                  replicate (nat (n_scrolls (accumulate (accum_scroll_dy seat) sdy)))
                    (DiscreteScrollEvent
                       (if accumulate (accum_scroll_dy seat) sdy > 0 then CLUTTER_SCROLL_DOWN
                        else CLUTTER_SCROLL_UP) True)\<rparr>)"
proof -
  obtain stg where s: "device_stage device = Some stg"
    using st by blast
  define sx where "sx = accumulate (accum_scroll_dx seat) sdx"
  define sy where "sy = accumulate (accum_scroll_dy seat) sdy"
  define smooth where
    "smooth = SmoothScrollEvent (to_double (to_double (1 / 10) * sdx))
                (to_double (to_double (1 / 10) * sdy)) 0 False"
  define seat3 where
    "seat3 = seat\<lparr>accum_scroll_dx := sx, accum_scroll_dy := sy,
                   event_queue := event_queue seat @ [smooth]\<rparr>"
  have 1: "meta_seat_native_notify_scroll_continuous seat device sdx sdy CLUTTER_SCROLL_FINISHED_NONE =
          check_notify_discrete_scroll seat3 device"
    by (simp add: meta_seat_native_notify_scroll_continuous_def CLUTTER_SCROLL_FINISHED_NONE_def
        notify_scroll_def queue_event_def s Let_def seat3_def sx_def sy_def smooth_def
        DISCRETE_SCROLL_STEP_def)
  have a: "accum_scroll_dx seat3 = sx" "accum_scroll_dy seat3 = sy"
    by (simp_all add: seat3_def)
  have dx: "(if sx > 0 then CLUTTER_SCROLL_RIGHT else CLUTTER_SCROLL_LEFT) \<noteq> CLUTTER_SCROLL_SMOOTH"
    and dy: "(if sy > 0 then CLUTTER_SCROLL_DOWN else CLUTTER_SCROLL_UP) \<noteq> CLUTTER_SCROLL_SMOOTH"
    by simp_all
  have 2: "check_notify_discrete_scroll seat3 device =
          Some (seat3\<lparr>event_queue := (event_queue seat3 @
                    replicate (nat (n_scrolls sx))
                      (DiscreteScrollEvent
                         (if sx > 0 then CLUTTER_SCROLL_RIGHT else CLUTTER_SCROLL_LEFT) True)) @
                    replicate (nat (n_scrolls sy))
                      (DiscreteScrollEvent
                         (if sy > 0 then CLUTTER_SCROLL_DOWN else CLUTTER_SCROLL_UP) True),
                  accum_scroll_dx := fmodf sx 10, accum_scroll_dy := fmodf sy 10\<rparr>)"
    using nx ny
    unfolding check_notify_discrete_scroll_def Let_def a sx_def [symmetric] sy_def [symmetric]
      discrete_repeat [OF st dx] discrete_repeat [OF st dy] DISCRETE_SCROLL_STEP_def
    by (simp add: a)
  show ?thesis
    unfolding 1 2 sx_def [symmetric] sy_def [symmetric] smooth_def [symmetric]
    by (simp add: seat3_def)
qed

lemma discrete_events_append:
  "discrete_events directions (seat\<lparr>event_queue := q @ r\<rparr>) =
     discrete_events directions (seat\<lparr>event_queue := q\<rparr>) @
     discrete_events directions (seat\<lparr>event_queue := r\<rparr>)"
  by (simp add: discrete_events_def)

lemma discrete_events_replicate:
  "discrete_events directions (seat\<lparr>event_queue := replicate n (DiscreteScrollEvent d e)\<rparr>) =
     (if d \<in> set directions then replicate n (DiscreteScrollEvent d e) else [])"
  by (induction n) (simp_all add: discrete_events_def)

lemma discrete_events_step:
  "discrete_events horizontal
     (seat\<lparr>accum_scroll_dx := ax, accum_scroll_dy := ay,
           event_queue := event_queue seat @ [SmoothScrollEvent u v f e] @
             replicate nx (DiscreteScrollEvent (if px then CLUTTER_SCROLL_RIGHT else CLUTTER_SCROLL_LEFT) True) @
             replicate ny (DiscreteScrollEvent (if py then CLUTTER_SCROLL_DOWN else CLUTTER_SCROLL_UP) True)\<rparr>) =
   discrete_events horizontal seat @
     replicate nx (DiscreteScrollEvent (if px then CLUTTER_SCROLL_RIGHT else CLUTTER_SCROLL_LEFT) True)"
  "discrete_events vertical
     (seat\<lparr>accum_scroll_dx := ax, accum_scroll_dy := ay,
           event_queue := event_queue seat @ [SmoothScrollEvent u v f e] @
             replicate nx (DiscreteScrollEvent (if px then CLUTTER_SCROLL_RIGHT else CLUTTER_SCROLL_LEFT) True) @
             replicate ny (DiscreteScrollEvent (if py then CLUTTER_SCROLL_DOWN else CLUTTER_SCROLL_UP) True)\<rparr>) =
   discrete_events vertical seat @
     replicate ny (DiscreteScrollEvent (if py then CLUTTER_SCROLL_DOWN else CLUTTER_SCROLL_UP) True)"
  by (simp_all add: discrete_events_def horizontal_def vertical_def)

lemma fmodf_nonneg: "0 \<le> x \<Longrightarrow> fmodf x 10 = x - 10 * of_int \<lfloor>x / 10\<rfloor>"
  by (simp add: fmodf_def)

lemma fmodf_minus: "fmodf (- x) 10 = - fmodf x 10"
proof -
  consider "x = 0" | "0 < x" | "x < 0" by linarith
  then show ?thesis
  proof cases
    case 1
    then show ?thesis by (simp add: fmodf_def)
  next
    case 2
    then have "\<not> 0 \<le> - x / 10" "0 \<le> x / 10" by simp_all
    then show ?thesis
      by (simp add: fmodf_def ceiling_minus)
  next
    case 3
    then have "0 \<le> - x / 10" "\<not> 0 \<le> x / 10" by simp_all
    then show ?thesis
      by (simp add: fmodf_def ceiling_def)
  qed
qed

lemma residue_range:
  fixes x :: real
  shows "0 \<le> x - 10 * of_int \<lfloor>x / 10\<rfloor>" and "x - 10 * of_int \<lfloor>x / 10\<rfloor> < 10"
proof -
  have "of_int \<lfloor>x / 10\<rfloor> \<le> x / 10" by (rule of_int_floor_le)
  then show "0 \<le> x - 10 * of_int \<lfloor>x / 10\<rfloor>" by simp
  have "x / 10 < of_int \<lfloor>x / 10\<rfloor> + 1" by linarith
  then have "x < 10 * (of_int \<lfloor>x / 10\<rfloor> + 1)" by (simp add: field_simps)
  then show "x - 10 * of_int \<lfloor>x / 10\<rfloor> < 10" by (simp add: algebra_simps)
qed

lemma fmodf_range_nonneg: "0 \<le> x \<Longrightarrow> 0 \<le> fmodf x 10 \<and> fmodf x 10 < 10"
  using residue_range [of x] by (simp add: fmodf_nonneg)

lemma fmodf_range_nonpos: "x \<le> 0 \<Longrightarrow> - 10 < fmodf x 10 \<and> fmodf x 10 \<le> 0"
  using fmodf_range_nonneg [of "- x"] by (simp add: fmodf_minus)

lemma fmodf_on_grid: "on_grid x \<Longrightarrow> on_grid (fmodf x 10)"
  unfolding fmodf_def by (intro on_grid_diff on_grid_tens)

lemma fmodf_small: "\<bar>x\<bar> < 10 \<Longrightarrow> fmodf x 10 = x"
proof (cases "0 \<le> x")
  case True
  assume "\<bar>x\<bar> < 10"
  with True have "\<lfloor>x / 10\<rfloor> = 0" by (simp add: floor_eq_iff)
  with True show ?thesis by (simp add: fmodf_nonneg)
next
  case False
  assume "\<bar>x\<bar> < 10"
  with False have "\<lfloor>- x / 10\<rfloor> = 0" by (simp add: floor_eq_iff)
  with False have "fmodf (- x) 10 = - x" by (simp add: fmodf_nonneg)
  then show ?thesis by (simp add: fmodf_minus)
qed

text \<open>
  Taking the tens out of a partial sum changes neither the number of tens of the total
  nor its remainder.
\<close>

lemma tens_split:
  fixes s r :: real
  assumes "0 \<le> s" and "0 \<le> r"
  shows "\<lfloor>(s + r) / 10\<rfloor> = \<lfloor>s / 10\<rfloor> + \<lfloor>(fmodf s 10 + r) / 10\<rfloor>"
    and "fmodf (fmodf s 10 + r) 10 = fmodf (s + r) 10"
proof -
  define k where "k = \<lfloor>s / 10\<rfloor>"
  have a: "fmodf s 10 = s - 10 * of_int k"
    using assms(1) by (simp add: fmodf_nonneg k_def)
  have a0: "0 \<le> fmodf s 10"
    using fmodf_range_nonneg [OF assms(1)] by simp
  have "(s + r) / 10 = (fmodf s 10 + r) / 10 + of_int k"
    unfolding a by (simp add: field_simps)
  then have "\<lfloor>(s + r) / 10\<rfloor> = \<lfloor>(fmodf s 10 + r) / 10 + of_int k\<rfloor>"
    by (simp only:)
  also have "\<dots> = \<lfloor>(fmodf s 10 + r) / 10\<rfloor> + k"
    by simp
  finally have f: "\<lfloor>(s + r) / 10\<rfloor> = \<lfloor>(fmodf s 10 + r) / 10\<rfloor> + k" .
  then show "\<lfloor>(s + r) / 10\<rfloor> = \<lfloor>s / 10\<rfloor> + \<lfloor>(fmodf s 10 + r) / 10\<rfloor>"
    by (simp add: k_def)
  have "fmodf (s + r) 10 = (s + r) - 10 * of_int \<lfloor>(s + r) / 10\<rfloor>"
    using assms by (simp add: fmodf_nonneg)
  also have "\<dots> = (fmodf s 10 + r) - 10 * of_int \<lfloor>(fmodf s 10 + r) / 10\<rfloor>"
    unfolding f by (simp add: a algebra_simps)
  also have "\<dots> = fmodf (fmodf s 10 + r) 10"
    using a0 assms(2) by (simp add: fmodf_nonneg)
  finally show "fmodf (fmodf s 10 + r) 10 = fmodf (s + r) 10" by simp
qed

lemma replicate_positive:
  fixes x :: real
  assumes "0 \<le> x"
  shows "replicate (nat \<lfloor>\<bar>x\<bar> / 10\<rfloor>) (E (0 < x)) = replicate (nat \<lfloor>x / 10\<rfloor>) (E True)"
proof (cases "0 < x")
  case True
  then show ?thesis by simp
next
  case False
  then have "x = 0" using assms by simp
  then show ?thesis by simp
qed

lemma replicate_negative:
  fixes x :: real
  assumes "x \<le> 0"
  shows "replicate (nat \<lfloor>\<bar>x\<bar> / 10\<rfloor>) (E (0 < x)) = replicate (nat \<lfloor>- x / 10\<rfloor>) (E False)"
  using assms by simp

lemma sum_list_nonneg_all: "list_all (\<lambda>d. 0 \<le> d) ds \<Longrightarrow> 0 \<le> (sum_list ds :: real)"
  by (induction ds) simp_all

lemma sum_list_nonpos_all: "list_all (\<lambda>d. d \<le> 0) ds \<Longrightarrow> (sum_list ds :: real) \<le> 0"
  by (induction ds) simp_all

text \<open>
  One axis, one report: the accumulator \<open>a\<close> and the deltas \<open>d # ds\<close> point in one
  direction. The steps of this report and those of the remaining reports are the steps
  of the total, and the final remainder is that of the total.
\<close>

lemma axis_step:
  fixes E :: "bool \<Rightarrow> 'a"
  assumes "same_direction a (d # ds)"
  shows "same_direction (fmodf (a + d) 10) ds"
    and "\<bar>fmodf (a + d) 10\<bar> < 10"
    and "replicate (nat \<lfloor>\<bar>a + d\<bar> / 10\<rfloor>) (E (0 < a + d)) @
         replicate (nat \<lfloor>\<bar>fmodf (a + d) 10 + sum_list ds\<bar> / 10\<rfloor>)
           (E (0 < fmodf (a + d) 10 + sum_list ds)) =
         replicate (nat \<lfloor>\<bar>a + d + sum_list ds\<bar> / 10\<rfloor>) (E (0 < a + d + sum_list ds))"
    and "fmodf (fmodf (a + d) 10 + sum_list ds) 10 = fmodf (a + d + sum_list ds) 10"
proof -
  define s where "s = a + d"
  define r where "r = sum_list ds"
  consider (pos) "0 \<le> a" "0 \<le> d" "list_all (\<lambda>d. 0 \<le> d) ds"
    | (neg) "a \<le> 0" "d \<le> 0" "list_all (\<lambda>d. d \<le> 0) ds"
    using assms by (auto simp: same_direction_def)
  then have all: "same_direction (fmodf s 10) ds \<and> \<bar>fmodf s 10\<bar> < 10 \<and>
       replicate (nat \<lfloor>\<bar>s\<bar> / 10\<rfloor>) (E (0 < s)) @
         replicate (nat \<lfloor>\<bar>fmodf s 10 + r\<bar> / 10\<rfloor>) (E (0 < fmodf s 10 + r)) =
         replicate (nat \<lfloor>\<bar>s + r\<bar> / 10\<rfloor>) (E (0 < s + r)) \<and>
       fmodf (fmodf s 10 + r) 10 = fmodf (s + r) 10"
  proof cases
    case pos
    have s0: "0 \<le> s" using pos by (simp add: s_def)
    have r0: "0 \<le> r" unfolding r_def using pos(3) by (rule sum_list_nonneg_all)
    have a': "0 \<le> fmodf s 10" "fmodf s 10 < 10"
      using fmodf_range_nonneg [OF s0] by simp_all
    have t': "0 \<le> fmodf s 10 + r" and t: "0 \<le> s + r"
      using a' r0 s0 by simp_all
    have f0: "0 \<le> \<lfloor>s / 10\<rfloor>" "0 \<le> \<lfloor>(fmodf s 10 + r) / 10\<rfloor>"
      using s0 t' by simp_all
    have 1: "same_direction (fmodf s 10) ds"
      using a' pos(3) by (simp add: same_direction_def)
    have 2: "\<bar>fmodf s 10\<bar> < 10" using a' by simp
    have "nat \<lfloor>(s + r) / 10\<rfloor> = nat \<lfloor>s / 10\<rfloor> + nat \<lfloor>(fmodf s 10 + r) / 10\<rfloor>"
      unfolding tens_split(1) [OF s0 r0] using f0 by (rule nat_add_distrib)
    then have 3: "replicate (nat \<lfloor>\<bar>s\<bar> / 10\<rfloor>) (E (0 < s)) @
         replicate (nat \<lfloor>\<bar>fmodf s 10 + r\<bar> / 10\<rfloor>) (E (0 < fmodf s 10 + r)) =
         replicate (nat \<lfloor>\<bar>s + r\<bar> / 10\<rfloor>) (E (0 < s + r))"
      unfolding replicate_positive [OF s0] replicate_positive [OF t'] replicate_positive [OF t]
      by (simp add: replicate_add)
    have 4: "fmodf (fmodf s 10 + r) 10 = fmodf (s + r) 10"
      using s0 r0 by (rule tens_split(2))
    show ?thesis using 1 2 3 4 by blast
  next
    case neg
    have s0: "0 \<le> - s" using neg by (simp add: s_def)
    have r0: "0 \<le> - r" unfolding r_def using sum_list_nonpos_all [OF neg(3)] by simp
    have a': "- 10 < fmodf s 10" "fmodf s 10 \<le> 0"
      using fmodf_range_nonpos [of s] s0 by simp_all
    have m: "fmodf (- s) 10 = - fmodf s 10" by (rule fmodf_minus)
    have t': "fmodf s 10 + r \<le> 0" and t: "s + r \<le> 0" and sn: "s \<le> 0"
      using a' r0 s0 by simp_all
    have f0: "0 \<le> \<lfloor>- s / 10\<rfloor>" "0 \<le> \<lfloor>(fmodf (- s) 10 + - r) / 10\<rfloor>"
      using s0 t' unfolding m by simp_all
    have 1: "same_direction (fmodf s 10) ds"
      using a' neg(3) by (simp add: same_direction_def)
    have 2: "\<bar>fmodf s 10\<bar> < 10" using a' by simp
    have c: "nat \<lfloor>(- s + - r) / 10\<rfloor> = nat \<lfloor>- s / 10\<rfloor> + nat \<lfloor>(fmodf (- s) 10 + - r) / 10\<rfloor>"
      unfolding tens_split(1) [OF s0 r0] using f0 by (rule nat_add_distrib)
    have x1: "- (s + r) = - s + - r" and x2: "- (fmodf s 10 + r) = fmodf (- s) 10 + - r"
      unfolding m by simp_all
    have 3: "replicate (nat \<lfloor>\<bar>s\<bar> / 10\<rfloor>) (E (0 < s)) @
         replicate (nat \<lfloor>\<bar>fmodf s 10 + r\<bar> / 10\<rfloor>) (E (0 < fmodf s 10 + r)) =
         replicate (nat \<lfloor>\<bar>s + r\<bar> / 10\<rfloor>) (E (0 < s + r))"
      unfolding replicate_negative [OF sn] replicate_negative [OF t'] replicate_negative [OF t]
        x1 x2 c
      by (simp only: replicate_add)
    have "fmodf (fmodf (- s) 10 + - r) 10 = fmodf (- s + - r) 10"
      using s0 r0 by (rule tens_split(2))
    then have "fmodf (- (fmodf s 10 + r)) 10 = fmodf (- (s + r)) 10"
      unfolding m by simp
    then have 4: "fmodf (fmodf s 10 + r) 10 = fmodf (s + r) 10"
      unfolding fmodf_minus by simp
    show ?thesis using 1 2 3 4 by blast
  qed
  show "same_direction (fmodf (a + d) 10) ds"
    using all unfolding s_def r_def by (rule conjunct1)
  show "\<bar>fmodf (a + d) 10\<bar> < 10"
    using all unfolding s_def r_def by (rule conjunct2 [THEN conjunct1])
  show "replicate (nat \<lfloor>\<bar>a + d\<bar> / 10\<rfloor>) (E (0 < a + d)) @
         replicate (nat \<lfloor>\<bar>fmodf (a + d) 10 + sum_list ds\<bar> / 10\<rfloor>)
           (E (0 < fmodf (a + d) 10 + sum_list ds)) =
         replicate (nat \<lfloor>\<bar>a + d + sum_list ds\<bar> / 10\<rfloor>) (E (0 < a + d + sum_list ds))"
    using all unfolding s_def r_def by (rule conjunct2 [THEN conjunct2, THEN conjunct1])
  show "fmodf (fmodf (a + d) 10 + sum_list ds) 10 = fmodf (a + d + sum_list ds) 10"
    using all unfolding s_def r_def by (rule conjunct2 [THEN conjunct2, THEN conjunct2])
qed

lemma exact_step:
  assumes "exact_residue a" and "exact_delta d"
  shows "accumulate a d = a + d"
    and "n_scrolls (a + d) = \<lfloor>\<bar>a + d\<bar> / 10\<rfloor>"
    and "n_scrolls (a + d) \<le> INT_MAX"
    and "on_grid (fmodf (a + d) 10)"
proof -
  have g: "on_grid (a + d)"
    using assms by (simp add: exact_residue_def exact_delta_def on_grid_add)
  have b: "\<bar>a + d\<bar> < 16384"
    using assms unfolding exact_residue_def exact_delta_def by linarith
  show "accumulate a d = a + d"
    using assms by (rule accumulate_exact)
  show n: "n_scrolls (a + d) = \<lfloor>\<bar>a + d\<bar> / 10\<rfloor>"
    using g b by (rule n_scrolls_exact)
  have "\<bar>a + d\<bar> / 10 < 2048" using b by simp
  then have "\<lfloor>\<bar>a + d\<bar> / 10\<rfloor> < 2048" by (simp add: floor_less_iff)
  then show "n_scrolls (a + d) \<le> INT_MAX"
    unfolding n by (simp add: INT_MAX_def)
  show "on_grid (fmodf (a + d) 10)"
    using g by (rule fmodf_on_grid)
qed

lemma scroll_run:
  assumes st: "device_stage device \<noteq> None"
    and "list_all (\<lambda>(sdx, sdy). exact_delta sdx \<and> exact_delta sdy) deltas"
    and "exact_residue (accum_scroll_dx seat)" and "exact_residue (accum_scroll_dy seat)"
    and "same_direction (accum_scroll_dx seat) (map fst deltas)"
    and "same_direction (accum_scroll_dy seat) (map snd deltas)"
  shows "\<exists>seat'. scroll_continuous seat device deltas = Some seat' \<and>
     discrete_events horizontal seat' = discrete_events horizontal seat @
       replicate (nat \<lfloor>\<bar>accum_scroll_dx seat + sum_list (map fst deltas)\<bar> / 10\<rfloor>)
         (DiscreteScrollEvent
            (if 0 < accum_scroll_dx seat + sum_list (map fst deltas) then CLUTTER_SCROLL_RIGHT
             else CLUTTER_SCROLL_LEFT) True) \<and>
     accum_scroll_dx seat' = fmodf (accum_scroll_dx seat + sum_list (map fst deltas)) 10 \<and>
     discrete_events vertical seat' = discrete_events vertical seat @
       replicate (nat \<lfloor>\<bar>accum_scroll_dy seat + sum_list (map snd deltas)\<bar> / 10\<rfloor>)
         (DiscreteScrollEvent
            (if 0 < accum_scroll_dy seat + sum_list (map snd deltas) then CLUTTER_SCROLL_DOWN
             else CLUTTER_SCROLL_UP) True) \<and>
     accum_scroll_dy seat' = fmodf (accum_scroll_dy seat + sum_list (map snd deltas)) 10"
  using assms(2-)
proof (induction deltas arbitrary: seat)
  case Nil
  have "\<bar>accum_scroll_dx seat\<bar> < 10" "\<bar>accum_scroll_dy seat\<bar> < 10"
    using Nil.prems by (simp_all add: exact_residue_def)
  then have "\<lfloor>\<bar>accum_scroll_dx seat\<bar> / 10\<rfloor> = 0" "\<lfloor>\<bar>accum_scroll_dy seat\<bar> / 10\<rfloor> = 0"
    "fmodf (accum_scroll_dx seat) 10 = accum_scroll_dx seat"
    "fmodf (accum_scroll_dy seat) 10 = accum_scroll_dy seat"
    by (simp_all add: floor_eq_iff fmodf_small)
  then show ?case by simp
next
  case (Cons delta deltas)
  obtain sdx sdy where delta: "delta = (sdx, sdy)" by (cases delta)
  define ax where "ax = accum_scroll_dx seat"
  define ay where "ay = accum_scroll_dy seat"
  define rx where "rx = sum_list (map fst deltas)"
  define ry where "ry = sum_list (map snd deltas)"
  define evx where "evx = (\<lambda>b. DiscreteScrollEvent
                      (if b then CLUTTER_SCROLL_RIGHT else CLUTTER_SCROLL_LEFT) True)"
  define evy where "evy = (\<lambda>b. DiscreteScrollEvent
                      (if b then CLUTTER_SCROLL_DOWN else CLUTTER_SCROLL_UP) True)"
  have ex: "exact_delta sdx" "exact_delta sdy"
    and rest: "list_all (\<lambda>(sdx, sdy). exact_delta sdx \<and> exact_delta sdy) deltas"
    using Cons.prems(1) by (simp_all add: delta)
  have rax: "exact_residue ax" and ray: "exact_residue ay"
    using Cons.prems(2,3) by (simp_all add: ax_def ay_def)
  have sdx: "same_direction ax (sdx # map fst deltas)"
    and sdy: "same_direction ay (sdy # map snd deltas)"
    using Cons.prems(4,5) by (simp_all add: delta ax_def ay_def)
  note xs = exact_step [OF rax ex(1)]
  note ys = exact_step [OF ray ex(2)]
  define seat1 where
    "seat1 = seat\<lparr>accum_scroll_dx := fmodf (ax + sdx) 10,
                accum_scroll_dy := fmodf (ay + sdy) 10,
                event_queue := event_queue seat @
                  [SmoothScrollEvent (to_double (to_double (1 / 10) * sdx))
                     (to_double (to_double (1 / 10) * sdy)) 0 False] @
                  replicate (nat \<lfloor>\<bar>ax + sdx\<bar> / 10\<rfloor>) (evx (0 < ax + sdx)) @
                  replicate (nat \<lfloor>\<bar>ay + sdy\<bar> / 10\<rfloor>) (evy (0 < ay + sdy))\<rparr>"
  have step: "meta_seat_native_notify_scroll_continuous seat device sdx sdy
                CLUTTER_SCROLL_FINISHED_NONE = Some seat1"
  proof -
    have nx: "n_scrolls (accumulate (accum_scroll_dx seat) sdx) \<le> INT_MAX"
      and ny: "n_scrolls (accumulate (accum_scroll_dy seat) sdy) \<le> INT_MAX"
      unfolding ax_def [symmetric] ay_def [symmetric] xs(1) ys(1) by (rule xs(3), rule ys(3))
    show ?thesis
      unfolding scroll_step [OF st nx ny] ax_def [symmetric] ay_def [symmetric] xs(1) ys(1)
        xs(2) ys(2) seat1_def evx_def evy_def
      by simp
  qed
  have a1: "accum_scroll_dx seat1 = fmodf (ax + sdx) 10" "accum_scroll_dy seat1 = fmodf (ay + sdy) 10"
    by (simp_all add: seat1_def)
  have h1: "discrete_events horizontal seat1 =
              discrete_events horizontal seat @
                replicate (nat \<lfloor>\<bar>ax + sdx\<bar> / 10\<rfloor>) (evx (0 < ax + sdx))"
    and v1: "discrete_events vertical seat1 =
              discrete_events vertical seat @
                replicate (nat \<lfloor>\<bar>ay + sdy\<bar> / 10\<rfloor>) (evy (0 < ay + sdy))"
    unfolding seat1_def evx_def evy_def by (rule discrete_events_step)+
  have r1: "exact_residue (accum_scroll_dx seat1)" "exact_residue (accum_scroll_dy seat1)"
    unfolding a1 exact_residue_def
    using xs(4) ys(4) axis_step(2) [OF sdx] axis_step(2) [OF sdy] by simp_all
  have d1: "same_direction (accum_scroll_dx seat1) (map fst deltas)"
    "same_direction (accum_scroll_dy seat1) (map snd deltas)"
    unfolding a1 using axis_step(1) [OF sdx] axis_step(1) [OF sdy] by simp_all
  obtain seat' where
    run: "scroll_continuous seat1 device deltas = Some seat'"
    and hx: "discrete_events horizontal seat' = discrete_events horizontal seat1 @
       replicate (nat \<lfloor>\<bar>fmodf (ax + sdx) 10 + rx\<bar> / 10\<rfloor>) (evx (0 < fmodf (ax + sdx) 10 + rx))"
    and fx: "accum_scroll_dx seat' = fmodf (fmodf (ax + sdx) 10 + rx) 10"
    and hy: "discrete_events vertical seat' = discrete_events vertical seat1 @
       replicate (nat \<lfloor>\<bar>fmodf (ay + sdy) 10 + ry\<bar> / 10\<rfloor>) (evy (0 < fmodf (ay + sdy) 10 + ry))"
    and fy: "accum_scroll_dy seat' = fmodf (fmodf (ay + sdy) 10 + ry) 10"
    using Cons.IH [OF rest r1 d1] unfolding a1 rx_def ry_def evx_def evy_def by blast
  have tx: "ax + sum_list (map fst (delta # deltas)) = ax + sdx + rx"
    and ty: "ay + sum_list (map snd (delta # deltas)) = ay + sdy + ry"
    by (simp_all add: delta rx_def ry_def)
  have 1: "scroll_continuous seat device (delta # deltas) = Some seat'"
    by (simp add: delta step run)
  have 2: "discrete_events horizontal seat' = discrete_events horizontal seat @
       replicate (nat \<lfloor>\<bar>ax + sdx + rx\<bar> / 10\<rfloor>) (evx (0 < ax + sdx + rx))"
    unfolding hx h1 append_assoc rx_def axis_step(3) [OF sdx, of evx] ..
  have 3: "accum_scroll_dx seat' = fmodf (ax + sdx + rx) 10"
    unfolding fx rx_def by (rule axis_step(4) [OF sdx])
  have 4: "discrete_events vertical seat' = discrete_events vertical seat @
       replicate (nat \<lfloor>\<bar>ay + sdy + ry\<bar> / 10\<rfloor>) (evy (0 < ay + sdy + ry))"
    unfolding hy v1 append_assoc ry_def axis_step(3) [OF sdy, of evy] ..
  have 5: "accum_scroll_dy seat' = fmodf (ay + sdy + ry) 10"
    unfolding fy ry_def by (rule axis_step(4) [OF sdy])
  show ?case
    unfolding ax_def [symmetric] ay_def [symmetric] tx ty
    using 1 2 3 4 5 unfolding evx_def evy_def by blast
qed

lemma floor_tens:
  fixes a :: real
  shows "0 \<le> a \<Longrightarrow> a < 10 \<Longrightarrow> \<lfloor>(a + 10 * of_nat k) / 10\<rfloor> = int k"
proof -
  assume a: "0 \<le> a" "a < 10"
  have "(a + 10 * of_nat k) / 10 = a / 10 + of_int (int k)" by (simp add: field_simps)
  moreover have "\<lfloor>a / 10\<rfloor> = 0" using a by (simp add: floor_eq_iff)
  ultimately show ?thesis by (simp only: floor_add_int) simp
qed

text \<open>
  One axis whose deltas add up to k times 10 in magnitude: the total has k tens and the
  remainder is the accumulator the run started from.
\<close>

lemma axis_tens:
  fixes E :: "bool \<Rightarrow> 'a"
  assumes "same_direction a ds" and "\<bar>a\<bar> < 10" and "\<bar>sum_list ds\<bar> = 10 * of_nat k"
  shows "replicate (nat \<lfloor>\<bar>a + sum_list ds\<bar> / 10\<rfloor>) (E (0 < a + sum_list ds)) =
           replicate k (E (0 < sum_list ds))"
    and "fmodf (a + sum_list ds) 10 = a"
proof -
  define r where "r = sum_list ds"
  consider (pos) "0 \<le> a" "0 \<le> r" | (neg) "a \<le> 0" "r \<le> 0"
    using assms(1) sum_list_nonneg_all [of ds] sum_list_nonpos_all [of ds]
    by (auto simp: same_direction_def r_def)
  then have "replicate (nat \<lfloor>\<bar>a + r\<bar> / 10\<rfloor>) (E (0 < a + r)) = replicate k (E (0 < r)) \<and>
             fmodf (a + r) 10 = a"
  proof cases
    case pos
    have r: "r = 10 * of_nat k" using assms(3) pos(2) by (simp add: r_def)
    have a: "0 \<le> a" "a < 10" using pos(1) assms(2) by simp_all
    have f: "\<lfloor>(a + r) / 10\<rfloor> = int k" unfolding r using a by (rule floor_tens)
    have t: "0 \<le> a + r" using pos by simp
    have 1: "replicate (nat \<lfloor>\<bar>a + r\<bar> / 10\<rfloor>) (E (0 < a + r)) = replicate k (E (0 < r))"
    proof (cases "k = 0")
      case True
      then show ?thesis unfolding replicate_positive [OF t] f by simp
    next
      case False
      then have "0 < r" by (simp add: r)
      then show ?thesis unfolding replicate_positive [OF t] f by simp
    qed
    have "fmodf (a + r) 10 = (a + r) - 10 * of_int \<lfloor>(a + r) / 10\<rfloor>"
      using t by (rule fmodf_nonneg)
    then have 2: "fmodf (a + r) 10 = a"
      unfolding f by (simp add: r)
    show ?thesis using 1 2 by (rule conjI)
  next
    case neg
    have r: "- r = 10 * of_nat k" using assms(3) neg(2) by (simp add: r_def)
    have a: "0 \<le> - a" "- a < 10" using neg(1) assms(2) by simp_all
    have "\<lfloor>(- a + - r) / 10\<rfloor> = int k" unfolding r using a by (rule floor_tens)
    moreover have x: "- (a + r) = - a + - r" by simp
    ultimately have f: "\<lfloor>- (a + r) / 10\<rfloor> = int k" by (simp only:)
    have t: "a + r \<le> 0" using neg by simp
    have "\<not> 0 < r" using neg(2) by simp
    then have 1: "replicate (nat \<lfloor>\<bar>a + r\<bar> / 10\<rfloor>) (E (0 < a + r)) = replicate k (E (0 < r))"
      unfolding replicate_negative [OF t] f by simp
    have t': "0 \<le> - (a + r)" using t by simp
    have "fmodf (- (a + r)) 10 = - (a + r) - 10 * of_int \<lfloor>- (a + r) / 10\<rfloor>"
      using t' by (rule fmodf_nonneg)
    then have "fmodf (- (a + r)) 10 = - a"
      unfolding f using r by simp
    then have 2: "fmodf (a + r) 10 = a"
      unfolding fmodf_minus by simp
    show ?thesis using 1 2 by (rule conjI)
  qed
  then have all: "replicate (nat \<lfloor>\<bar>a + sum_list ds\<bar> / 10\<rfloor>) (E (0 < a + sum_list ds)) =
           replicate k (E (0 < sum_list ds)) \<and> fmodf (a + sum_list ds) 10 = a"
    unfolding r_def .
  show "replicate (nat \<lfloor>\<bar>a + sum_list ds\<bar> / 10\<rfloor>) (E (0 < a + sum_list ds)) =
           replicate k (E (0 < sum_list ds))"
    using all by (rule conjunct1)
  show "fmodf (a + sum_list ds) 10 = a"
    using all by (rule conjunct2)
qed

lemma fmodf_abs: "\<bar>fmodf x 10\<bar> = \<bar>x\<bar> - 10 * of_int \<lfloor>\<bar>x\<bar> / 10\<rfloor>"
proof (cases "0 \<le> x")
  case True
  then show ?thesis
    using residue_range(1) [of x] by (simp add: fmodf_nonneg)
next
  case False
  then have n: "0 \<le> - x" by simp
  have "fmodf (- x) 10 = - x - 10 * of_int \<lfloor>- x / 10\<rfloor>"
    using n by (rule fmodf_nonneg)
  then have "fmodf x 10 = - (- x - 10 * of_int \<lfloor>- x / 10\<rfloor>)"
    unfolding fmodf_minus by simp
  moreover have "0 \<le> - x - 10 * of_int \<lfloor>- x / 10\<rfloor>" by (rule residue_range)
  ultimately have "\<bar>fmodf x 10\<bar> = - x - 10 * of_int \<lfloor>- x / 10\<rfloor>" by simp
  then show ?thesis using False by simp
qed

lemma n_scrolls_zero: "n_scrolls 0 = 0"
  by (simp add: n_scrolls_def to_double_def ieee_round_def)

lemma fmodf_zero: "fmodf 0 10 = 0"
  by (simp add: fmodf_def)

lemma discrete_accum:
  "accum_scroll_dx (notify_discrete_scroll device direction emulated seat) = accum_scroll_dx seat"
  "accum_scroll_dy (notify_discrete_scroll device direction emulated seat) = accum_scroll_dy seat"
  by (simp_all add: notify_discrete_scroll_def queue_event_def)

lemma discrete_funpow_accum:
  "accum_scroll_dx ((notify_discrete_scroll device direction emulated ^^ n) seat) = accum_scroll_dx seat"
  "accum_scroll_dy ((notify_discrete_scroll device direction emulated ^^ n) seat) = accum_scroll_dy seat"
  by (induction n) (simp_all add: discrete_accum)

lemma discrete_step_events:
  "direction \<notin> set directions \<Longrightarrow>
     discrete_events directions (notify_discrete_scroll device direction emulated seat) =
       discrete_events directions seat"
  by (simp add: notify_discrete_scroll_def queue_event_def discrete_events_def)

lemma discrete_funpow_events:
  "direction \<notin> set directions \<Longrightarrow>
     discrete_events directions ((notify_discrete_scroll device direction emulated ^^ n) seat) =
       discrete_events directions seat"
  by (induction n) (simp_all add: discrete_step_events)

lemma notify_scroll_keeps:
  "accum_scroll_dx (notify_scroll seat device sdx sdy flags emulated) = accum_scroll_dx seat"
  "accum_scroll_dy (notify_scroll seat device sdx sdy flags emulated) = accum_scroll_dy seat"
  "discrete_events directions (notify_scroll seat device sdx sdy flags emulated) =
     discrete_events directions seat"
  by (simp_all add: notify_scroll_def queue_event_def discrete_events_def Let_def)

text \<open>One report, any device and any finish flags: the accumulators it leaves.\<close>

lemma scroll_report:
  assumes "meta_seat_native_notify_scroll_continuous seat device sdx sdy flags = Some seat'"
  shows "accum_scroll_dx seat' =
           (if flags AND CLUTTER_SCROLL_FINISHED_HORIZONTAL \<noteq> 0 then 0
            else fmodf (accumulate (accum_scroll_dx seat) sdx) 10)"
    and "accum_scroll_dy seat' =
           (if flags AND CLUTTER_SCROLL_FINISHED_VERTICAL \<noteq> 0 then 0
            else fmodf (accumulate (accum_scroll_dy seat) sdy) 10)"
    and "flags AND CLUTTER_SCROLL_FINISHED_HORIZONTAL \<noteq> 0 \<Longrightarrow>
           discrete_events horizontal seat' = discrete_events horizontal seat"
    and "flags AND CLUTTER_SCROLL_FINISHED_VERTICAL \<noteq> 0 \<Longrightarrow>
           discrete_events vertical seat' = discrete_events vertical seat"
proof -
  define sx where "sx = (if flags AND CLUTTER_SCROLL_FINISHED_HORIZONTAL \<noteq> 0 then 0
                         else accumulate (accum_scroll_dx seat) sdx)"
  define sy where "sy = (if flags AND CLUTTER_SCROLL_FINISHED_VERTICAL \<noteq> 0 then 0
                         else accumulate (accum_scroll_dy seat) sdy)"
  define seat3 where
    "seat3 = notify_scroll (seat\<lparr>accum_scroll_dx := sx, accum_scroll_dy := sy\<rparr>) device sdx sdy flags False"
  have 1: "meta_seat_native_notify_scroll_continuous seat device sdx sdy flags =
          check_notify_discrete_scroll seat3 device"
    by (simp add: meta_seat_native_notify_scroll_continuous_def Let_def seat3_def sx_def sy_def)
  have a: "accum_scroll_dx seat3 = sx" "accum_scroll_dy seat3 = sy"
    by (simp_all add: seat3_def notify_scroll_keeps)
  have e: "discrete_events directions seat3 = discrete_events directions seat" for directions
    unfolding seat3_def notify_scroll_keeps by (simp add: discrete_events_def)
  define seat1 where
    "seat1 = (notify_discrete_scroll device
                (if sx > 0 then CLUTTER_SCROLL_RIGHT else CLUTTER_SCROLL_LEFT)
                True ^^ nat (n_scrolls sx)) seat3"
  define seat2 where
    "seat2 = (notify_discrete_scroll device
                (if sy > 0 then CLUTTER_SCROLL_DOWN else CLUTTER_SCROLL_UP)
                True ^^ nat (n_scrolls sy)) seat1"
  have s: "seat' = seat2\<lparr>accum_scroll_dx := fmodf (accum_scroll_dx seat2) 10,
                          accum_scroll_dy := fmodf (accum_scroll_dy seat2) 10\<rparr>"
    using assms unfolding 1 check_notify_discrete_scroll_def Let_def a
      seat1_def [symmetric] seat2_def [symmetric] DISCRETE_SCROLL_STEP_def
    by (simp split: if_splits)
  have a2: "accum_scroll_dx seat2 = sx" "accum_scroll_dy seat2 = sy"
    by (simp_all add: seat2_def seat1_def discrete_funpow_accum a)
  show "accum_scroll_dx seat' =
           (if flags AND CLUTTER_SCROLL_FINISHED_HORIZONTAL \<noteq> 0 then 0
            else fmodf (accumulate (accum_scroll_dx seat) sdx) 10)"
    by (simp add: s a2 sx_def fmodf_zero)
  show "accum_scroll_dy seat' =
           (if flags AND CLUTTER_SCROLL_FINISHED_VERTICAL \<noteq> 0 then 0
            else fmodf (accumulate (accum_scroll_dy seat) sdy) 10)"
    by (simp add: s a2 sy_def fmodf_zero)
  have es: "discrete_events directions seat' = discrete_events directions seat2" for directions
    by (simp add: s discrete_events_def)
  show "discrete_events horizontal seat' = discrete_events horizontal seat"
    if "flags AND CLUTTER_SCROLL_FINISHED_HORIZONTAL \<noteq> 0"
  proof -
    have "sx = 0" using that by (simp add: sx_def)
    then have "seat1 = seat3" by (simp add: seat1_def n_scrolls_zero)
    then show ?thesis
      unfolding es seat2_def
      by (simp add: discrete_funpow_events horizontal_def e)
  qed
  show "discrete_events vertical seat' = discrete_events vertical seat"
    if "flags AND CLUTTER_SCROLL_FINISHED_VERTICAL \<noteq> 0"
  proof -
    have "sy = 0" using that by (simp add: sy_def)
    then have "seat2 = seat1" by (simp add: seat2_def n_scrolls_zero)
    then show ?thesis
      unfolding es seat1_def
      by (simp add: discrete_funpow_events vertical_def e)
  qed
qed

lemma scroll_report_total:
  "(\<exists>seat'. meta_seat_native_notify_scroll_continuous seat device sdx sdy flags = Some seat') \<longleftrightarrow>
     n_scrolls (if flags AND CLUTTER_SCROLL_FINISHED_HORIZONTAL \<noteq> 0 then 0
                else accumulate (accum_scroll_dx seat) sdx) \<le> INT_MAX \<and>
     n_scrolls (if flags AND CLUTTER_SCROLL_FINISHED_VERTICAL \<noteq> 0 then 0
                else accumulate (accum_scroll_dy seat) sdy) \<le> INT_MAX"
  by (auto simp: meta_seat_native_notify_scroll_continuous_def Let_def
      check_notify_discrete_scroll_def notify_scroll_keeps)

lemma accumulate_zero: "accumulate 0 0 = 0"
  by (simp add: accumulate_def to_double_def to_float_def ieee_round_def)

text \<open>A report on the horizontal axis alone, the vertical accumulator at zero.\<close>

lemma scroll_step_x:
  assumes st: "device_stage device \<noteq> None"
    and y: "accum_scroll_dy seat = 0"
    and s: "accumulate (accum_scroll_dx seat) sdx = s"
    and n: "n_scrolls s = n" "n \<le> INT_MAX"
  shows "\<exists>seat1. meta_seat_native_notify_scroll_continuous seat device sdx 0
                    CLUTTER_SCROLL_FINISHED_NONE = Some seat1 \<and>
           accum_scroll_dx seat1 = fmodf s 10 \<and> accum_scroll_dy seat1 = 0 \<and>
           discrete_events horizontal seat1 = discrete_events horizontal seat @
             replicate (nat n)
               (DiscreteScrollEvent (if 0 < s then CLUTTER_SCROLL_RIGHT else CLUTTER_SCROLL_LEFT) True)"
proof -
  have nx: "n_scrolls (accumulate (accum_scroll_dx seat) sdx) \<le> INT_MAX"
    unfolding s using n by simp
  have ny: "n_scrolls (accumulate (accum_scroll_dy seat) 0) \<le> INT_MAX"
    unfolding y accumulate_zero n_scrolls_zero by (simp add: INT_MAX_def)
  show ?thesis
    unfolding scroll_step [OF st nx ny] s y accumulate_zero n_scrolls_zero n(1)
    by (simp add: fmodf_zero discrete_events_def horizontal_def)
qed

lemma tie_examples:
  "accumulate 0 (8 + 1 / 2097152) = 8"
  "accumulate 8 (1 + 1 / 2097152) = 9"
  "accumulate 9 (1 - 1 / 1048576) = 10 - 1 / 1048576"
proof -
  have d1: "to_double (8 + 1 / 2097152) = 8 + 1 / 2097152"
    unfolding to_double_def
    by (rule ieee_round_exact [where g = 21 and b = 4 and m = 16777217]) simp_all
  have d2: "to_double (9 + 1 / 2097152) = 9 + 1 / 2097152"
    unfolding to_double_def
    by (rule ieee_round_exact [where g = 21 and b = 4 and m = 18874369]) simp_all
  have d3: "to_double (10 - 1 / 1048576) = 10 - 1 / 1048576"
    unfolding to_double_def
    by (rule ieee_round_exact [where g = 20 and b = 4 and m = 10485759]) simp_all
  have f3: "to_float (10 - 1 / 1048576) = 10 - 1 / 1048576"
    unfolding to_float_def
    by (rule ieee_round_exact [where g = 20 and b = 4 and m = 10485759]) simp_all
  have l1: "ilog2 \<bar>8 + 1 / 2097152\<bar> = 3"
    by (rule ilog2_eqI) simp_all
  have l2: "ilog2 \<bar>9 + 1 / 2097152\<bar> = 3"
    by (rule ilog2_eqI) simp_all
  have f1: "to_float (8 + 1 / 2097152) = 8"
    unfolding to_float_def ieee_round_def l1
    by (simp add: round_to_even_def Let_def power_int_minus_divide)
  have f2: "to_float (9 + 1 / 2097152) = 9"
    unfolding to_float_def ieee_round_def l2
    by (simp add: round_to_even_def Let_def power_int_minus_divide)
  have "(0::real) + (8 + 1 / 2097152) = 8 + 1 / 2097152" by simp
  then show "accumulate 0 (8 + 1 / 2097152) = 8"
    by (simp only: accumulate_def d1 f1)
  have "(8::real) + (1 + 1 / 2097152) = 9 + 1 / 2097152" by simp
  then show "accumulate 8 (1 + 1 / 2097152) = 9"
    by (simp only: accumulate_def d2 f2)
  have "(9::real) + (1 - 1 / 1048576) = 10 - 1 / 1048576" by simp
  then show "accumulate 9 (1 - 1 / 1048576) = 10 - 1 / 1048576"
    by (simp only: accumulate_def d3 f3)
qed

lemma n_scrolls_examples:
  "n_scrolls 8 = 0" "n_scrolls 9 = 0" "n_scrolls (10 - 1 / 1048576) = 0"
  "n_scrolls 15 = 1" "n_scrolls (- 10) = 1"
proof -
  show "n_scrolls 8 = 0" "n_scrolls 9 = 0" "n_scrolls 15 = 1" "n_scrolls (- 10) = 1"
    by (simp_all add: n_scrolls_exact on_grid_def)
  define q :: real where "q = (10 - 1 / 1048576) / 10"
  have q: "1 / 2 \<le> q" "q < 1" "q \<noteq> 0" "\<bar>q\<bar> = q"
    by (simp_all add: q_def)
  have "ilog2 q = - 1"
    using q by (intro ilog2_eqI) simp_all
  then have "\<bar>to_double q - q\<bar> \<le> 2 powi (- 53) / 2"
    using ieee_round_error [OF q(3), of 53 "- 1022"] unfolding to_double_def q(4) by simp
  moreover have "q + 2 powi (- 53) / 2 < 1" "0 \<le> q - 2 powi (- 53) / 2"
    by (simp_all add: q_def power_int_minus_divide)
  ultimately have "0 \<le> to_double q" "to_double q < 1" by linarith+
  then have "\<lfloor>to_double q\<rfloor> = 0" by linarith
  then show "n_scrolls (10 - 1 / 1048576) = 0"
    by (simp add: n_scrolls_def DISCRETE_SCROLL_STEP_def q_def)
qed

text \<open>
  Claim C6 says that deltas on one axis whose cumulative magnitude is exactly k times 10
  units give exactly k discrete events, and leave the true remainder in the accumulator.
  A run that reverses direction does not: the deltas 15 and -15 add up to 0 (and their
  magnitudes to 30), and two discrete events are queued, one to the right and one to the
  left. Nor does a run in one direction whose sums are rounded: the three positive
  doubles 8 + 1/2097152, 1 + 1/2097152 and 1 - 1/1048576 add up to exactly 10, the float
  accumulator holds 8, then 9 (each tie is rounded to the even significand), then
  10 - 1/1048576: no discrete event is queued, and the accumulator is not the remainder 0.
\<close>

theorem scroll_steps_counterexample:
  "sum_list [15, - 15] = (10 :: real) * of_nat 0 \<and>
   sum_list (map abs [15, - 15]) = (10 :: real) * of_nat 3 \<and>
   map_option (discrete_events horizontal)
     (scroll_continuous meta_seat_native_new example_mouse [(15, 0), (- 15, 0)]) =
     Some [DiscreteScrollEvent CLUTTER_SCROLL_RIGHT True, DiscreteScrollEvent CLUTTER_SCROLL_LEFT True] \<and>
   sum_list [8 + 1 / 2097152, 1 + 1 / 2097152, 1 - 1 / 1048576] = (10 :: real) * of_nat 1 \<and>
   map_option (discrete_events horizontal)
     (scroll_continuous meta_seat_native_new example_mouse
        [(8 + 1 / 2097152, 0), (1 + 1 / 2097152, 0), (1 - 1 / 1048576, 0)]) = Some [] \<and>
   map_option accum_scroll_dx
     (scroll_continuous meta_seat_native_new example_mouse
        [(8 + 1 / 2097152, 0), (1 + 1 / 2097152, 0), (1 - 1 / 1048576, 0)]) =
     Some (10 - 1 / 1048576)"
proof -
  have st: "device_stage example_mouse \<noteq> None"
    by (simp add: example_mouse_def)
  have z: "accum_scroll_dx meta_seat_native_new = 0" "accum_scroll_dy meta_seat_native_new = 0"
    "discrete_events horizontal meta_seat_native_new = []"
    by (simp_all add: meta_seat_native_new_def discrete_events_def)
  have i: "(0::int) \<le> INT_MAX" "(1::int) \<le> INT_MAX"
    by (simp_all add: INT_MAX_def)
  have f: "fmodf 15 10 = 5" "fmodf (- 10) 10 = 0" "fmodf 8 10 = 8" "fmodf 9 10 = 9"
    "fmodf (10 - 1 / 1048576) 10 = 10 - 1 / 1048576"
    by (simp_all add: fmodf_def)
  have a: "accumulate 0 15 = 15" "accumulate 5 (- 15) = - 10"
    by (simp_all add: accumulate_exact exact_residue_def exact_delta_def on_grid_def)
  obtain r1 where r1: "meta_seat_native_notify_scroll_continuous meta_seat_native_new example_mouse
          15 0 CLUTTER_SCROLL_FINISHED_NONE = Some r1"
    "accum_scroll_dx r1 = 5" "accum_scroll_dy r1 = 0"
    "discrete_events horizontal r1 = [DiscreteScrollEvent CLUTTER_SCROLL_RIGHT True]"
    using scroll_step_x [OF st z(2), of 15 15 1] a(1) n_scrolls_examples(4) i(2)
    unfolding z f by auto
  obtain r2 where r2: "meta_seat_native_notify_scroll_continuous r1 example_mouse
          (- 15) 0 CLUTTER_SCROLL_FINISHED_NONE = Some r2"
    "discrete_events horizontal r2 =
       [DiscreteScrollEvent CLUTTER_SCROLL_RIGHT True, DiscreteScrollEvent CLUTTER_SCROLL_LEFT True]"
    using scroll_step_x [OF st r1(3), of "- 15" "- 10" 1] a(2) n_scrolls_examples(5) i(2)
    unfolding r1 f by auto
  have rev: "map_option (discrete_events horizontal)
     (scroll_continuous meta_seat_native_new example_mouse [(15, 0), (- 15, 0)]) =
     Some [DiscreteScrollEvent CLUTTER_SCROLL_RIGHT True, DiscreteScrollEvent CLUTTER_SCROLL_LEFT True]"
    by (simp add: r1(1) r2)
  obtain t1 where t1: "meta_seat_native_notify_scroll_continuous meta_seat_native_new example_mouse
          (8 + 1 / 2097152) 0 CLUTTER_SCROLL_FINISHED_NONE = Some t1"
    "accum_scroll_dx t1 = 8" "accum_scroll_dy t1 = 0" "discrete_events horizontal t1 = []"
    using scroll_step_x [OF st z(2), of "8 + 1 / 2097152" 8 0] tie_examples(1)
      n_scrolls_examples(1) i(1)
    unfolding z f by auto
  obtain t2 where t2: "meta_seat_native_notify_scroll_continuous t1 example_mouse
          (1 + 1 / 2097152) 0 CLUTTER_SCROLL_FINISHED_NONE = Some t2"
    "accum_scroll_dx t2 = 9" "accum_scroll_dy t2 = 0" "discrete_events horizontal t2 = []"
    using scroll_step_x [OF st t1(3), of "1 + 1 / 2097152" 9 0] tie_examples(2)
      n_scrolls_examples(2) i(1)
    unfolding t1 f by auto
  obtain t3 where t3: "meta_seat_native_notify_scroll_continuous t2 example_mouse
          (1 - 1 / 1048576) 0 CLUTTER_SCROLL_FINISHED_NONE = Some t3"
    "accum_scroll_dx t3 = 10 - 1 / 1048576" "discrete_events horizontal t3 = []"
    using scroll_step_x [OF st t2(3), of "1 - 1 / 1048576" "10 - 1 / 1048576" 0] tie_examples(3)
      n_scrolls_examples(3) i(1)
    unfolding t2 f by auto
  have run: "scroll_continuous meta_seat_native_new example_mouse
        [(8 + 1 / 2097152, 0), (1 + 1 / 2097152, 0), (1 - 1 / 1048576, 0)] = Some t3"
    by (simp only: scroll_continuous.simps t1(1) t2(1) t3(1) option.case)
  have s: "sum_list [15, - 15] = (10 :: real) * of_nat 0"
    "sum_list (map abs [15, - 15]) = (10 :: real) * of_nat 3"
    "sum_list [8 + 1 / 2097152, 1 + 1 / 2097152, 1 - 1 / 1048576] = (10 :: real) * of_nat 1"
    by simp_all
  show ?thesis
    unfolding run using s rev t3(2,3) by (simp only: option.map simp_thms)
qed

text \<open>
  Claim C6, amended. Take a run of continuous scroll reports without finish flags on a
  device with a stage, where on each axis the deltas point in one direction, that of the
  accumulator the run starts from, and where deltas and accumulators are multiples of
  1/1024, the deltas of magnitude 8192 at most, so that no sum is rounded. Then every
  report returns, and on each axis the run queues as many discrete events as the
  accumulated total (accumulator plus deltas) has whole tens, in the direction of its
  sign, and leaves \<open>fmodf\<close> of that total by 10 in the accumulator. When the deltas of an
  axis add up to exactly k times 10 in magnitude, these are exactly k events in the
  direction of the deltas, and the accumulator ends where it started.

  For any report that returns, on any device: an axis without its finish flag is left at
  \<open>fmodf\<close> by 10 of the accumulated value, the float nearest to the double sum of
  accumulator and delta, whose magnitude is the remainder of the accumulated magnitude
  and whose sign is that of the accumulated value; an axis with its finish flag is left
  at zero and gets no discrete event. A report returns exactly when both step counts fit
  an int.
\<close>

theorem scroll_discrete_steps:
  "(device_stage device \<noteq> None \<and>
    list_all (\<lambda>(sdx, sdy). exact_delta sdx \<and> exact_delta sdy) deltas \<and>
    exact_residue (accum_scroll_dx seat) \<and> exact_residue (accum_scroll_dy seat) \<and>
    same_direction (accum_scroll_dx seat) (map fst deltas) \<and>
    same_direction (accum_scroll_dy seat) (map snd deltas) \<longrightarrow>
      (\<exists>seat'. scroll_continuous seat device deltas = Some seat' \<and>
         discrete_events horizontal seat' = discrete_events horizontal seat @
           replicate (nat \<lfloor>\<bar>accum_scroll_dx seat + sum_list (map fst deltas)\<bar> / 10\<rfloor>)
             (DiscreteScrollEvent
                (if 0 < accum_scroll_dx seat + sum_list (map fst deltas) then CLUTTER_SCROLL_RIGHT
                 else CLUTTER_SCROLL_LEFT) True) \<and>
         accum_scroll_dx seat' = fmodf (accum_scroll_dx seat + sum_list (map fst deltas)) 10 \<and>
         discrete_events vertical seat' = discrete_events vertical seat @
           replicate (nat \<lfloor>\<bar>accum_scroll_dy seat + sum_list (map snd deltas)\<bar> / 10\<rfloor>)
             (DiscreteScrollEvent
                (if 0 < accum_scroll_dy seat + sum_list (map snd deltas) then CLUTTER_SCROLL_DOWN
                 else CLUTTER_SCROLL_UP) True) \<and>
         accum_scroll_dy seat' = fmodf (accum_scroll_dy seat + sum_list (map snd deltas)) 10 \<and>
         (\<bar>sum_list (map fst deltas)\<bar> = 10 * of_nat kx \<longrightarrow>
            discrete_events horizontal seat' = discrete_events horizontal seat @
              replicate kx
                (DiscreteScrollEvent
                   (if 0 < sum_list (map fst deltas) then CLUTTER_SCROLL_RIGHT
                    else CLUTTER_SCROLL_LEFT) True) \<and>
            accum_scroll_dx seat' = accum_scroll_dx seat) \<and>
         (\<bar>sum_list (map snd deltas)\<bar> = 10 * of_nat ky \<longrightarrow>
            discrete_events vertical seat' = discrete_events vertical seat @
              replicate ky
                (DiscreteScrollEvent
                   (if 0 < sum_list (map snd deltas) then CLUTTER_SCROLL_DOWN
                    else CLUTTER_SCROLL_UP) True) \<and>
            accum_scroll_dy seat' = accum_scroll_dy seat))) \<and>
   (meta_seat_native_notify_scroll_continuous seat device sdx sdy flags = Some seat_out \<longrightarrow>
      accum_scroll_dx seat_out =
        (if flags AND CLUTTER_SCROLL_FINISHED_HORIZONTAL \<noteq> 0 then 0
         else fmodf (accumulate (accum_scroll_dx seat) sdx) 10) \<and>
      accum_scroll_dy seat_out =
        (if flags AND CLUTTER_SCROLL_FINISHED_VERTICAL \<noteq> 0 then 0
         else fmodf (accumulate (accum_scroll_dy seat) sdy) 10) \<and>
      (flags AND CLUTTER_SCROLL_FINISHED_HORIZONTAL \<noteq> 0 \<longrightarrow>
         discrete_events horizontal seat_out = discrete_events horizontal seat) \<and>
      (flags AND CLUTTER_SCROLL_FINISHED_VERTICAL \<noteq> 0 \<longrightarrow>
         discrete_events vertical seat_out = discrete_events vertical seat)) \<and>
   ((\<exists>seat_out. meta_seat_native_notify_scroll_continuous seat device sdx sdy flags = Some seat_out) =
      (n_scrolls (if flags AND CLUTTER_SCROLL_FINISHED_HORIZONTAL \<noteq> 0 then 0
                  else accumulate (accum_scroll_dx seat) sdx) \<le> INT_MAX \<and>
       n_scrolls (if flags AND CLUTTER_SCROLL_FINISHED_VERTICAL \<noteq> 0 then 0
                  else accumulate (accum_scroll_dy seat) sdy) \<le> INT_MAX)) \<and>
   \<bar>fmodf x 10\<bar> = \<bar>x\<bar> - 10 * of_int \<lfloor>\<bar>x\<bar> / 10\<rfloor> \<and>
   (0 \<le> x \<longrightarrow> 0 \<le> fmodf x 10) \<and> (x \<le> 0 \<longrightarrow> fmodf x 10 \<le> 0)"
proof (intro conjI impI)
  assume h: "device_stage device \<noteq> None \<and>
    list_all (\<lambda>(sdx, sdy). exact_delta sdx \<and> exact_delta sdy) deltas \<and>
    exact_residue (accum_scroll_dx seat) \<and> exact_residue (accum_scroll_dy seat) \<and>
    same_direction (accum_scroll_dx seat) (map fst deltas) \<and>
    same_direction (accum_scroll_dy seat) (map snd deltas)"
  then have st: "device_stage device \<noteq> None"
    and ex: "list_all (\<lambda>(sdx, sdy). exact_delta sdx \<and> exact_delta sdy) deltas"
    and rx: "exact_residue (accum_scroll_dx seat)" and ry: "exact_residue (accum_scroll_dy seat)"
    and dx: "same_direction (accum_scroll_dx seat) (map fst deltas)"
    and dy: "same_direction (accum_scroll_dy seat) (map snd deltas)"
    by blast+
  have bx: "\<bar>accum_scroll_dx seat\<bar> < 10" and by': "\<bar>accum_scroll_dy seat\<bar> < 10"
    using rx ry by (simp_all add: exact_residue_def)
  obtain seat' where
    run: "scroll_continuous seat device deltas = Some seat'"
    and hx: "discrete_events horizontal seat' = discrete_events horizontal seat @
           replicate (nat \<lfloor>\<bar>accum_scroll_dx seat + sum_list (map fst deltas)\<bar> / 10\<rfloor>)
             (DiscreteScrollEvent
                (if 0 < accum_scroll_dx seat + sum_list (map fst deltas) then CLUTTER_SCROLL_RIGHT
                 else CLUTTER_SCROLL_LEFT) True)"
    and fx: "accum_scroll_dx seat' = fmodf (accum_scroll_dx seat + sum_list (map fst deltas)) 10"
    and hy: "discrete_events vertical seat' = discrete_events vertical seat @
           replicate (nat \<lfloor>\<bar>accum_scroll_dy seat + sum_list (map snd deltas)\<bar> / 10\<rfloor>)
             (DiscreteScrollEvent
                (if 0 < accum_scroll_dy seat + sum_list (map snd deltas) then CLUTTER_SCROLL_DOWN
                 else CLUTTER_SCROLL_UP) True)"
    and fy: "accum_scroll_dy seat' = fmodf (accum_scroll_dy seat + sum_list (map snd deltas)) 10"
    using scroll_run [OF st ex rx ry dx dy] by blast
  have tx: "discrete_events horizontal seat' = discrete_events horizontal seat @
              replicate kx
                (DiscreteScrollEvent
                   (if 0 < sum_list (map fst deltas) then CLUTTER_SCROLL_RIGHT
                    else CLUTTER_SCROLL_LEFT) True) \<and>
            accum_scroll_dx seat' = accum_scroll_dx seat"
    if k: "\<bar>sum_list (map fst deltas)\<bar> = 10 * of_nat kx"
    unfolding hx fx
      axis_tens(1) [OF dx bx k, of "\<lambda>b. DiscreteScrollEvent
                   (if b then CLUTTER_SCROLL_RIGHT else CLUTTER_SCROLL_LEFT) True"]
      axis_tens(2) [OF dx bx k]
    by simp
  have ty: "discrete_events vertical seat' = discrete_events vertical seat @
              replicate ky
                (DiscreteScrollEvent
                   (if 0 < sum_list (map snd deltas) then CLUTTER_SCROLL_DOWN
                    else CLUTTER_SCROLL_UP) True) \<and>
            accum_scroll_dy seat' = accum_scroll_dy seat"
    if k: "\<bar>sum_list (map snd deltas)\<bar> = 10 * of_nat ky"
    unfolding hy fy
      axis_tens(1) [OF dy by' k, of "\<lambda>b. DiscreteScrollEvent
                   (if b then CLUTTER_SCROLL_DOWN else CLUTTER_SCROLL_UP) True"]
      axis_tens(2) [OF dy by' k]
    by simp
  show "\<exists>seat'. scroll_continuous seat device deltas = Some seat' \<and>
         discrete_events horizontal seat' = discrete_events horizontal seat @
           replicate (nat \<lfloor>\<bar>accum_scroll_dx seat + sum_list (map fst deltas)\<bar> / 10\<rfloor>)
             (DiscreteScrollEvent
                (if 0 < accum_scroll_dx seat + sum_list (map fst deltas) then CLUTTER_SCROLL_RIGHT
                 else CLUTTER_SCROLL_LEFT) True) \<and>
         accum_scroll_dx seat' = fmodf (accum_scroll_dx seat + sum_list (map fst deltas)) 10 \<and>
         discrete_events vertical seat' = discrete_events vertical seat @
           replicate (nat \<lfloor>\<bar>accum_scroll_dy seat + sum_list (map snd deltas)\<bar> / 10\<rfloor>)
             (DiscreteScrollEvent
                (if 0 < accum_scroll_dy seat + sum_list (map snd deltas) then CLUTTER_SCROLL_DOWN
                 else CLUTTER_SCROLL_UP) True) \<and>
         accum_scroll_dy seat' = fmodf (accum_scroll_dy seat + sum_list (map snd deltas)) 10 \<and>
         (\<bar>sum_list (map fst deltas)\<bar> = 10 * of_nat kx \<longrightarrow>
            discrete_events horizontal seat' = discrete_events horizontal seat @
              replicate kx
                (DiscreteScrollEvent
                   (if 0 < sum_list (map fst deltas) then CLUTTER_SCROLL_RIGHT
                    else CLUTTER_SCROLL_LEFT) True) \<and>
            accum_scroll_dx seat' = accum_scroll_dx seat) \<and>
         (\<bar>sum_list (map snd deltas)\<bar> = 10 * of_nat ky \<longrightarrow>
            discrete_events vertical seat' = discrete_events vertical seat @
              replicate ky
                (DiscreteScrollEvent
                   (if 0 < sum_list (map snd deltas) then CLUTTER_SCROLL_DOWN
                    else CLUTTER_SCROLL_UP) True) \<and>
            accum_scroll_dy seat' = accum_scroll_dy seat)"
    using run hx fx hy fy tx ty by (intro exI [of _ seat'] conjI impI) blast+
next
  assume r: "meta_seat_native_notify_scroll_continuous seat device sdx sdy flags = Some seat_out"
  show "accum_scroll_dx seat_out =
        (if flags AND CLUTTER_SCROLL_FINISHED_HORIZONTAL \<noteq> 0 then 0
         else fmodf (accumulate (accum_scroll_dx seat) sdx) 10)"
    using r by (rule scroll_report(1))
  show "accum_scroll_dy seat_out =
        (if flags AND CLUTTER_SCROLL_FINISHED_VERTICAL \<noteq> 0 then 0
         else fmodf (accumulate (accum_scroll_dy seat) sdy) 10)"
    using r by (rule scroll_report(2))
  show "discrete_events horizontal seat_out = discrete_events horizontal seat"
    if "flags AND CLUTTER_SCROLL_FINISHED_HORIZONTAL \<noteq> 0"
    using r that by (rule scroll_report(3))
  show "discrete_events vertical seat_out = discrete_events vertical seat"
    if "flags AND CLUTTER_SCROLL_FINISHED_VERTICAL \<noteq> 0"
    using r that by (rule scroll_report(4))
next
  show "(\<exists>seat_out. meta_seat_native_notify_scroll_continuous seat device sdx sdy flags = Some seat_out) =
      (n_scrolls (if flags AND CLUTTER_SCROLL_FINISHED_HORIZONTAL \<noteq> 0 then 0
                  else accumulate (accum_scroll_dx seat) sdx) \<le> INT_MAX \<and>
       n_scrolls (if flags AND CLUTTER_SCROLL_FINISHED_VERTICAL \<noteq> 0 then 0
                  else accumulate (accum_scroll_dy seat) sdy) \<le> INT_MAX)"
    by (rule scroll_report_total)
next
  show "\<bar>fmodf x 10\<bar> = \<bar>x\<bar> - 10 * of_int \<lfloor>\<bar>x\<bar> / 10\<rfloor>"
    by (rule fmodf_abs)
next
  assume "0 \<le> x"
  then show "0 \<le> fmodf x 10"
    using fmodf_range_nonneg by blast
next
  assume "x \<le> 0"
  then show "fmodf x 10 \<le> 0"
    using fmodf_range_nonpos by blast
qed

text \<open>
  The amended C6 on a new seat: the horizontal deltas 4, 11 and 5 add up to 20 and give
  two events to the right, the vertical deltas -2.5, -7.5 and 0 add up to -10 and give one
  event up, both accumulators back at 0. A report with the horizontal finish flag on an
  accumulator of 7 returns, leaves the accumulator at 0 and queues no horizontal event.
\<close>

theorem scroll_discrete_steps_witness:
  "(\<exists>seat'. scroll_continuous meta_seat_native_new example_mouse
              [(4, - 5 / 2), (11, - 15 / 2), (5, 0)] = Some seat' \<and>
      discrete_events horizontal seat' = replicate 2 (DiscreteScrollEvent CLUTTER_SCROLL_RIGHT True) \<and>
      accum_scroll_dx seat' = 0 \<and>
      discrete_events vertical seat' = replicate 1 (DiscreteScrollEvent CLUTTER_SCROLL_UP True) \<and>
      accum_scroll_dy seat' = 0) \<and>
   (\<exists>seat1. meta_seat_native_notify_scroll_continuous
              (meta_seat_native_new\<lparr>accum_scroll_dx := 7\<rparr>) example_mouse 8 0
              CLUTTER_SCROLL_FINISHED_HORIZONTAL = Some seat1 \<and>
      accum_scroll_dx seat1 = 0 \<and> discrete_events horizontal seat1 = [])"
proof -
  define deltas :: "(real \<times> real) list" where "deltas = [(4, - 5 / 2), (11, - 15 / 2), (5, 0)]"
  define seat7 where "seat7 = meta_seat_native_new\<lparr>accum_scroll_dx := 7\<rparr>"
  have h: "device_stage example_mouse \<noteq> None \<and>
    list_all (\<lambda>(sdx, sdy). exact_delta sdx \<and> exact_delta sdy) deltas \<and>
    exact_residue (accum_scroll_dx meta_seat_native_new) \<and>
    exact_residue (accum_scroll_dy meta_seat_native_new) \<and>
    same_direction (accum_scroll_dx meta_seat_native_new) (map fst deltas) \<and>
    same_direction (accum_scroll_dy meta_seat_native_new) (map snd deltas)"
    by (simp add: example_mouse_def meta_seat_native_new_def deltas_def exact_delta_def
        exact_residue_def on_grid_def same_direction_def del: of_int_floor_cancel)
  have k: "\<bar>sum_list (map fst deltas)\<bar> = 10 * of_nat 2" "\<bar>sum_list (map snd deltas)\<bar> = 10 * of_nat 1"
    "0 < sum_list (map fst deltas)" "\<not> 0 < sum_list (map snd deltas)"
    by (simp_all add: deltas_def)
  have z: "discrete_events horizontal meta_seat_native_new = []"
    "discrete_events vertical meta_seat_native_new = []"
    "accum_scroll_dx meta_seat_native_new = 0" "accum_scroll_dy meta_seat_native_new = 0"
    by (simp_all add: meta_seat_native_new_def discrete_events_def)
  have 1: "\<exists>seat'. scroll_continuous meta_seat_native_new example_mouse deltas = Some seat' \<and>
      discrete_events horizontal seat' = replicate 2 (DiscreteScrollEvent CLUTTER_SCROLL_RIGHT True) \<and>
      accum_scroll_dx seat' = 0 \<and>
      discrete_events vertical seat' = replicate 1 (DiscreteScrollEvent CLUTTER_SCROLL_UP True) \<and>
      accum_scroll_dy seat' = 0"
    using scroll_discrete_steps
      [where device = example_mouse and seat = meta_seat_native_new and deltas = deltas
         and kx = 2 and ky = 1 and sdx = 0 and sdy = 0 and flags = 0
         and seat_out = meta_seat_native_new and x = 0, THEN conjunct1] h k
    unfolding z by auto
  have f: "CLUTTER_SCROLL_FINISHED_HORIZONTAL AND CLUTTER_SCROLL_FINISHED_HORIZONTAL \<noteq> 0"
    "CLUTTER_SCROLL_FINISHED_HORIZONTAL AND CLUTTER_SCROLL_FINISHED_VERTICAL = 0"
    by (simp_all add: CLUTTER_SCROLL_FINISHED_HORIZONTAL_def CLUTTER_SCROLL_FINISHED_VERTICAL_def)
  have n: "n_scrolls 0 \<le> INT_MAX" "n_scrolls (accumulate (accum_scroll_dy seat7) 0) \<le> INT_MAX"
    by (simp_all add: seat7_def meta_seat_native_new_def accumulate_zero n_scrolls_zero INT_MAX_def)
  obtain seat1 where
    r: "meta_seat_native_notify_scroll_continuous seat7 example_mouse 8 0
          CLUTTER_SCROLL_FINISHED_HORIZONTAL = Some seat1"
    using scroll_discrete_steps
      [where device = example_mouse and seat = seat7 and sdx = 8 and sdy = 0
         and flags = CLUTTER_SCROLL_FINISHED_HORIZONTAL and deltas = "[]" and kx = 0 and ky = 0
         and seat_out = seat7 and x = 0, THEN conjunct2, THEN conjunct2, THEN conjunct1] n f
    by auto
  have z7: "discrete_events horizontal seat7 = []"
    by (simp add: seat7_def meta_seat_native_new_def discrete_events_def)
  have 2: "\<exists>seat1. meta_seat_native_notify_scroll_continuous seat7 example_mouse 8 0
              CLUTTER_SCROLL_FINISHED_HORIZONTAL = Some seat1 \<and>
      accum_scroll_dx seat1 = 0 \<and> discrete_events horizontal seat1 = []"
    using scroll_discrete_steps
      [where device = example_mouse and seat = seat7 and sdx = 8 and sdy = 0
         and flags = CLUTTER_SCROLL_FINISHED_HORIZONTAL and deltas = "[]" and kx = 0 and ky = 0
         and seat_out = seat1 and x = 0, THEN conjunct2, THEN conjunct1] r f(1) z7
    by auto
  show ?thesis
    using 1 2 unfolding deltas_def seat7_def by (rule conjI)
qed

end
